theory Spec2Isabelle
  imports Complex_Main
begin

section \<open>JavaScript values\<close>

text \<open>
  The bridge passes JSON documents between the cloud API, the vehicle objects and MQTT.
  A JavaScript value is modelled as a JSON tree extended with \<open>undefined\<close>. An object is
  an association list in enumeration order (insertion order: vehicle ids and the property
  names used by the program are not array indices).
\<close>

datatype json =
    JUndefined
  | JNull
  | JBool bool
  | JNum real
  | JStr string
  | JArr "json list"
  | JObj "(string \<times> json) list"

text \<open>Exceptions and promise rejection reasons.\<close>

datatype exn =
    TypeError
  | SyntaxError
  | Error string
  | HttpFailure string

text \<open>JavaScript truthiness, as tested by \<open>!x\<close>, \<open>if (x)\<close> and \<open>x || y\<close>.\<close>

fun truthy :: "json \<Rightarrow> bool" where
  "truthy JUndefined = False"
| "truthy JNull = False"
| "truthy (JBool b) = b"
| "truthy (JNum r) = (r \<noteq> 0)"
| "truthy (JStr s) = (s \<noteq> [])"
| "truthy (JArr xs) = True"
| "truthy (JObj kvs) = True"

definition js_or :: "json \<Rightarrow> json \<Rightarrow> json" where
  "js_or a b = (if truthy a then a else b)"

text \<open>
  Property read \<open>v[k]\<close> on a value that is neither \<open>undefined\<close> nor \<open>null\<close>: the own
  property of an object, \<open>undefined\<close> otherwise (the built-in properties of strings and
  arrays are not read by the program on these values).
\<close>

fun js_prop :: "json \<Rightarrow> string \<Rightarrow> json" where
  "js_prop (JObj kvs) k = (case map_of kvs k of Some v \<Rightarrow> v | None \<Rightarrow> JUndefined)"
| "js_prop v k = JUndefined"

text \<open>Property read with the TypeError that \<open>undefined[k]\<close> and \<open>null[k]\<close> throw.\<close>

definition js_get :: "json \<Rightarrow> string \<Rightarrow> exn + json" where
  "js_get v k = (if v = JUndefined \<or> v = JNull then Inl TypeError else Inr (js_prop v k))"

text \<open>\<open>s.lastIndexOf(c)\<close>: the last position of \<open>c\<close>, or \<open>-1\<close>.\<close>

fun lastIndexOf_from :: "string \<Rightarrow> char \<Rightarrow> int \<Rightarrow> int \<Rightarrow> int" where
  "lastIndexOf_from [] c i found = found"
| "lastIndexOf_from (x # xs) c i found =
     lastIndexOf_from xs c (i + 1) (if x = c then i else found)"

definition lastIndexOf :: "string \<Rightarrow> char \<Rightarrow> int" where
  "lastIndexOf s c = lastIndexOf_from s c 0 (- 1)"

text \<open>\<open>s.substring(n)\<close>: a negative start counts as 0.\<close>

definition substring :: "string \<Rightarrow> int \<Rightarrow> string" where
  "substring s n = drop (nat (max 0 n)) s"

text \<open>
  \<open>x.substring(x.lastIndexOf('/') + 1)\<close> for a value \<open>x\<close>: only a string has the two
  methods, on any other value that is defined the call is a TypeError.
\<close>

definition lastSegment :: "string \<Rightarrow> string" where
  "lastSegment s = substring s (lastIndexOf s (CHR ''/'') + 1)"

definition js_lastSegment :: "json \<Rightarrow> exn + json" where
  "js_lastSegment v = (case v of JStr s \<Rightarrow> Inr (JStr (lastSegment s)) | _ \<Rightarrow> Inl TypeError)"

section \<open>The cloud, the broker and the trace of effects\<close>

text \<open>
  The resources of the cloud API that the program addresses (\<open>lib/voc.js\<close>), under
  \<open>/customerapi/rest/v3.0/\<close>. The vehicle id is the VIN, a string; a service id and a
  charge-location id are whatever value the caller interpolates.
\<close>

datatype path =
    vehicle_attributes string
  | vehicle_status string
  | vehicle_chargeLocations string
  | vehicle_position string
  | vehicle_services string json
  | vehicle_updatestatus string
  | vehicle_heater_start string
  | vehicle_heater_stop string
  | vehicle_preclimatization_start string
  | vehicle_preclimatization_stop string
  | vehicle_lock string
  | vehicle_unlock string
  | vehicle_overrideDelayCharging string
  | vehicle_chargeLocation string json

datatype request = GET path | POST path json | PUT path json

text \<open>
  What the program does to the outside, in order. A \<open>Log\<close> carries the channel and the
  constant part of the logged text.
\<close>

datatype effect =
    Request request
  | Sleep nat
  | Log string string
  | VocEmit string "exn + json"
  | CarEmit nat string
  | Subscribe string
  | Unsubscribe string
  | Publish string json

text \<open>
  The world outside the vehicle objects: \<open>cloud k\<close> is the outcome of the \<open>k\<close>-th HTTP
  request the process issues (\<open>Inl\<close>: the promise is rejected), \<open>nreq\<close> counts the requests
  issued so far, \<open>trace\<close> lists the effects in program order, \<open>subscriptions\<close> is the
  MQTT session's subscription set, and \<open>serviceInvocationSuccess\<close> is the field
  \<open>_serviceInvocationSuccess\<close> of the one \<open>VOC\<close> instance the application shares between
  all vehicles. \<open>JSON_parse\<close> and \<open>numberToString\<close> stand for the runtime's \<open>JSON.parse\<close>
  (\<open>None\<close>: SyntaxError) and number formatting.

  An asynchronous operation is modelled run to completion: its HTTP requests are answered
  in the order they are issued and each promise callback runs right after the answer, with no
  other operation in between.
\<close>

record world =
  cloud :: "nat \<Rightarrow> exn + json"
  nreq :: nat
  trace :: "effect list"
  subscriptions :: "string set"
  serviceInvocationSuccess :: bool
  JSON_parse :: "string \<Rightarrow> json option"
  numberToString :: "real \<Rightarrow> string"

definition effect :: "effect \<Rightarrow> world \<Rightarrow> world" where
  "effect e w = w\<lparr>trace := trace w @ [e]\<rparr>"

text \<open>Issuing a request without waiting for its answer.\<close>

definition issue :: "request \<Rightarrow> world \<Rightarrow> world" where
  "issue r w = (effect (Request r) w)\<lparr>nreq := nreq w + 1\<rparr>"

text \<open>Issuing a request and awaiting its answer.\<close>

definition http :: "request \<Rightarrow> world \<Rightarrow> (exn + json) \<times> world" where
  "http r w = (cloud w (nreq w), issue r w)"

text \<open>What a trace says about requests and timers.\<close>

fun requests_of :: "effect list \<Rightarrow> request list" where
  "requests_of [] = []"
| "requests_of (Request r # es) = r # requests_of es"
| "requests_of (e # es) = requests_of es"

fun sleeps_of :: "effect list \<Rightarrow> nat list" where
  "sleeps_of [] = []"
| "sleeps_of (Sleep n # es) = n # sleeps_of es"
| "sleeps_of (e # es) = sleeps_of es"

section \<open>lib/voc.js: the cloud client\<close>

text \<open>
  Source: the second document of \<open>src/lib/car.js\<close> (from line 210), which is \<open>lib/voc.js\<close>.
\<close>

definition apiErrorEventName :: string where
  "apiErrorEventName = ''voc_api_error''"

definition refreshEventName :: string where
  "refreshEventName = ''car_action_status''"

text \<open>
  \<open>getVOCCommand\<close>, \<open>postVOCCommand\<close>, \<open>putVOCCommand\<close>: one HTTP request each. The body of
  a POST or PUT is \<open>data\<close> when it is truthy and \<open>true\<close> otherwise.
\<close>

definition getVOCCommand :: "path \<Rightarrow> world \<Rightarrow> (exn + json) \<times> world" where
  "getVOCCommand p w = http (GET p) w"

definition postVOCCommand :: "path \<Rightarrow> json \<Rightarrow> world \<Rightarrow> (exn + json) \<times> world" where
  "postVOCCommand p data w = http (POST p (if truthy data then data else JBool True)) w"

definition putVOCCommand :: "path \<Rightarrow> json \<Rightarrow> world \<Rightarrow> (exn + json) \<times> world" where
  "putVOCCommand p data w = http (PUT p (if truthy data then data else JBool True)) w"

text \<open>
  \<open>getServiceInvocationStatus\<close>: one poll. An empty answer is rejected; a failure reason
  other than \<open>'none'\<close> is emitted as an API error; the poll resolves with \<open>data.status\<close>.
\<close>

definition getServiceInvocationStatus :: "string \<Rightarrow> json \<Rightarrow> world \<Rightarrow> (exn + json) \<times> world" where
  "getServiceInvocationStatus vehicleId serviceId w =
     (case getVOCCommand (vehicle_services vehicleId serviceId) w of
        (Inl reason, w1) \<Rightarrow> (Inl reason, w1)
      | (Inr data, w1) \<Rightarrow>
          if \<not> truthy data then (Inl (Error ''getServiceInvocationStatus, api_error''), w1)
          else
            let failureReason = js_or (js_prop data ''failureReason'') (JStr ''none'');
                w2 = effect (Log ''console.log'' ''Service invocation status'') w1;
                w3 = (if failureReason \<noteq> JStr ''none''
                      then effect (VocEmit apiErrorEventName (Inr data)) w2 else w2)
            in (Inr (js_prop data ''status''), w3))"

text \<open>
  \<open>runFor\<close>: the polling loop. \<open>done\<close> and \<open>counter\<close> are the loop's two variables; every
  round increments the counter, waits \<open>interval\<close> milliseconds and polls once. A rejected
  poll rejects the loop.
\<close>

function runFor_loop ::
  "(world \<Rightarrow> (exn + json) \<times> world) \<Rightarrow> nat \<Rightarrow> bool \<Rightarrow> nat \<Rightarrow> world \<Rightarrow> (exn + unit) \<times> world" where
  "runFor_loop func interval done counter w =
     (if \<not> done \<and> counter < 15 then
        (case func (effect (Sleep interval) w) of
           (Inl reason, w1) \<Rightarrow> (Inl reason, w1)
         | (Inr response, w1) \<Rightarrow>
             if response = JStr ''Successful''
             then runFor_loop func interval True (counter + 1)
                    (w1\<lparr>serviceInvocationSuccess := True\<rparr>)
             else if response = JStr ''Failed''
             then runFor_loop func interval True (counter + 1)
                    (effect (Log ''console.error'' ''Service invocation failed!'') w1)
             else runFor_loop func interval False (counter + 1) w1)
      else
        (Inr (),
         if counter > 15
         then effect (Log ''console.error'' ''Service invocation didn't get a status back'') w
         else w))"
  by pat_completeness auto
termination
  by (relation "measure (\<lambda>(func, interval, done, counter, w). 15 - counter)") auto

declare runFor_loop.simps [simp del]

definition runFor ::
  "(world \<Rightarrow> (exn + json) \<times> world) \<Rightarrow> nat \<Rightarrow> world \<Rightarrow> (exn + unit) \<times> world" where
  "runFor func interval w = runFor_loop func interval False 0 w"

text \<open>
  \<open>awaitSuccessfulServiceInvocation\<close>: rejects a falsy service id without polling;
  otherwise polls every 1000 ms and resolves with the flag, which it resets.
\<close>

definition awaitSuccessfulServiceInvocation ::
  "string \<Rightarrow> json \<Rightarrow> world \<Rightarrow> (exn + bool) \<times> world" where
  "awaitSuccessfulServiceInvocation vehicleId serviceId w =
     (if \<not> truthy serviceId then (Inl (Error ''ServiceId is null!''), w)
      else
        (case runFor (getServiceInvocationStatus vehicleId serviceId) 1000 w of
           (Inl reason, w1) \<Rightarrow> (Inl reason, w1)
         | (Inr u, w1) \<Rightarrow>
             (Inr (serviceInvocationSuccess w1), w1\<lparr>serviceInvocationSuccess := False\<rparr>)))"

text \<open>
  The action methods of \<open>VOC.prototype\<close> share one promise chain: submit the command, read
  \<open>status.customerServiceId\<close> (a TypeError when the answer is \<open>undefined\<close> or \<open>null\<close>), await
  the service invocation and emit the outcome. A rejected submission or a throwing callback
  is emitted once as an API error, a rejected await twice (inner and outer \<open>catch\<close>).
\<close>

definition apiError :: "exn \<Rightarrow> world \<Rightarrow> world" where
  "apiError reason w = effect (VocEmit apiErrorEventName (Inl reason)) w"

definition actionStatus :: "string \<Rightarrow> json \<Rightarrow> effect" where
  "actionStatus action result =
     VocEmit refreshEventName (Inr (JObj [(''action'', JStr action), (''result'', result)]))"

definition invokeService ::
  "(world \<Rightarrow> (exn + json) \<times> world) \<Rightarrow> string \<Rightarrow> (json \<Rightarrow> effect) \<Rightarrow> world \<Rightarrow> (exn + bool) \<times> world" where
  "invokeService submit vehicleId completed w =
     (case submit w of
        (Inl reason, w1) \<Rightarrow> (Inl reason, apiError reason w1)
      | (Inr status, w1) \<Rightarrow>
          (case js_get status ''customerServiceId'' of
             Inl e \<Rightarrow> (Inl e, apiError e w1)
           | Inr serviceId \<Rightarrow>
               (case awaitSuccessfulServiceInvocation vehicleId serviceId w1 of
                  (Inl reason, w2) \<Rightarrow> (Inl reason, apiError reason (apiError reason w2))
                | (Inr result, w2) \<Rightarrow> (Inr result, effect (completed (JBool result)) w2))))"

definition VOC_refreshVehicleStatusFromCar :: "string \<Rightarrow> world \<Rightarrow> (exn + bool) \<times> world" where
  "VOC_refreshVehicleStatusFromCar vehicleId =
     invokeService (postVOCCommand (vehicle_updatestatus vehicleId) JNull) vehicleId
       (\<lambda>result. VocEmit ''car_refreshed_status'' (Inr result))"

definition VOC_startHeater :: "string \<Rightarrow> world \<Rightarrow> (exn + bool) \<times> world" where
  "VOC_startHeater vehicleId =
     invokeService (postVOCCommand (vehicle_heater_start vehicleId) (JObj [])) vehicleId
       (actionStatus ''startHeater'')"

definition VOC_stopHeater :: "string \<Rightarrow> world \<Rightarrow> (exn + bool) \<times> world" where
  "VOC_stopHeater vehicleId =
     invokeService (postVOCCommand (vehicle_heater_stop vehicleId) JNull) vehicleId
       (actionStatus ''stopHeater'')"

definition VOC_startPreClimatization :: "string \<Rightarrow> world \<Rightarrow> (exn + bool) \<times> world" where
  "VOC_startPreClimatization vehicleId =
     invokeService (postVOCCommand (vehicle_preclimatization_start vehicleId) (JObj [])) vehicleId
       (actionStatus ''startPreClimatization'')"

definition VOC_stopPreClimatization :: "string \<Rightarrow> world \<Rightarrow> (exn + bool) \<times> world" where
  "VOC_stopPreClimatization vehicleId =
     invokeService (postVOCCommand (vehicle_preclimatization_stop vehicleId) JNull) vehicleId
       (actionStatus ''stopPreClimatization'')"

definition VOC_lock :: "string \<Rightarrow> world \<Rightarrow> (exn + bool) \<times> world" where
  "VOC_lock vehicleId =
     invokeService (postVOCCommand (vehicle_lock vehicleId) (JObj [])) vehicleId
       (actionStatus ''lock'')"

definition VOC_unlock :: "string \<Rightarrow> world \<Rightarrow> (exn + bool) \<times> world" where
  "VOC_unlock vehicleId =
     invokeService (postVOCCommand (vehicle_unlock vehicleId) JNull) vehicleId
       (actionStatus ''unlock'')"

definition VOC_startCharging :: "string \<Rightarrow> world \<Rightarrow> (exn + bool) \<times> world" where
  "VOC_startCharging vehicleId =
     invokeService (postVOCCommand (vehicle_overrideDelayCharging vehicleId) JNull) vehicleId
       (actionStatus ''startCharging'')"

text \<open>
  \<open>VOC.prototype.delayCharging\<close>: the answer to the PUT carries a \<open>service\<close> reference only
  when the cloud started a service invocation; its id is the text after the last \<open>/\<close>.
  Without a reference the answer itself is the result.
\<close>

definition VOC_delayCharging :: "string \<Rightarrow> json \<Rightarrow> json \<Rightarrow> world \<Rightarrow> (exn + json) \<times> world" where
  "VOC_delayCharging vehicleId chargeLocationId payload w =
     (case putVOCCommand (vehicle_chargeLocation vehicleId chargeLocationId) payload w of
        (Inl reason, w1) \<Rightarrow> (Inl reason, apiError reason w1)
      | (Inr status, w1) \<Rightarrow>
          (case js_get status ''service'' of
             Inl e \<Rightarrow> (Inl e, apiError e w1)
           | Inr service \<Rightarrow>
               if truthy service then
                 (case js_lastSegment service of
                    Inl e \<Rightarrow> (Inl e, apiError e w1)
                  | Inr serviceId \<Rightarrow>
                      (case awaitSuccessfulServiceInvocation vehicleId serviceId w1 of
                         (Inl reason, w2) \<Rightarrow> (Inl reason, apiError reason (apiError reason w2))
                       | (Inr result, w2) \<Rightarrow>
                           (Inr (JBool result),
                            effect (actionStatus ''delayCharging'' (JBool result)) w2)))
               else (Inr status, effect (actionStatus ''delayCharging'' status) w1)))"

text \<open>The four fetches: a rejected request is emitted as an API error and rejected on.\<close>

definition VOC_getVehicleAttributes :: "string \<Rightarrow> world \<Rightarrow> (exn + json) \<times> world" where
  "VOC_getVehicleAttributes vehicleId w =
     (case getVOCCommand (vehicle_attributes vehicleId) w of
        (Inl reason, w1) \<Rightarrow> (Inl reason, apiError reason w1)
      | (Inr vehicle, w1) \<Rightarrow>
          (Inr vehicle, effect (VocEmit ''car_attributes_update'' (Inr vehicle)) w1))"

definition VOC_getVehicleStatusFromCloud :: "string \<Rightarrow> world \<Rightarrow> (exn + json) \<times> world" where
  "VOC_getVehicleStatusFromCloud vehicleId w =
     (case getVOCCommand (vehicle_status vehicleId) w of
        (Inl reason, w1) \<Rightarrow> (Inl reason, apiError reason w1)
      | (Inr vehicle, w1) \<Rightarrow>
          (Inr vehicle, effect (VocEmit ''car_status_update'' (Inr vehicle)) w1))"

definition VOC_getVehicleChargeLocations :: "string \<Rightarrow> world \<Rightarrow> (exn + json) \<times> world" where
  "VOC_getVehicleChargeLocations vehicleId w =
     (case getVOCCommand (vehicle_chargeLocations vehicleId) w of
        (Inl reason, w1) \<Rightarrow> (Inl reason, apiError reason w1)
      | (Inr data, w1) \<Rightarrow>
          (case js_get data ''chargingLocations'' of
             Inl e \<Rightarrow> (Inl e, apiError e w1)
           | Inr v \<Rightarrow>
               let locations = js_or v data
               in (Inr locations, effect (VocEmit ''car_charge_locations'' (Inr locations)) w1)))"

definition VOC_getVehiclePosition :: "string \<Rightarrow> world \<Rightarrow> (exn + json) \<times> world" where
  "VOC_getVehiclePosition vehicleId w =
     (case getVOCCommand (vehicle_position vehicleId) w of
        (Inl reason, w1) \<Rightarrow> (Inl reason, apiError reason w1)
      | (Inr data, w1) \<Rightarrow>
          (case js_get data ''position'' of
             Inl e \<Rightarrow> (Inl e, apiError e w1)
           | Inr position \<Rightarrow>
               (Inr position, effect (VocEmit ''car_position_update'' (Inr position)) w1)))"

section \<open>lib/car.js: one vehicle\<close>

text \<open>
  Source: the source tree holds three revisions of \<open>lib/car.js\<close>: the first document of
  \<open>src/lib/car.js\<close>, \<open>src/unnamed/part_001\<close>, and the last document of \<open>src/README.md\<close>
  (from line 163). This section follows the last one, the current revision: it is the one the
  current \<open>app.js\<close> is written against (\<open>lock\<close>, \<open>unlock\<close>, the heater methods, a
  \<open>delayCharging\<close> of four parameters). \<open>updateDistances\<close>, \<open>getVehiclePosition\<close>, the fetches
  and \<open>startCharging\<close> read the same in all three (but for the logging calls and the names of
  the fields of a distance). \<open>delayCharging\<close> differs: the two earlier revisions take
  \<open>(id, startTime, stopTime)\<close>, always send \<open>enabled: "true"\<close> and call
  \<open>refreshVehicleStatusFromCar()\<close> when the promise resolves.
\<close>

text \<open>
  The conversion of a value to a string by a template literal. Numbers are formatted by
  the runtime.
\<close>

fun join_comma :: "string list \<Rightarrow> string" where
  "join_comma [] = []"
| "join_comma [x] = x"
| "join_comma (x # y # ys) = x @ '','' @ join_comma (y # ys)"

fun js_toString :: "(real \<Rightarrow> string) \<Rightarrow> json \<Rightarrow> string" where
  "js_toString nts JUndefined = ''undefined''"
| "js_toString nts JNull = ''null''"
| "js_toString nts (JBool b) = (if b then ''true'' else ''false'')"
| "js_toString nts (JNum r) = nts r"
| "js_toString nts (JStr s) = s"
| "js_toString nts (JArr xs) =
     join_comma (map (\<lambda>x. if x = JUndefined \<or> x = JNull then [] else js_toString nts x) xs)"
| "js_toString nts (JObj kvs) = ''[object Object]''"

text \<open>
  An entry of \<open>chargeLocations\<close> and an entry of \<open>distances\<close>. The distance is \<open>None\<close>
  where the arithmetic of \<open>calculateDistance\<close> would run on a value that is not a number.
\<close>

record chargeLocation =
  cl_id :: string
  cl_name :: string
  cl_location :: json

record distance =
  chargeLocationId :: string
  chargeLocationName :: string
  distanceToChargeLocation :: "real option"
  currentPosition_latitude :: json
  currentPosition_longitude :: json

text \<open>
  A \<open>VocCar\<close> object. \<open>oid\<close> is the identity of the object: two values with the same \<open>oid\<close>
  are states of one object. \<open>appListeners\<close> counts how often \<open>App.listenForChanges\<close> has
  attached its four listeners to the object. Those listeners publish the facet over MQTT
  and run the Home Assistant discovery; they run after the vehicle's own listeners, as the
  last statement of the promise callback that emits, and they neither write the vehicle
  nor call the cloud. A \<open>CarEmit\<close> effect marks the point where they run.
\<close>

record car =
  oid :: nat
  vehicleId :: string
  vehicleName :: string
  chargeLocations :: "(string \<times> chargeLocation) list"
  attributes :: json
  status :: json
  distances :: "distance list"
  position :: json
  appListeners :: nat

type_synonym 'a outcome = "(exn + 'a) \<times> car \<times> world"

definition debug :: "string \<Rightarrow> world \<Rightarrow> world" where
  "debug msg w = effect (Log ''car:debug'' msg) w"

definition error :: "string \<Rightarrow> world \<Rightarrow> world" where
  "error msg w = effect (Log ''car:error'' msg) w"

definition emit :: "car \<Rightarrow> string \<Rightarrow> world \<Rightarrow> world" where
  "emit c event w = effect (CarEmit (oid c) event) w"

text \<open>The capability checks: \<open>this.attributes[flag] || false\<close>.\<close>

definition capability :: "car \<Rightarrow> string \<Rightarrow> exn + json" where
  "capability c flag =
     (case js_get (attributes c) flag of Inl e \<Rightarrow> Inl e | Inr v \<Rightarrow> Inr (js_or v (JBool False)))"

definition isChargingSupported :: "car \<Rightarrow> exn + json" where
  "isChargingSupported c = capability c ''highVoltageBatterySupported''"

definition isPositionSupported :: "car \<Rightarrow> exn + json" where
  "isPositionSupported c = capability c ''carLocatorSupported''"

definition isRemoteHeaterSupported :: "car \<Rightarrow> exn + json" where
  "isRemoteHeaterSupported c = capability c ''remoteHeaterSupported''"

definition isPreClimatizationSupported :: "car \<Rightarrow> exn + json" where
  "isPreClimatizationSupported c = capability c ''preclimatizationSupported''"

text \<open>
  \<open>calculateDistance(lat1, lon1, lat2, lon2, 'K')\<close>: 0 when a coordinate is falsy, else the
  spherical law of cosines in kilometres, over the reals (the rounding of the floating-point
  operations is not modelled).
\<close>

definition calculateDistance :: "json \<Rightarrow> json \<Rightarrow> json \<Rightarrow> json \<Rightarrow> real option" where
  "calculateDistance lat1 lon1 lat2 lon2 =
     (if \<not> truthy lat1 \<or> \<not> truthy lon1 \<or> \<not> truthy lat2 \<or> \<not> truthy lon2 then Some 0
      else
        (case (lat1, lon1, lat2, lon2) of
           (JNum a1, JNum o1, JNum a2, JNum o2) \<Rightarrow>
             let radlat1 = pi * a1 / 180;
                 radlat2 = pi * a2 / 180;
                 theta = o1 - o2;
                 radtheta = pi * theta / 180;
                 dist = sin radlat1 * sin radlat2 + cos radlat1 * cos radlat2 * cos radtheta
             in Some (arccos dist * 180 / pi * 60 * 1.1515 * 1.609344)
         | _ \<Rightarrow> None))"

text \<open>
  \<open>updateDistances\<close>: returns at once unless the cached position has a truthy latitude and
  longitude; otherwise builds one entry for every key of \<open>chargeLocations\<close>, stores the list
  and emits \<open>distances_updated\<close>. Reading a property of \<open>undefined\<close> throws.
\<close>

definition distanceTo :: "json \<Rightarrow> json \<Rightarrow> chargeLocation \<Rightarrow> exn + distance" where
  "distanceTo lat1 lon1 loc =
     (case js_get (cl_location loc) ''position'' of
        Inl e \<Rightarrow> Inl e
      | Inr p \<Rightarrow>
          (case js_get p ''latitude'' of
             Inl e \<Rightarrow> Inl e
           | Inr lat2 \<Rightarrow>
               Inr \<lparr>chargeLocationId = cl_id loc,
                    chargeLocationName = cl_name loc,
                    distanceToChargeLocation = calculateDistance lat1 lon1 lat2 (js_prop p ''longitude''),
                    currentPosition_latitude = lat1,
                    currentPosition_longitude = lon1\<rparr>))"

fun distancesTo ::
  "json \<Rightarrow> json \<Rightarrow> chargeLocation list \<Rightarrow> world \<Rightarrow> (exn + distance list) \<times> world" where
  "distancesTo lat1 lon1 [] w = (Inr [], w)"
| "distancesTo lat1 lon1 (loc # locs) w =
     (let w1 = debug ''Calculate distance from'' w in
      case distanceTo lat1 lon1 loc of
        Inl e \<Rightarrow> (Inl e, w1)
      | Inr d \<Rightarrow>
          (case distancesTo lat1 lon1 locs w1 of
             (Inl e, w2) \<Rightarrow> (Inl e, w2)
           | (Inr ds, w2) \<Rightarrow> (Inr (d # ds), w2)))"

definition updateDistances :: "car \<Rightarrow> world \<Rightarrow> unit outcome" where
  "updateDistances c w =
     (case js_get (position c) ''latitude'' of
        Inl e \<Rightarrow> (Inl e, c, w)
      | Inr lat1 \<Rightarrow>
          let lon1 = js_prop (position c) ''longitude'' in
          if \<not> truthy lat1 \<or> \<not> truthy lon1 then (Inr (), c, w)
          else
            (case distancesTo lat1 lon1 (map snd (chargeLocations c)) w of
               (Inl e, w1) \<Rightarrow> (Inl e, c, w1)
             | (Inr ds, w1) \<Rightarrow>
                 let c1 = c\<lparr>distances := ds\<rparr>;
                     w2 = debug ''Distances updated'' w1
                 in (Inr (), c1, emit c1 ''distances_updated'' w2)))"

text \<open>Assignment \<open>obj[k] = v\<close>: a known key keeps its place, a new key goes last.\<close>

fun obj_put :: "string \<Rightarrow> 'a \<Rightarrow> (string \<times> 'a) list \<Rightarrow> (string \<times> 'a) list" where
  "obj_put k v [] = [(k, v)]"
| "obj_put k v (p # ps) = (if fst p = k then (k, v) # ps else p # obj_put k v ps)"

text \<open>
  \<open>updateChargeLocations\<close>: the display name and the id of every location of the answer.
  The new map replaces the cached one after the loop, so a throwing loop leaves the cache
  as it was. The loop runs when \<open>locations.length > 0\<close>; only an array has \<open>forEach\<close>.
  (An object answer whose \<open>length\<close> is not a number is taken as having no length.)
\<close>

definition locationEntry :: "(real \<Rightarrow> string) \<Rightarrow> json \<Rightarrow> exn + chargeLocation" where
  "locationEntry nts location =
     (case js_get location ''name'' of
        Inl e \<Rightarrow> Inl e
      | Inr name \<Rightarrow>
          (case js_get (js_prop location ''position'') ''streetAddress'' of
             Inl e \<Rightarrow> Inl e
           | Inr street \<Rightarrow>
               let p = js_prop location ''position'';
                   locationName =
                     (if \<not> truthy name
                      then js_toString nts street @ '', '' @ js_toString nts (js_prop p ''postalCode'')
                             @ '' '' @ js_toString nts (js_prop p ''city'')
                      else js_toString nts name @ '', '' @ js_toString nts street)
               in (case js_lastSegment (js_prop location ''chargeLocation'') of
                     Inl e \<Rightarrow> Inl e
                   | Inr locationId \<Rightarrow>
                       Inr \<lparr>cl_id = js_toString nts locationId,
                            cl_name = locationName,
                            cl_location = location\<rparr>)))"

fun locationEntries ::
  "(real \<Rightarrow> string) \<Rightarrow> json list \<Rightarrow> (string \<times> chargeLocation) list
     \<Rightarrow> exn + (string \<times> chargeLocation) list" where
  "locationEntries nts [] acc = Inr acc"
| "locationEntries nts (location # rest) acc =
     (case locationEntry nts location of
        Inl e \<Rightarrow> Inl e
      | Inr entry \<Rightarrow> locationEntries nts rest (obj_put (cl_id entry) entry acc))"

definition updateChargeLocations :: "car \<Rightarrow> json \<Rightarrow> world \<Rightarrow> unit outcome" where
  "updateChargeLocations c locations w =
     (let built =
        (case locations of
           JArr xs \<Rightarrow> locationEntries (numberToString w) xs []
         | JStr s \<Rightarrow> if s \<noteq> [] then Inl TypeError else Inr []
         | JObj kvs \<Rightarrow>
             (case js_prop locations ''length'' of
                JNum r \<Rightarrow> if r > 0 then Inl TypeError else Inr []
              | _ \<Rightarrow> Inr [])
         | _ \<Rightarrow> Inr [])
      in case built of
           Inl e \<Rightarrow> (Inl e, c, w)
         | Inr m \<Rightarrow> (Inr (), c\<lparr>chargeLocations := m\<rparr>, debug ''Updating charge locations'' w))"

text \<open>
  \<open>getVehicleChargeLocations\<close>: guarded by the charging capability. The vehicle's own
  listener for \<open>charge_locations_updated\<close> is \<open>updateDistances\<close> (\<open>registerListeners\<close>); what
  a promise callback throws is caught and logged.
\<close>

definition getVehicleChargeLocations :: "car \<Rightarrow> world \<Rightarrow> unit outcome" where
  "getVehicleChargeLocations c w =
     (case isChargingSupported c of
        Inl e \<Rightarrow> (Inl e, c, w)
      | Inr supported \<Rightarrow>
          if \<not> truthy supported
          then (Inr (), c, debug ''Charging not supported. Not updating charge locations'' w)
          else
            (case VOC_getVehicleChargeLocations (vehicleId c) (debug ''Getting charge locations'' w) of
               (Inl err, w1) \<Rightarrow> (Inr (), c, error ''charge locations update failed'' w1)
             | (Inr locations, w1) \<Rightarrow>
                 (case updateChargeLocations c locations w1 of
                    (Inl e, c1, w2) \<Rightarrow> (Inr (), c1, error ''charge locations update failed'' w2)
                  | (Inr u, c1, w2) \<Rightarrow>
                      (case updateDistances c1 (emit c1 ''charge_locations_updated'' w2) of
                         (Inl e, c2, w3) \<Rightarrow>
                           (Inr (), c2, error ''charge locations update failed'' w3)
                       | (Inr u, c2, w3) \<Rightarrow> (Inr (), c2, w3)))))"

text \<open>
  \<open>getVehiclePosition\<close>: fetches the position whatever the capabilities are. The vehicle's
  own listener for \<open>position_updated\<close> is \<open>updateDistances\<close>.
\<close>

definition getVehiclePosition :: "car \<Rightarrow> world \<Rightarrow> car \<times> world" where
  "getVehiclePosition c w =
     (case VOC_getVehiclePosition (vehicleId c) w of
        (Inl err, w1) \<Rightarrow> (c, error ''positions failed'' w1)
      | (Inr p, w1) \<Rightarrow>
          let c1 = c\<lparr>position := p\<rparr>;
              w2 = debug ''Vehicle position'' w1
          in (case updateDistances c1 (emit c1 ''position_updated'' w2) of
                (Inl e, c2, w3) \<Rightarrow> (c2, error ''positions failed'' w3)
              | (Inr u, c2, w3) \<Rightarrow> (c2, w3)))"

definition getVehicleStatusFromCloud :: "car \<Rightarrow> world \<Rightarrow> car \<times> world" where
  "getVehicleStatusFromCloud c w =
     (case VOC_getVehicleStatusFromCloud (vehicleId c) w of
        (Inl err, w1) \<Rightarrow> (c, error ''status from cloud failed'' w1)
      | (Inr data, w1) \<Rightarrow>
          let c1 = c\<lparr>status := data\<rparr>
          in (c1, emit c1 ''status_updated'' (debug ''Vehicle status from cloud'' w1)))"

definition refreshVehicleStatusFromCar :: "car \<Rightarrow> world \<Rightarrow> car \<times> world" where
  "refreshVehicleStatusFromCar c w =
     (case VOC_refreshVehicleStatusFromCar (vehicleId c) w of
        (Inl err, w1) \<Rightarrow> (c, error ''status from car failed'' w1)
      | (Inr success, w1) \<Rightarrow>
          let w2 = debug ''Vehicle status from car'' w1
          in if success then getVehicleStatusFromCloud c w2 else (c, w2))"

text \<open>
  The vehicle's own listener for \<open>attributes_updated\<close> (\<open>registerListeners\<close>): both
  fetches are behind their capability check.
\<close>

definition on_attributes_updated :: "car \<Rightarrow> world \<Rightarrow> unit outcome" where
  "on_attributes_updated c w =
     (case isChargingSupported c of
        Inl e \<Rightarrow> (Inl e, c, w)
      | Inr charging \<Rightarrow>
          (case (if truthy charging then getVehicleChargeLocations c w else (Inr (), c, w)) of
             (Inl e, c1, w1) \<Rightarrow> (Inl e, c1, w1)
           | (Inr u, c1, w1) \<Rightarrow>
               (case isPositionSupported c1 of
                  Inl e \<Rightarrow> (Inl e, c1, w1)
                | Inr locator \<Rightarrow>
                    if truthy locator
                    then (let (c2, w2) = getVehiclePosition c1 w1 in (Inr (), c2, w2))
                    else (Inr (), c1, w1))))"

definition getVehicleAttributes :: "car \<Rightarrow> world \<Rightarrow> car \<times> world" where
  "getVehicleAttributes c w =
     (case VOC_getVehicleAttributes (vehicleId c) w of
        (Inl err, w1) \<Rightarrow> (c, error ''update attributes failed'' w1)
      | (Inr data, w1) \<Rightarrow>
          let c1 = c\<lparr>attributes := data\<rparr>;
              w2 = debug ''Vehicle attributes'' w1
          in (case on_attributes_updated c1 (emit c1 ''attributes_updated'' w2) of
                (Inl e, c2, w3) \<Rightarrow> (c2, error ''update attributes failed'' w3)
              | (Inr u, c2, w3) \<Rightarrow> (c2, w3)))"

text \<open>
  The action methods other than \<open>delayCharging\<close> have one shape: when the promise of the
  cloud client resolves, emit the completion event and call \<open>refreshVehicleStatusFromCar\<close>;
  when it is rejected, log.
\<close>

definition carAction ::
  "(string \<Rightarrow> world \<Rightarrow> (exn + bool) \<times> world) \<Rightarrow> string \<Rightarrow> string \<Rightarrow> string \<Rightarrow> car \<Rightarrow> world
     \<Rightarrow> car \<times> world" where
  "carAction call result completed failed c w =
     (case call (vehicleId c) w of
        (Inl err, w1) \<Rightarrow> (c, error failed w1)
      | (Inr res, w1) \<Rightarrow>
          refreshVehicleStatusFromCar c (emit c completed (debug result w1)))"

definition startCharging :: "car \<Rightarrow> world \<Rightarrow> car \<times> world" where
  "startCharging =
     carAction VOC_startCharging ''Start charging result'' ''start_charging_complete''
       ''Start charging failed''"

definition lock :: "car \<Rightarrow> world \<Rightarrow> car \<times> world" where
  "lock = carAction VOC_lock ''Lock result'' ''lock_complete'' ''Lock failed''"

definition unlock :: "car \<Rightarrow> world \<Rightarrow> car \<times> world" where
  "unlock = carAction VOC_unlock ''Unlock result'' ''unlock_complete'' ''Unlock failed''"

definition startHeater :: "car \<Rightarrow> world \<Rightarrow> car \<times> world" where
  "startHeater =
     carAction VOC_startHeater ''Start heater result'' ''start_heater_complete''
       ''Start heater failed''"

definition stopHeater :: "car \<Rightarrow> world \<Rightarrow> car \<times> world" where
  "stopHeater =
     carAction VOC_stopHeater ''Stop heater result'' ''stop_heater_complete''
       ''Stop heater failed''"

definition startPreclimatization :: "car \<Rightarrow> world \<Rightarrow> car \<times> world" where
  "startPreclimatization =
     carAction VOC_startPreClimatization ''Start preclimatization result''
       ''start_preclimatization_complete'' ''Start preclimatization failed''"

definition stopPreclimatization :: "car \<Rightarrow> world \<Rightarrow> car \<times> world" where
  "stopPreclimatization =
     carAction VOC_stopPreClimatization ''Stop preclimatization result''
       ''stop_preclimatization_complete'' ''Stop preclimatization failed''"

text \<open>
  \<open>delayCharging(id, delayedCharging, startTime, stopTime)\<close>: the payload of the PUT, and
  \<open>getVehicleStatusFromCloud\<close> when the promise resolves.
\<close>

definition delayChargingPayload :: "json \<Rightarrow> json \<Rightarrow> json \<Rightarrow> json" where
  "delayChargingPayload delayedCharging startTime stopTime =
     JObj [(''status'', JStr ''Accepted''),
           (''delayCharging'',
            JObj [(''enabled'', delayedCharging),
                  (''startTime'', startTime),
                  (''stopTime'', stopTime)])]"

definition delayCharging :: "car \<Rightarrow> json \<Rightarrow> json \<Rightarrow> json \<Rightarrow> json \<Rightarrow> world \<Rightarrow> car \<times> world" where
  "delayCharging c locId delayedCharging startTime stopTime w =
     (let payload = delayChargingPayload delayedCharging startTime stopTime in
      case VOC_delayCharging (vehicleId c) locId payload (debug ''delay charging at'' w) of
        (Inl err, w1) \<Rightarrow> (c, error ''delay charging failed'' w1)
      | (Inr res, w1) \<Rightarrow>
          getVehicleStatusFromCloud c
            (emit c ''delay_charging_complete''
               (debug ''Delay charging result'' (debug ''Delay charging complete'' w1))))"

text \<open>
  The constructor, as far as it runs before it returns: a vehicle with empty caches, and the
  two requests that \<open>getVehicleStatusFromCloud()\<close> and \<open>getVehicleAttributes()\<close> issue. Their
  answers arrive after the constructor has returned.
\<close>

record vehicle =
  v_name :: string
  v_id :: string

definition VocCar :: "vehicle \<Rightarrow> nat \<Rightarrow> world \<Rightarrow> car \<times> world" where
  "VocCar v fresh w =
     (\<lparr>oid = fresh,
       vehicleId = v_id v,
       vehicleName = v_name v,
       chargeLocations = [],
       attributes = JObj [],
       status = JObj [],
       distances = [],
       position = JObj [],
       appListeners = 0\<rparr>,
      issue (GET (vehicle_attributes (v_id v))) (issue (GET (vehicle_status (v_id v))) w))"

section \<open>app.js: the fleet\<close>

text \<open>
  Source: \<open>src/unnamed/part_000\<close>, the current revision of \<open>app.js\<close>. The earlier revision
  \<open>src/app.js\<close> has the same \<open>updateVehicles\<close>, \<open>vehicles_updated\<close> listener and command
  handlers, without the \<open>lock\<close> and \<open>heater\<close> commands and their topics.
\<close>

text \<open>
  The application object: the fleet map \<open>cars\<close> (vehicle id to vehicle object, in
  enumeration order), the ids already announced to Home Assistant, the configured status
  topic, and the next unused object identity.
\<close>

record app =
  cars :: "(string \<times> car) list"
  haDiscovered :: "string list"
  hassTopic :: string
  nextOid :: nat

type_synonym 'a app_outcome = "(exn + 'a) \<times> app \<times> world"

definition logInfo :: "string \<Rightarrow> world \<Rightarrow> world" where
  "logInfo msg w = effect (Log ''app:info'' msg) w"

definition logError :: "string \<Rightarrow> world \<Rightarrow> world" where
  "logError msg w = effect (Log ''app:error'' msg) w"

definition logDebug :: "string \<Rightarrow> world \<Rightarrow> world" where
  "logDebug msg w = effect (Log ''app:debug'' msg) w"

definition mqtt_subscribe :: "string \<Rightarrow> world \<Rightarrow> world" where
  "mqtt_subscribe topic w = (effect (Subscribe topic) w)\<lparr>subscriptions := insert topic (subscriptions w)\<rparr>"

definition mqtt_unsubscribe :: "string \<Rightarrow> world \<Rightarrow> world" where
  "mqtt_unsubscribe topic w = (effect (Unsubscribe topic) w)\<lparr>subscriptions := subscriptions w - {topic}\<rparr>"

definition mqtt_publish :: "string \<Rightarrow> json \<Rightarrow> world \<Rightarrow> world" where
  "mqtt_publish topic payload w = effect (Publish topic payload) w"

text \<open>The four command topics of a vehicle.\<close>

definition actionTopics :: "string \<Rightarrow> string list" where
  "actionTopics vid =
     [''volvooncall/'' @ vid @ ''/startCharging'',
      ''volvooncall/'' @ vid @ ''/delayCharging'',
      ''volvooncall/'' @ vid @ ''/lock'',
      ''volvooncall/'' @ vid @ ''/heater'']"

definition unsubscribeForActions :: "car list \<Rightarrow> world \<Rightarrow> world" where
  "unsubscribeForActions removed w =
     foldl (\<lambda>w' topic. mqtt_unsubscribe topic w') w (concat (map (\<lambda>c. actionTopics (vehicleId c)) removed))"

definition subscribeForActions :: "app \<Rightarrow> world \<Rightarrow> world" where
  "subscribeForActions a w =
     foldl (\<lambda>w' topic. mqtt_subscribe topic w') w (concat (map actionTopics (map fst (cars a))))"

text \<open>The four publications of a vehicle's cached facets.\<close>

definition publishAttributes :: "car \<Rightarrow> world \<Rightarrow> world" where
  "publishAttributes c w =
     mqtt_publish (''volvooncall/'' @ vehicleId c @ ''/attributes'') (attributes c)
       (logInfo ''publish attributes'' w)"

definition publishStatus :: "car \<Rightarrow> world \<Rightarrow> world" where
  "publishStatus c w =
     mqtt_publish (''volvooncall/'' @ vehicleId c @ ''/status'') (status c)
       (logInfo ''publish status'' w)"

definition chargeLocation_json :: "chargeLocation \<Rightarrow> json" where
  "chargeLocation_json loc =
     JObj [(''id'', JStr (cl_id loc)), (''name'', JStr (cl_name loc)), (''location'', cl_location loc)]"

definition publishChargeLocations :: "car \<Rightarrow> world \<Rightarrow> world" where
  "publishChargeLocations c w =
     foldl (\<lambda>w' (k, loc).
              mqtt_publish (''volvooncall/'' @ vehicleId c @ ''/charge_locations/'' @ k)
                (chargeLocation_json loc) (logInfo ''publish charge location'' w'))
       (logInfo ''publish charge locations'' w) (chargeLocations c)"

definition publishPosition :: "car \<Rightarrow> world \<Rightarrow> world" where
  "publishPosition c w =
     mqtt_publish (''volvooncall/'' @ vehicleId c @ ''/position'') (position c)
       (logInfo ''publish position'' w)"

definition publishAll :: "car \<Rightarrow> world \<Rightarrow> world" where
  "publishAll c w = publishPosition c (publishChargeLocations c (publishStatus c (publishAttributes c w)))"

text \<open>
  \<open>listenForChanges\<close>: every vehicle of the fleet map gets the four listeners of the
  application and is published once.
\<close>

definition listenForChanges :: "app \<Rightarrow> world \<Rightarrow> app \<times> world" where
  "listenForChanges a w =
     (a\<lparr>cars := map (\<lambda>(k, c). (k, c\<lparr>appListeners := appListeners c + 1\<rparr>)) (cars a)\<rparr>,
      foldl (\<lambda>w' (k, c). publishAll (c\<lparr>appListeners := appListeners c + 1\<rparr>) w') w (cars a))"

definition republishVehicles :: "app \<Rightarrow> world \<Rightarrow> world" where
  "republishVehicles a w = foldl (\<lambda>w' (k, c). publishAll c w') w (cars a)"

text \<open>
  The listener of \<open>vehicles_updated\<close>. It starts with
  \<open>removedCars.forEach(car => car.removeEventListeners())\<close>. No revision of \<open>VocCar\<close>
  defines a method of that name, nor does the \<open>EventEmitter\<close> of Node that it extends (whose
  methods are \<open>removeListener\<close>, \<open>off\<close> and \<open>removeAllListeners\<close>), so the call throws a
  TypeError for the first removed vehicle and the rest of the listener does not run.
\<close>

definition on_vehicles_updated :: "car list \<Rightarrow> app \<Rightarrow> world \<Rightarrow> unit app_outcome" where
  "on_vehicles_updated removedCars a w =
     (if removedCars \<noteq> [] then (Inl TypeError, a, w)
      else
        let w1 = unsubscribeForActions removedCars w;
            w2 = subscribeForActions a w1;
            (a1, w3) = listenForChanges a w2
        in (Inr (), a1, w3))"

text \<open>
  \<open>updateVehicles\<close>: a new \<open>VocCar\<close> for every vehicle of the listing, the previous
  vehicles whose id is not listed, the new fleet map, and the \<open>vehicles_updated\<close> event.
\<close>

fun construct ::
  "vehicle list \<Rightarrow> (string \<times> car) list \<Rightarrow> nat \<Rightarrow> world \<Rightarrow> (string \<times> car) list \<times> nat \<times> world" where
  "construct [] built fresh w = (built, fresh, w)"
| "construct (v # vs) built fresh w =
     (let (c, w1) = VocCar v fresh (logDebug ''Found vehicle'' w)
      in construct vs (obj_put (v_id v) c built) (fresh + 1) w1)"

definition updateVehicles :: "vehicle list \<Rightarrow> app \<Rightarrow> world \<Rightarrow> unit app_outcome" where
  "updateVehicles vehicles a w =
     (let (built, fresh, w1) = construct vehicles [] (nextOid a) w;
          removedCarIds = filter (\<lambda>x. x \<notin> set (map fst built)) (map fst (cars a));
          removedCars = List.map_filter (map_of (cars a)) removedCarIds
      in on_vehicles_updated removedCars (a\<lparr>cars := built, nextOid := fresh\<rparr>) w1)"

text \<open>
  The command handlers. \<open>self.cars[id]\<close> is \<open>undefined\<close> for an id that is not in the fleet
  map, and calling a method of \<open>undefined\<close> throws.
\<close>

definition withCar :: "string \<Rightarrow> (car \<Rightarrow> world \<Rightarrow> car \<times> world) \<Rightarrow> app \<Rightarrow> world \<Rightarrow> unit app_outcome" where
  "withCar carId method a w =
     (case map_of (cars a) carId of
        None \<Rightarrow> (Inl TypeError, a, w)
      | Some c \<Rightarrow>
          let (c1, w1) = method c w in (Inr (), a\<lparr>cars := obj_put carId c1 (cars a)\<rparr>, w1))"

definition App_startCharging :: "string \<Rightarrow> string \<Rightarrow> app \<Rightarrow> world \<Rightarrow> unit app_outcome" where
  "App_startCharging carId payload a w = withCar carId startCharging a (logInfo ''Start charging'' w)"

definition App_delayCharging :: "string \<Rightarrow> string \<Rightarrow> app \<Rightarrow> world \<Rightarrow> unit app_outcome" where
  "App_delayCharging carId payload a w =
     (let w1 = logInfo ''Delay charging'' w in
      case JSON_parse w1 payload of
        None \<Rightarrow> (Inl SyntaxError, a, w1)
      | Some params \<Rightarrow>
          (case map_of (cars a) carId of
             None \<Rightarrow> (Inl TypeError, a, w1)
           | Some c \<Rightarrow>
               (case js_get params ''chargeLocation'' of
                  Inl e \<Rightarrow> (Inl e, a, w1)
                | Inr chargeLocation \<Rightarrow>
                    withCar carId
                      (\<lambda>c. delayCharging c chargeLocation
                              (js_or (js_prop params ''delayedCharging'') (JBool True))
                              (js_prop params ''startTime'')
                              (js_prop params ''stopTime''))
                      a w1)))"

definition setLockState :: "string \<Rightarrow> string \<Rightarrow> app \<Rightarrow> world \<Rightarrow> unit app_outcome" where
  "setLockState carId payload a w =
     (let w1 = logInfo ''Set lock state'' w in
      if payload = ''UNLOCK'' then withCar carId unlock a w1
      else if payload = ''LOCK'' then withCar carId lock a w1
      else (Inr (), a, logError ''Unrecognized lock state'' w1))"

text \<open>
  \<open>setHeaterState\<close>: the remote heater when the vehicle supports it, else the
  preclimatization when it supports that, else nothing.
\<close>

definition heaterCommand ::
  "(car \<Rightarrow> world \<Rightarrow> car \<times> world) \<Rightarrow> (car \<Rightarrow> world \<Rightarrow> car \<times> world) \<Rightarrow> string \<Rightarrow> app \<Rightarrow> world
     \<Rightarrow> unit app_outcome" where
  "heaterCommand heater preclimatization carId a w =
     (case map_of (cars a) carId of
        None \<Rightarrow> (Inl TypeError, a, w)
      | Some c \<Rightarrow>
          (case isRemoteHeaterSupported c of
             Inl e \<Rightarrow> (Inl e, a, w)
           | Inr h \<Rightarrow>
               if truthy h then withCar carId heater a w
               else
                 (case isPreClimatizationSupported c of
                    Inl e \<Rightarrow> (Inl e, a, w)
                  | Inr p \<Rightarrow>
                      if truthy p then withCar carId preclimatization a w else (Inr (), a, w))))"

definition setHeaterState :: "string \<Rightarrow> string \<Rightarrow> app \<Rightarrow> world \<Rightarrow> unit app_outcome" where
  "setHeaterState carId payload a w =
     (let w1 = logInfo ''Set heater state'' w in
      if payload = ''ON'' then heaterCommand startHeater startPreclimatization carId a w1
      else if payload = ''OFF'' then heaterCommand stopHeater stopPreclimatization carId a w1
      else (Inr (), a, logError ''Unrecognized heater state'' w1))"

text \<open>
  \<open>topic.split("/")\<close>, and the destructuring \<open>[ignore, carId, command]\<close>: a missing element
  is \<open>undefined\<close>, which as a key of the fleet map reads \<open>"undefined"\<close>.
\<close>

fun split_from :: "char \<Rightarrow> string \<Rightarrow> string \<Rightarrow> string list" where
  "split_from sep [] cur = [rev cur]"
| "split_from sep (x # xs) cur =
     (if x = sep then rev cur # split_from sep xs [] else split_from sep xs (x # cur))"

definition split :: "string \<Rightarrow> char \<Rightarrow> string list" where
  "split s sep = split_from sep s []"

definition element :: "string list \<Rightarrow> nat \<Rightarrow> string option" where
  "element xs i = (if i < length xs then Some (xs ! i) else None)"

definition key_of :: "string option \<Rightarrow> string" where
  "key_of k = (case k of None \<Rightarrow> ''undefined'' | Some s \<Rightarrow> s)"

definition handleMessage :: "string \<Rightarrow> string \<Rightarrow> app \<Rightarrow> world \<Rightarrow> unit app_outcome" where
  "handleMessage topic payload a w =
     (if topic = hassTopic a
      then (let a1 = a\<lparr>haDiscovered := []\<rparr>
            in (Inr (), a1, republishVehicles a1 (logInfo ''HA reloaded'' w)))
      else
        let parts = split topic (CHR ''/'');
            carId = key_of (element parts 1);
            command = element parts 2
        in if command = Some ''startCharging'' then App_startCharging carId payload a w
           else if command = Some ''delayCharging'' then App_delayCharging carId payload a w
           else if command = Some ''lock'' then setLockState carId payload a w
           else if command = Some ''heater'' then setHeaterState carId payload a w
           else (Inr (), a, logError ''Unrecognized command'' w))"

text \<open>
  The position poller of \<open>startPollers\<close>, one tick: every vehicle of the fleet map whose
  \<open>isPositionSupported()\<close> is truthy fetches its position.
\<close>

fun pollPositions :: "string list \<Rightarrow> app \<Rightarrow> world \<Rightarrow> unit app_outcome" where
  "pollPositions [] a w = (Inr (), a, w)"
| "pollPositions (k # ks) a w =
     (case map_of (cars a) k of
        None \<Rightarrow> (Inl TypeError, a, w)
      | Some c \<Rightarrow>
          (case isPositionSupported c of
             Inl e \<Rightarrow> (Inl e, a, w)
           | Inr locator \<Rightarrow>
               if truthy locator
               then (case withCar k getVehiclePosition a w of
                       (Inl e, a1, w1) \<Rightarrow> (Inl e, a1, w1)
                     | (Inr u, a1, w1) \<Rightarrow> pollPositions ks a1 w1)
               else pollPositions ks a w))"

definition positionPoller :: "app \<Rightarrow> world \<Rightarrow> unit app_outcome" where
  "positionPoller a w = pollPositions (map fst (cars a)) a w"

section \<open>Observations used by the properties\<close>

text \<open>
  What the \<open>j\<close>-th poll of a polling loop that starts in world \<open>w\<close> resolves with: the
  \<open>status\<close> of the answer to request \<open>nreq w + j\<close>, or \<open>None\<close> when that poll is rejected.
\<close>

definition pollAnswer :: "world \<Rightarrow> nat \<Rightarrow> json option" where
  "pollAnswer w j =
     (case cloud w (nreq w + j) of
        Inl reason \<Rightarrow> None
      | Inr data \<Rightarrow> if truthy data then Some (js_prop data ''status'') else None)"

text \<open>A poll answer that keeps the loop polling.\<close>

definition pending :: "json option \<Rightarrow> bool" where
  "pending r = (case r of None \<Rightarrow> False | Some s \<Rightarrow> s \<noteq> JStr ''Successful'' \<and> s \<noteq> JStr ''Failed'')"

text \<open>
  \<open>polled vid sid n k w w'\<close>: from \<open>w\<close> to \<open>w'\<close> exactly \<open>k\<close> requests were issued, each
  a poll of service \<open>sid\<close> of vehicle \<open>vid\<close>, and exactly \<open>k\<close> timers were awaited, each of
  \<open>n\<close> milliseconds.
\<close>

definition polled :: "string \<Rightarrow> json \<Rightarrow> nat \<Rightarrow> nat \<Rightarrow> world \<Rightarrow> world \<Rightarrow> bool" where
  "polled vid sid n k w w' =
     (nreq w' = nreq w + k \<and> cloud w' = cloud w \<and>
      requests_of (trace w') = requests_of (trace w) @ replicate k (GET (vehicle_services vid sid)) \<and>
      sleeps_of (trace w') = sleeps_of (trace w) @ replicate k n)"

text \<open>
  Service invocations one after the other, none started before the previous one has settled:
  the results in order, and the world after the last.
\<close>

fun invocations :: "(string \<times> json) list \<Rightarrow> world \<Rightarrow> (exn + bool) list \<times> world" where
  "invocations [] w = ([], w)"
| "invocations ((vid, sid) # rest) w =
     (let (r, w1) = awaitSuccessfulServiceInvocation vid sid w;
          (rs, w2) = invocations rest w1
      in (r # rs, w2))"

text \<open>
  A world for concrete runs: the cloud answers the first requests from a list and every
  later request with \<open>rest\<close>; nothing has happened yet, and the flag is as the constructor of
  \<open>VOC\<close> leaves it.
\<close>

definition scripted :: "(exn + json) list \<Rightarrow> (exn + json) \<Rightarrow> (string \<Rightarrow> json option) \<Rightarrow> world" where
  "scripted answers rest parse =
     \<lparr>cloud = (\<lambda>k. if k < length answers then answers ! k else rest),
      nreq = 0,
      trace = [],
      subscriptions = {},
      serviceInvocationSuccess = False,
      JSON_parse = parse,
      numberToString = (\<lambda>r. [])\<rparr>"

definition statusAnswer :: "string \<Rightarrow> exn + json" where
  "statusAnswer s = Inr (JObj [(''status'', JStr s)])"

text \<open>A vehicle object for concrete runs: nothing cached but the given attributes.\<close>

definition someCar :: "string \<Rightarrow> json \<Rightarrow> car" where
  "someCar vid attrs =
     \<lparr>oid = 0,
      vehicleId = vid,
      vehicleName = [],
      chargeLocations = [],
      attributes = attrs,
      status = JObj [],
      distances = [],
      position = JObj [],
      appListeners = 0\<rparr>"

text \<open>An application state for concrete runs: the given vehicles under their ids.\<close>

definition fleet :: "car list \<Rightarrow> app" where
  "fleet cs =
     \<lparr>cars = map (\<lambda>c. (vehicleId c, c)) cs,
      haDiscovered = [],
      hassTopic = ''homeassistant/status'',
      nextOid = length cs\<rparr>"

text \<open>
  A cached charge location whose cloud payload has a \<open>position\<close> object, as every entry
  has that \<open>updateChargeLocations\<close> builds (it reads \<open>location.position.streetAddress\<close>).
\<close>

definition located :: "chargeLocation \<Rightarrow> bool" where
  "located loc =
     (cl_location loc \<noteq> JUndefined \<and> cl_location loc \<noteq> JNull \<and>
      js_prop (cl_location loc) ''position'' \<noteq> JUndefined \<and>
      js_prop (cl_location loc) ''position'' \<noteq> JNull)"

text \<open>The cached position has a truthy latitude and a truthy longitude.\<close>

definition validPosition :: "car \<Rightarrow> bool" where
  "validPosition c =
     (truthy (js_prop (position c) ''latitude'') \<and> truthy (js_prop (position c) ''longitude''))"

text \<open>
  The fleet map holds every vehicle under its own id, as \<open>updateVehicles\<close> builds it
  (\<open>cars[vehicle.data.id] = new VocCar(vehicle, ...)\<close>).
\<close>

definition keyedById :: "app \<Rightarrow> bool" where
  "keyedById a = list_all (\<lambda>(k, c). vehicleId c = k) (cars a)"

text \<open>
  An entry of the fleet map that holds a vehicle object as its constructor leaves it: under
  its own id, with an identity allocated in \<open>[lo, hi)\<close> and with nothing cached.
\<close>

definition freshVehicle :: "nat \<Rightarrow> nat \<Rightarrow> string \<times> car \<Rightarrow> bool" where
  "freshVehicle lo hi kc =
     (case kc of (k, c) \<Rightarrow>
        vehicleId c = k \<and> lo \<le> oid c \<and> oid c < hi \<and>
        attributes c = JObj [] \<and> status c = JObj [] \<and> chargeLocations c = [] \<and>
        position c = JObj [] \<and> distances c = [])"

text \<open>The two requests that the constructor of a vehicle issues.\<close>

definition initialFetches :: "vehicle \<Rightarrow> request list" where
  "initialFetches v = [GET (vehicle_status (v_id v)), GET (vehicle_attributes (v_id v))]"

section \<open>The polling loop\<close>

lemma requests_of_append [simp]: "requests_of (xs @ ys) = requests_of xs @ requests_of ys"
  by (induction xs rule: requests_of.induct) auto

lemma sleeps_of_append [simp]: "sleeps_of (xs @ ys) = sleeps_of xs @ sleeps_of ys"
  by (induction xs rule: sleeps_of.induct) auto

lemma polled_refl: "polled vid sid n 0 w w"
  by (simp add: polled_def)

lemma polled_trans:
  "polled vid sid n j w w1 \<Longrightarrow> polled vid sid n k w1 w2 \<Longrightarrow> polled vid sid n (j + k) w w2"
  by (simp add: polled_def replicate_add)

lemma poll_frame:
  assumes "getServiceInvocationStatus vid sid (effect (Sleep n) w) = (r, w1)"
  shows "polled vid sid n 1 w w1 \<and> serviceInvocationSuccess w1 = serviceInvocationSuccess w \<and>
         subscriptions w1 = subscriptions w"
  using assms
  by (auto simp: getServiceInvocationStatus_def getVOCCommand_def http_def issue_def effect_def
      polled_def Let_def split: sum.splits if_splits)

lemma poll_answer:
  assumes "pollAnswer w 0 = Some s"
  shows "fst (getServiceInvocationStatus vid sid (effect (Sleep n) w)) = Inr s"
  using assms
  by (auto simp: getServiceInvocationStatus_def getVOCCommand_def http_def issue_def effect_def
      pollAnswer_def Let_def split: sum.splits if_splits)

lemma poll_rejected:
  assumes "pollAnswer w 0 = None"
  shows "\<exists>e. fst (getServiceInvocationStatus vid sid (effect (Sleep n) w)) = Inl e"
  using assms
  by (auto simp: getServiceInvocationStatus_def getVOCCommand_def http_def issue_def effect_def
      pollAnswer_def Let_def split: sum.splits if_splits)

lemma pollAnswer_shift:
  "polled vid sid n j w w1 \<Longrightarrow> pollAnswer w1 i = pollAnswer w (j + i)"
  by (simp add: polled_def pollAnswer_def add.assoc)

lemma runFor_loop_done:
  "counter \<le> 15 \<Longrightarrow> runFor_loop func n True counter w = (Inr (), w)"
  by (subst runFor_loop.simps) simp

lemma runFor_loop_exhausted:
  "runFor_loop func n d 15 w = (Inr (), w)"
  by (subst runFor_loop.simps) simp

lemma runFor_loop_step_pending:
  assumes "pending (pollAnswer w 0)" and "counter < 15"
  shows "\<exists>w1. runFor_loop (getServiceInvocationStatus vid sid) n False counter w =
               runFor_loop (getServiceInvocationStatus vid sid) n False (counter + 1) w1 \<and>
              polled vid sid n 1 w w1 \<and>
              serviceInvocationSuccess w1 = serviceInvocationSuccess w"
proof -
  obtain s where s: "pollAnswer w 0 = Some s" "s \<noteq> JStr ''Successful''" "s \<noteq> JStr ''Failed''"
    using assms(1) by (auto simp: pending_def split: option.splits)
  obtain r w1 where eq: "getServiceInvocationStatus vid sid (effect (Sleep n) w) = (r, w1)"
    by fastforce
  have r: "r = Inr s" using poll_answer [OF s(1), of vid sid n] eq by simp
  have "runFor_loop (getServiceInvocationStatus vid sid) n False counter w =
        runFor_loop (getServiceInvocationStatus vid sid) n False (counter + 1) w1"
    by (subst runFor_loop.simps) (simp add: eq r s assms(2))
  then show ?thesis using poll_frame [OF eq] by blast
qed

lemma runFor_loop_pending:
  assumes "\<forall>j<k. pending (pollAnswer w j)" and "counter + k \<le> 15"
  shows "\<exists>w1. runFor_loop (getServiceInvocationStatus vid sid) n False counter w =
               runFor_loop (getServiceInvocationStatus vid sid) n False (counter + k) w1 \<and>
              polled vid sid n k w w1 \<and>
              serviceInvocationSuccess w1 = serviceInvocationSuccess w"
  using assms
proof (induction k arbitrary: counter w)
  case 0
  then show ?case using polled_refl by auto
next
  case (Suc k)
  have "pending (pollAnswer w 0)" using Suc.prems(1) by simp
  moreover have "counter < 15" using Suc.prems(2) by simp
  ultimately obtain w1 where
    step: "runFor_loop (getServiceInvocationStatus vid sid) n False counter w =
           runFor_loop (getServiceInvocationStatus vid sid) n False (counter + 1) w1"
    and p1: "polled vid sid n 1 w w1"
    and f1: "serviceInvocationSuccess w1 = serviceInvocationSuccess w"
    using runFor_loop_step_pending by blast
  have "\<forall>j<k. pending (pollAnswer w1 j)"
    using Suc.prems(1) pollAnswer_shift [OF p1] by simp
  moreover have "(counter + 1) + k \<le> 15" using Suc.prems(2) by simp
  ultimately obtain w2 where
    rest: "runFor_loop (getServiceInvocationStatus vid sid) n False (counter + 1) w1 =
           runFor_loop (getServiceInvocationStatus vid sid) n False (counter + 1 + k) w2"
    and p2: "polled vid sid n k w1 w2"
    and f2: "serviceInvocationSuccess w2 = serviceInvocationSuccess w1"
    using Suc.IH by blast
  have "polled vid sid n (Suc k) w w2" using polled_trans [OF p1 p2] by simp
  then show ?case using step rest f1 f2 by (auto simp: add.commute add.left_commute)
qed

lemma runFor_loop_successful:
  assumes "pollAnswer w 0 = Some (JStr ''Successful'')" and "counter < 15"
  shows "\<exists>w1. runFor_loop (getServiceInvocationStatus vid sid) n False counter w = (Inr (), w1) \<and>
              polled vid sid n 1 w w1 \<and> serviceInvocationSuccess w1"
proof -
  obtain r w1 where eq: "getServiceInvocationStatus vid sid (effect (Sleep n) w) = (r, w1)"
    by fastforce
  have r: "r = Inr (JStr ''Successful'')" using poll_answer [OF assms(1), of vid sid n] eq by simp
  have "runFor_loop (getServiceInvocationStatus vid sid) n False counter w =
        (Inr (), w1\<lparr>serviceInvocationSuccess := True\<rparr>)"
    using assms(2) by (subst runFor_loop.simps) (simp add: eq r runFor_loop_done)
  moreover have "polled vid sid n 1 w (w1\<lparr>serviceInvocationSuccess := True\<rparr>)"
    using poll_frame [OF eq] by (simp add: polled_def)
  ultimately show ?thesis by auto
qed

lemma runFor_loop_failed:
  assumes "pollAnswer w 0 = Some (JStr ''Failed'')" and "counter < 15"
  shows "\<exists>w1. runFor_loop (getServiceInvocationStatus vid sid) n False counter w = (Inr (), w1) \<and>
              polled vid sid n 1 w w1 \<and>
              serviceInvocationSuccess w1 = serviceInvocationSuccess w"
proof -
  obtain r w1 where eq: "getServiceInvocationStatus vid sid (effect (Sleep n) w) = (r, w1)"
    by fastforce
  have r: "r = Inr (JStr ''Failed'')" using poll_answer [OF assms(1), of vid sid n] eq by simp
  have "runFor_loop (getServiceInvocationStatus vid sid) n False counter w =
        (Inr (), effect (Log ''console.error'' ''Service invocation failed!'') w1)"
    using assms(2) by (subst runFor_loop.simps) (simp add: eq r runFor_loop_done)
  moreover have "polled vid sid n 1 w (effect (Log ''console.error'' ''Service invocation failed!'') w1)"
    using poll_frame [OF eq] by (simp add: polled_def effect_def)
  moreover have "serviceInvocationSuccess (effect (Log ''console.error'' ''Service invocation failed!'') w1)
                 = serviceInvocationSuccess w"
    using poll_frame [OF eq] by (simp add: effect_def)
  ultimately show ?thesis by auto
qed

lemma runFor_loop_rejected:
  assumes "pollAnswer w 0 = None" and "counter < 15"
  shows "\<exists>e w1. runFor_loop (getServiceInvocationStatus vid sid) n False counter w = (Inl e, w1) \<and>
              polled vid sid n 1 w w1 \<and>
              serviceInvocationSuccess w1 = serviceInvocationSuccess w"
proof -
  obtain r w1 where eq: "getServiceInvocationStatus vid sid (effect (Sleep n) w) = (r, w1)"
    by fastforce
  obtain e where r: "r = Inl e" using poll_rejected [OF assms(1), of vid sid n] eq by auto
  have "runFor_loop (getServiceInvocationStatus vid sid) n False counter w = (Inl e, w1)"
    using assms(2) by (subst runFor_loop.simps) (simp add: eq r)
  then show ?thesis using poll_frame [OF eq] by auto
qed

lemma runFor_loop_stop:
  "d \<or> 15 \<le> counter \<Longrightarrow>
   runFor_loop func n d counter w =
     (Inr (), if counter > 15
              then effect (Log ''console.error'' ''Service invocation didn't get a status back'') w
              else w)"
  by (subst runFor_loop.simps) auto

lemma runFor_loop_bound:
  "\<exists>k. k \<le> 15 - counter \<and>
       polled vid sid n k w (snd (runFor_loop (getServiceInvocationStatus vid sid) n d counter w))"
proof (induction "getServiceInvocationStatus vid sid" n d counter w rule: runFor_loop.induct)
  case (1 n d counter w)
  show ?case
  proof (cases "\<not> d \<and> counter < 15")
    case False
    then have "d \<or> 15 \<le> counter" by auto
    then have "polled vid sid n 0 w (snd (runFor_loop (getServiceInvocationStatus vid sid) n d counter w))"
      by (simp add: runFor_loop_stop polled_def effect_def)
    then show ?thesis by blast
  next
    case True
    obtain r w1 where eq: "getServiceInvocationStatus vid sid (effect (Sleep n) w) = (r, w1)"
      by fastforce
    have p1: "polled vid sid n 1 w w1" using poll_frame [OF eq] by simp
    show ?thesis
    proof (cases r)
      case (Inl e)
      then have "runFor_loop (getServiceInvocationStatus vid sid) n d counter w = (Inl e, w1)"
        using True by (subst runFor_loop.simps) (simp add: eq)
      then show ?thesis using p1 True by (intro exI [of _ 1]) auto
    next
      case (Inr response)
      consider (s) "response = JStr ''Successful''"
        | (f) "response \<noteq> JStr ''Successful''" "response = JStr ''Failed''"
        | (p) "response \<noteq> JStr ''Successful''" "response \<noteq> JStr ''Failed''"
        by blast
      then show ?thesis
      proof cases
        case s
        then have "runFor_loop (getServiceInvocationStatus vid sid) n d counter w =
                   (Inr (), w1\<lparr>serviceInvocationSuccess := True\<rparr>)"
          using True Inr by (subst runFor_loop.simps) (simp add: eq runFor_loop_done)
        then show ?thesis using p1 True by (intro exI [of _ 1]) (auto simp: polled_def)
      next
        case f
        then have "runFor_loop (getServiceInvocationStatus vid sid) n d counter w =
                   (Inr (), effect (Log ''console.error'' ''Service invocation failed!'') w1)"
          using True Inr by (subst runFor_loop.simps) (simp add: eq runFor_loop_done)
        then show ?thesis using p1 True by (intro exI [of _ 1]) (auto simp: polled_def effect_def)
      next
        case p
        have step: "runFor_loop (getServiceInvocationStatus vid sid) n d counter w =
                    runFor_loop (getServiceInvocationStatus vid sid) n False (counter + 1) w1"
          using True Inr p by (subst runFor_loop.simps) (simp add: eq)
        obtain k where k: "k \<le> 15 - (counter + 1)"
          "polled vid sid n k w1 (snd (runFor_loop (getServiceInvocationStatus vid sid) n False (counter + 1) w1))"
          using "1.hyps"(3) [OF True eq [symmetric] Inr p(1) p(2)] by blast
        have "polled vid sid n (1 + k) w (snd (runFor_loop (getServiceInvocationStatus vid sid) n d counter w))"
          using polled_trans [OF p1 k(2)] step by simp
        moreover have "1 + k \<le> 15 - counter" using k(1) True by auto
        ultimately show ?thesis by blast
      qed
    qed
  qed
qed

lemma poll_result:
  assumes "getServiceInvocationStatus vid sid (effect (Sleep n) w) = (Inr s, w1)"
  shows "pollAnswer w 0 = Some s"
  using assms
  by (auto simp: getServiceInvocationStatus_def getVOCCommand_def http_def issue_def effect_def
      pollAnswer_def Let_def split: sum.splits if_splits)

lemma runFor_loop_flag:
  "serviceInvocationSuccess (snd (runFor_loop (getServiceInvocationStatus vid sid) n d counter w)) \<Longrightarrow>
   serviceInvocationSuccess w \<or> (\<exists>k<15 - counter. pollAnswer w k = Some (JStr ''Successful''))"
proof (induction "getServiceInvocationStatus vid sid" n d counter w rule: runFor_loop.induct)
  case (1 n d counter w)
  show ?case
  proof (cases "\<not> d \<and> counter < 15")
    case False
    then have "d \<or> 15 \<le> counter" by auto
    then show ?thesis using "1.prems" by (simp add: runFor_loop_stop effect_def split: if_splits)
  next
    case True
    obtain r w1 where eq: "getServiceInvocationStatus vid sid (effect (Sleep n) w) = (r, w1)"
      by fastforce
    have p1: "polled vid sid n 1 w w1" and f1: "serviceInvocationSuccess w1 = serviceInvocationSuccess w"
      using poll_frame [OF eq] by simp_all
    show ?thesis
    proof (cases r)
      case (Inl e)
      then have "runFor_loop (getServiceInvocationStatus vid sid) n d counter w = (Inl e, w1)"
        using True by (subst runFor_loop.simps) (simp add: eq)
      then show ?thesis using "1.prems" f1 by simp
    next
      case (Inr response)
      have ans: "pollAnswer w 0 = Some response" using poll_result eq Inr by blast
      consider (s) "response = JStr ''Successful''"
        | (f) "response \<noteq> JStr ''Successful''" "response = JStr ''Failed''"
        | (p) "response \<noteq> JStr ''Successful''" "response \<noteq> JStr ''Failed''"
        by blast
      then show ?thesis
      proof cases
        case s
        then show ?thesis using ans True by auto
      next
        case f
        then have "runFor_loop (getServiceInvocationStatus vid sid) n d counter w =
                   (Inr (), effect (Log ''console.error'' ''Service invocation failed!'') w1)"
          using True Inr by (subst runFor_loop.simps) (simp add: eq runFor_loop_done)
        then show ?thesis using "1.prems" f1 by (simp add: effect_def)
      next
        case p
        have step: "runFor_loop (getServiceInvocationStatus vid sid) n d counter w =
                    runFor_loop (getServiceInvocationStatus vid sid) n False (counter + 1) w1"
          using True Inr p by (subst runFor_loop.simps) (simp add: eq)
        have "serviceInvocationSuccess w1 \<or>
              (\<exists>k<15 - (counter + 1). pollAnswer w1 k = Some (JStr ''Successful''))"
          using "1.hyps"(3) [OF True eq [symmetric] Inr p(1) p(2)] "1.prems" step by simp
        then show ?thesis
        proof
          assume "serviceInvocationSuccess w1"
          then show ?thesis using f1 by simp
        next
          assume "\<exists>k<15 - (counter + 1). pollAnswer w1 k = Some (JStr ''Successful'')"
          then obtain k where k: "k < 15 - (counter + 1)" "pollAnswer w1 k = Some (JStr ''Successful'')"
            by blast
          have "pollAnswer w (1 + k) = Some (JStr ''Successful'')"
            using pollAnswer_shift [OF p1, of k] k(2) by simp
          moreover have "1 + k < 15 - counter" using k(1) by auto
          ultimately show ?thesis by blast
        qed
      qed
    qed
  qed
qed

lemma runFor_characterisation:
  "(\<exists>k\<le>15. polled vid sid n k w (snd (runFor (getServiceInvocationStatus vid sid) n w)))"
  using runFor_loop_bound [of 0 vid sid n w False] by (simp add: runFor_def)

lemma runFor_first_terminal:
  assumes "\<forall>j<k. pending (pollAnswer w j)" and "k < 15"
  shows "pollAnswer w k = Some (JStr ''Successful'') \<Longrightarrow>
           \<exists>w'. runFor (getServiceInvocationStatus vid sid) n w = (Inr (), w') \<and>
                polled vid sid n (k + 1) w w' \<and> serviceInvocationSuccess w'"
    and "pollAnswer w k = Some (JStr ''Failed'') \<Longrightarrow>
           \<exists>w'. runFor (getServiceInvocationStatus vid sid) n w = (Inr (), w') \<and>
                polled vid sid n (k + 1) w w' \<and>
                serviceInvocationSuccess w' = serviceInvocationSuccess w"
    and "pollAnswer w k = None \<Longrightarrow>
           \<exists>e w'. runFor (getServiceInvocationStatus vid sid) n w = (Inl e, w') \<and>
                polled vid sid n (k + 1) w w' \<and>
                serviceInvocationSuccess w' = serviceInvocationSuccess w"
proof -
  obtain w1 where
    pre: "runFor_loop (getServiceInvocationStatus vid sid) n False 0 w =
          runFor_loop (getServiceInvocationStatus vid sid) n False k w1"
    and p1: "polled vid sid n k w w1"
    and f1: "serviceInvocationSuccess w1 = serviceInvocationSuccess w"
    using runFor_loop_pending [OF assms(1), of 0 vid sid n] assms(2) by auto
  have shift: "pollAnswer w1 0 = pollAnswer w k" using pollAnswer_shift [OF p1, of 0] by simp
  {
    assume "pollAnswer w k = Some (JStr ''Successful'')"
    then obtain w2 where
      "runFor_loop (getServiceInvocationStatus vid sid) n False k w1 = (Inr (), w2)"
      and q: "polled vid sid n 1 w1 w2" and "serviceInvocationSuccess w2"
      using runFor_loop_successful [of w1 k vid sid n] shift assms(2) by auto
    then show "\<exists>w'. runFor (getServiceInvocationStatus vid sid) n w = (Inr (), w') \<and>
                polled vid sid n (k + 1) w w' \<and> serviceInvocationSuccess w'"
      using pre polled_trans [OF p1 q] by (auto simp: runFor_def)
  }
  {
    assume "pollAnswer w k = Some (JStr ''Failed'')"
    then obtain w2 where
      "runFor_loop (getServiceInvocationStatus vid sid) n False k w1 = (Inr (), w2)"
      and q: "polled vid sid n 1 w1 w2" and "serviceInvocationSuccess w2 = serviceInvocationSuccess w1"
      using runFor_loop_failed [of w1 k vid sid n] shift assms(2) by auto
    then show "\<exists>w'. runFor (getServiceInvocationStatus vid sid) n w = (Inr (), w') \<and>
                polled vid sid n (k + 1) w w' \<and>
                serviceInvocationSuccess w' = serviceInvocationSuccess w"
      using pre polled_trans [OF p1 q] f1 by (auto simp: runFor_def)
  }
  {
    assume "pollAnswer w k = None"
    then obtain e w2 where
      "runFor_loop (getServiceInvocationStatus vid sid) n False k w1 = (Inl e, w2)"
      and q: "polled vid sid n 1 w1 w2" and "serviceInvocationSuccess w2 = serviceInvocationSuccess w1"
      using runFor_loop_rejected [of w1 k vid sid n] shift assms(2) by auto
    then show "\<exists>e w'. runFor (getServiceInvocationStatus vid sid) n w = (Inl e, w') \<and>
                polled vid sid n (k + 1) w w' \<and>
                serviceInvocationSuccess w' = serviceInvocationSuccess w"
      using pre polled_trans [OF p1 q] f1 by (auto simp: runFor_def)
  }
qed

lemma runFor_all_pending:
  assumes "\<forall>j<15. pending (pollAnswer w j)"
  shows "\<exists>w'. runFor (getServiceInvocationStatus vid sid) n w = (Inr (), w') \<and>
              polled vid sid n 15 w w' \<and>
              serviceInvocationSuccess w' = serviceInvocationSuccess w"
  using runFor_loop_pending [OF assms, of 0 vid sid n]
  by (auto simp: runFor_def runFor_loop_exhausted)

lemma await_resolves:
  assumes "truthy sid"
    and "runFor (getServiceInvocationStatus vid sid) 1000 w = (Inr (), w1)"
  shows "awaitSuccessfulServiceInvocation vid sid w =
           (Inr (serviceInvocationSuccess w1), w1\<lparr>serviceInvocationSuccess := False\<rparr>)"
  using assms by (simp add: awaitSuccessfulServiceInvocation_def)

lemma polled_flag_update:
  "polled vid sid n k w w1 \<Longrightarrow> polled vid sid n k w (w1\<lparr>serviceInvocationSuccess := b\<rparr>)"
  by (simp add: polled_def)

lemma scripted_pollAnswer:
  "pollAnswer (scripted answers rest parse) j =
     (case (if j < length answers then answers ! j else rest) of
        Inl reason \<Rightarrow> None
      | Inr data \<Rightarrow> if truthy data then Some (js_prop data ''status'') else None)"
  by (simp add: pollAnswer_def scripted_def)


text \<open>
  Claim C1. A service invocation polls at most 15 times, one poll after each wait of 1000 ms.
  When the first answer that is not pending is \<open>Successful\<close>, at poll \<open>k + 1\<close>, polling stops
  there and the invocation resolves with \<open>true\<close>; when it is \<open>Failed\<close>, polling stops there
  and the invocation resolves with \<open>false\<close>; any other status keeps the loop polling; after
  15 pending answers polling stops and the invocation resolves with \<open>false\<close>, the flag
  unset. (The flag is unset before an invocation that does not overlap another one.)
\<close>

theorem polling_loop:
  assumes "truthy sid"
  shows
    "(\<exists>k\<le>15. polled vid sid 1000 k w (snd (awaitSuccessfulServiceInvocation vid sid w))) \<and>
     (\<forall>k<15. (\<forall>j<k. pending (pollAnswer w j)) \<and> pollAnswer w k = Some (JStr ''Successful'') \<longrightarrow>
        (\<exists>w'. awaitSuccessfulServiceInvocation vid sid w = (Inr True, w') \<and>
              polled vid sid 1000 (k + 1) w w')) \<and>
     (\<forall>k<15. (\<forall>j<k. pending (pollAnswer w j)) \<and> pollAnswer w k = Some (JStr ''Failed'') \<and>
             \<not> serviceInvocationSuccess w \<longrightarrow>
        (\<exists>w'. awaitSuccessfulServiceInvocation vid sid w = (Inr False, w') \<and>
              polled vid sid 1000 (k + 1) w w' \<and> \<not> serviceInvocationSuccess w')) \<and>
     ((\<forall>j<15. pending (pollAnswer w j)) \<and> \<not> serviceInvocationSuccess w \<longrightarrow>
        (\<exists>w'. awaitSuccessfulServiceInvocation vid sid w = (Inr False, w') \<and>
              polled vid sid 1000 15 w w' \<and> \<not> serviceInvocationSuccess w'))"
proof (intro conjI allI impI)
  obtain k where k: "k \<le> 15"
    "polled vid sid 1000 k w (snd (runFor (getServiceInvocationStatus vid sid) 1000 w))"
    using runFor_characterisation by blast
  have "polled vid sid 1000 k w (snd (awaitSuccessfulServiceInvocation vid sid w))"
    using k(2) assms
    by (cases "runFor (getServiceInvocationStatus vid sid) 1000 w")
       (auto simp: awaitSuccessfulServiceInvocation_def polled_def split: sum.splits)
  then show "\<exists>k\<le>15. polled vid sid 1000 k w (snd (awaitSuccessfulServiceInvocation vid sid w))"
    using k(1) by blast
next
  fix k
  assume "k < 15" and h: "(\<forall>j<k. pending (pollAnswer w j)) \<and> pollAnswer w k = Some (JStr ''Successful'')"
  then obtain w1 where
    r: "runFor (getServiceInvocationStatus vid sid) 1000 w = (Inr (), w1)"
    and p: "polled vid sid 1000 (k + 1) w w1" and f: "serviceInvocationSuccess w1"
    using runFor_first_terminal(1) [of k w vid sid 1000] by blast
  show "\<exists>w'. awaitSuccessfulServiceInvocation vid sid w = (Inr True, w') \<and>
             polled vid sid 1000 (k + 1) w w'"
    using await_resolves [OF assms r] f polled_flag_update [OF p] by auto
next
  fix k
  assume "k < 15" and h: "(\<forall>j<k. pending (pollAnswer w j)) \<and> pollAnswer w k = Some (JStr ''Failed'') \<and>
             \<not> serviceInvocationSuccess w"
  then obtain w1 where
    r: "runFor (getServiceInvocationStatus vid sid) 1000 w = (Inr (), w1)"
    and p: "polled vid sid 1000 (k + 1) w w1"
    and f: "serviceInvocationSuccess w1 = serviceInvocationSuccess w"
    using runFor_first_terminal(2) [of k w vid sid 1000] by blast
  show "\<exists>w'. awaitSuccessfulServiceInvocation vid sid w = (Inr False, w') \<and>
             polled vid sid 1000 (k + 1) w w' \<and> \<not> serviceInvocationSuccess w'"
    using await_resolves [OF assms r] f h polled_flag_update [OF p] by auto
next
  assume h: "(\<forall>j<15. pending (pollAnswer w j)) \<and> \<not> serviceInvocationSuccess w"
  then obtain w1 where
    r: "runFor (getServiceInvocationStatus vid sid) 1000 w = (Inr (), w1)"
    and p: "polled vid sid 1000 15 w w1"
    and f: "serviceInvocationSuccess w1 = serviceInvocationSuccess w"
    using runFor_all_pending [of w vid sid 1000] by blast
  show "\<exists>w'. awaitSuccessfulServiceInvocation vid sid w = (Inr False, w') \<and>
             polled vid sid 1000 15 w w' \<and> \<not> serviceInvocationSuccess w'"
    using await_resolves [OF assms r] f h polled_flag_update [OF p] by auto
qed


theorem polling_loop_witness:
  "fst (awaitSuccessfulServiceInvocation ''YV1'' (JStr ''s1'')
          (scripted [statusAnswer ''Pending'', statusAnswer ''Pending'', statusAnswer ''Successful'']
             (statusAnswer ''Pending'') (\<lambda>s. None))) = Inr True \<and>
   nreq (snd (awaitSuccessfulServiceInvocation ''YV1'' (JStr ''s1'')
          (scripted [statusAnswer ''Pending'', statusAnswer ''Pending'', statusAnswer ''Successful'']
             (statusAnswer ''Pending'') (\<lambda>s. None)))) = 3 \<and>
   fst (awaitSuccessfulServiceInvocation ''YV1'' (JStr ''s1'')
          (scripted [statusAnswer ''Pending'', statusAnswer ''Failed'']
             (statusAnswer ''Successful'') (\<lambda>s. None))) = Inr False \<and>
   nreq (snd (awaitSuccessfulServiceInvocation ''YV1'' (JStr ''s1'')
          (scripted [statusAnswer ''Pending'', statusAnswer ''Failed'']
             (statusAnswer ''Successful'') (\<lambda>s. None)))) = 2 \<and>
   fst (awaitSuccessfulServiceInvocation ''YV1'' (JStr ''s1'')
          (scripted [] (statusAnswer ''Pending'') (\<lambda>s. None))) = Inr False \<and>
   nreq (snd (awaitSuccessfulServiceInvocation ''YV1'' (JStr ''s1'')
          (scripted [] (statusAnswer ''Pending'') (\<lambda>s. None)))) = 15"
proof -
  let ?w1 = "scripted [statusAnswer ''Pending'', statusAnswer ''Pending'', statusAnswer ''Successful'']
             (statusAnswer ''Pending'') (\<lambda>s. None)"
  let ?w2 = "scripted [statusAnswer ''Pending'', statusAnswer ''Failed'']
             (statusAnswer ''Successful'') (\<lambda>s. None)"
  let ?w3 = "scripted [] (statusAnswer ''Pending'') (\<lambda>s. None)"
  have t: "truthy (JStr ''s1'')" by simp
  have a1: "(\<forall>j<2. pending (pollAnswer ?w1 j)) \<and> pollAnswer ?w1 2 = Some (JStr ''Successful'')"
    by (simp add: scripted_pollAnswer statusAnswer_def pending_def less_Suc_eq numeral_2_eq_2)
  have a2: "(\<forall>j<1. pending (pollAnswer ?w2 j)) \<and> pollAnswer ?w2 1 = Some (JStr ''Failed'')"
    by (simp add: scripted_pollAnswer statusAnswer_def pending_def)
  have a3: "\<forall>j<15. pending (pollAnswer ?w3 j)"
    by (simp add: scripted_pollAnswer statusAnswer_def pending_def)
  have f: "\<not> serviceInvocationSuccess ?w2" "\<not> serviceInvocationSuccess ?w3"
    by (simp_all add: scripted_def)
  have n: "nreq ?w1 = 0" "nreq ?w2 = 0" "nreq ?w3 = 0" by (simp_all add: scripted_def)
  have c1: "\<exists>w'. awaitSuccessfulServiceInvocation ''YV1'' (JStr ''s1'') ?w1 = (Inr True, w') \<and>
             polled ''YV1'' (JStr ''s1'') 1000 (2 + 1) ?w1 w'"
    using polling_loop [OF t, of "''YV1''" ?w1, THEN conjunct2, THEN conjunct1, rule_format, of 2] a1
    by simp
  have c2: "\<exists>w'. awaitSuccessfulServiceInvocation ''YV1'' (JStr ''s1'') ?w2 = (Inr False, w') \<and>
             polled ''YV1'' (JStr ''s1'') 1000 (1 + 1) ?w2 w' \<and> \<not> serviceInvocationSuccess w'"
    using polling_loop [OF t, of "''YV1''" ?w2, THEN conjunct2, THEN conjunct2, THEN conjunct1,
        rule_format, of 1] a2 f(1)
    by simp
  have c3: "\<exists>w'. awaitSuccessfulServiceInvocation ''YV1'' (JStr ''s1'') ?w3 = (Inr False, w') \<and>
             polled ''YV1'' (JStr ''s1'') 1000 15 ?w3 w' \<and> \<not> serviceInvocationSuccess w'"
    using polling_loop [OF t, of "''YV1''" ?w3, THEN conjunct2, THEN conjunct2, THEN conjunct2,
        rule_format] a3 f(2)
    by simp
  from c1 obtain u1 where u1: "awaitSuccessfulServiceInvocation ''YV1'' (JStr ''s1'') ?w1 = (Inr True, u1)"
    "nreq u1 = nreq ?w1 + (2 + 1)" by (auto simp: polled_def)
  from c2 obtain u2 where u2: "awaitSuccessfulServiceInvocation ''YV1'' (JStr ''s1'') ?w2 = (Inr False, u2)"
    "nreq u2 = nreq ?w2 + (1 + 1)" by (auto simp: polled_def)
  from c3 obtain u3 where u3: "awaitSuccessfulServiceInvocation ''YV1'' (JStr ''s1'') ?w3 = (Inr False, u3)"
    "nreq u3 = nreq ?w3 + 15" by (auto simp: polled_def)
  show ?thesis
    by (simp add: u1 u2 u3 n)
qed

lemma lastIndexOf_from_absent:
  "c \<notin> set s \<Longrightarrow> lastIndexOf_from s c i found = found"
  by (induction s arbitrary: i found) auto

lemma lastIndexOf_from_present:
  "c \<in> set s \<Longrightarrow> i \<le> lastIndexOf_from s c i found"
proof (induction s arbitrary: i found)
  case Nil
  then show ?case by simp
next
  case (Cons x xs)
  show ?case
  proof (cases "c \<in> set xs")
    case True
    then have "i + 1 \<le> lastIndexOf_from xs c (i + 1) (if x = c then i else found)"
      using Cons.IH by blast
    then show ?thesis by simp
  next
    case False
    then show ?thesis using Cons.prems by (simp add: lastIndexOf_from_absent)
  qed
qed

lemma takeWhile_absent_append:
  "c \<notin> set ys \<Longrightarrow>
   takeWhile (\<lambda>x. x \<noteq> c) (ys @ zs) = ys @ takeWhile (\<lambda>x. x \<noteq> c) zs"
  by (induction ys) auto

lemma substring_lastIndexOf_from:
  "found < i \<Longrightarrow>
   drop (nat (max 0 (lastIndexOf_from s c i found + 1 - i))) s =
     rev (takeWhile (\<lambda>x. x \<noteq> c) (rev s))"
proof (induction s arbitrary: i found)
  case Nil
  then show ?case by simp
next
  case (Cons x xs)
  define d where "d = lastIndexOf_from xs c (i + 1) (if x = c then i else found)"
  have step: "lastIndexOf_from (x # xs) c i found = d" by (simp add: d_def)
  have f: "(if x = c then i else found) < i + 1" using Cons.prems by simp
  have IH: "drop (nat (max 0 (d + 1 - (i + 1)))) xs = rev (takeWhile (\<lambda>x. x \<noteq> c) (rev xs))"
    using Cons.IH [OF f] by (simp only: d_def)
  show ?case
  proof (cases "c \<in> set xs")
    case True
    have "i + 1 \<le> d" unfolding d_def using lastIndexOf_from_present [OF True] by blast
    then have "nat (max 0 (d + 1 - i)) = Suc (nat (max 0 (d + 1 - (i + 1))))" by simp
    then have A: "drop (nat (max 0 (d + 1 - i))) (x # xs) = drop (nat (max 0 (d + 1 - (i + 1)))) xs"
      by (simp only: drop_Suc_Cons)
    have B: "rev (takeWhile (\<lambda>x. x \<noteq> c) (rev (x # xs))) = rev (takeWhile (\<lambda>x. x \<noteq> c) (rev xs))"
      using True by (simp add: takeWhile_append1)
    show ?thesis unfolding step using A B IH by (simp only:)
  next
    case False
    then have d: "d = (if x = c then i else found)" by (simp add: d_def lastIndexOf_from_absent)
    show ?thesis
    proof (cases "x = c")
      case True
      then have "d = i" using d by simp
      then have A: "drop (nat (max 0 (d + 1 - i))) (x # xs) = xs" by simp
      have B: "rev (takeWhile (\<lambda>x. x \<noteq> c) (rev (x # xs))) = xs"
        using True \<open>c \<notin> set xs\<close> by (simp add: takeWhile_absent_append)
      show ?thesis unfolding step using A B by (simp only:)
    next
      case False
      then have "d = found" using d by simp
      then have "nat (max 0 (d + 1 - i)) = 0" using Cons.prems by simp
      then have A: "drop (nat (max 0 (d + 1 - i))) (x # xs) = x # xs" by (simp only: drop_0)
      have B: "rev (takeWhile (\<lambda>x. x \<noteq> c) (rev (x # xs))) = x # xs"
        using False \<open>c \<notin> set xs\<close> by (simp add: takeWhile_absent_append)
      show ?thesis unfolding step using A B by (simp only:)
    qed
  qed
qed

lemma lastSegment_eq: "lastSegment s = rev (takeWhile (\<lambda>x. x \<noteq> CHR ''/'') (rev s))"
  using substring_lastIndexOf_from [of "- 1" 0 s "CHR ''/''"]
  by (simp add: lastSegment_def substring_def lastIndexOf_def)

lemma runFor_loop_bound_pos:
  assumes "counter < 15"
  shows "\<exists>k. 1 \<le> k \<and> k \<le> 15 - counter \<and>
          polled vid sid n k w (snd (runFor_loop (getServiceInvocationStatus vid sid) n False counter w))"
proof -
  obtain r w1 where eq: "getServiceInvocationStatus vid sid (effect (Sleep n) w) = (r, w1)"
    by fastforce
  have p1: "polled vid sid n 1 w w1" using poll_frame [OF eq] by simp
  have "\<exists>d w2. polled vid sid n 1 w w2 \<and>
          ((\<exists>e. runFor_loop (getServiceInvocationStatus vid sid) n False counter w = (Inl e, w2)) \<or>
           runFor_loop (getServiceInvocationStatus vid sid) n False counter w =
           runFor_loop (getServiceInvocationStatus vid sid) n d (counter + 1) w2)"
  proof (cases r)
    case (Inl e)
    then have "runFor_loop (getServiceInvocationStatus vid sid) n False counter w = (Inl e, w1)"
      using assms by (subst runFor_loop.simps) (simp add: eq)
    then show ?thesis using p1 by blast
  next
    case (Inr response)
    consider (s) "response = JStr ''Successful''"
      | (f) "response \<noteq> JStr ''Successful''" "response = JStr ''Failed''"
      | (p) "response \<noteq> JStr ''Successful''" "response \<noteq> JStr ''Failed''"
      by blast
    then show ?thesis
    proof cases
      case s
      have "runFor_loop (getServiceInvocationStatus vid sid) n False counter w =
            runFor_loop (getServiceInvocationStatus vid sid) n True (counter + 1)
              (w1\<lparr>serviceInvocationSuccess := True\<rparr>)"
        using assms Inr s by (subst runFor_loop.simps) (simp add: eq)
      moreover have "polled vid sid n 1 w (w1\<lparr>serviceInvocationSuccess := True\<rparr>)"
        using p1 by (simp add: polled_def)
      ultimately show ?thesis by blast
    next
      case f
      have "runFor_loop (getServiceInvocationStatus vid sid) n False counter w =
            runFor_loop (getServiceInvocationStatus vid sid) n True (counter + 1)
              (effect (Log ''console.error'' ''Service invocation failed!'') w1)"
        using assms Inr f by (subst runFor_loop.simps) (simp add: eq)
      moreover have "polled vid sid n 1 w (effect (Log ''console.error'' ''Service invocation failed!'') w1)"
        using p1 by (simp add: polled_def effect_def)
      ultimately show ?thesis by blast
    next
      case p
      have "runFor_loop (getServiceInvocationStatus vid sid) n False counter w =
            runFor_loop (getServiceInvocationStatus vid sid) n False (counter + 1) w1"
        using assms Inr p by (subst runFor_loop.simps) (simp add: eq)
      then show ?thesis using p1 by blast
    qed
  qed
  then obtain d w2 where q: "polled vid sid n 1 w w2"
    and alt: "(\<exists>e. runFor_loop (getServiceInvocationStatus vid sid) n False counter w = (Inl e, w2)) \<or>
              runFor_loop (getServiceInvocationStatus vid sid) n False counter w =
              runFor_loop (getServiceInvocationStatus vid sid) n d (counter + 1) w2"
    by blast
  from alt show ?thesis
  proof
    assume "\<exists>e. runFor_loop (getServiceInvocationStatus vid sid) n False counter w = (Inl e, w2)"
    then show ?thesis using q assms by (intro exI [of _ 1]) auto
  next
    assume step: "runFor_loop (getServiceInvocationStatus vid sid) n False counter w =
                  runFor_loop (getServiceInvocationStatus vid sid) n d (counter + 1) w2"
    obtain k where k: "k \<le> 15 - (counter + 1)"
      "polled vid sid n k w2 (snd (runFor_loop (getServiceInvocationStatus vid sid) n d (counter + 1) w2))"
      using runFor_loop_bound [of "counter + 1" vid sid n w2 d] by blast
    have "polled vid sid n (1 + k) w (snd (runFor_loop (getServiceInvocationStatus vid sid) n False counter w))"
      using polled_trans [OF q k(2)] step by simp
    moreover have "1 + k \<le> 15 - counter" using k(1) assms by auto
    ultimately show ?thesis by (intro exI [of _ "1 + k"]) auto
  qed
qed

lemma await_polled:
  "\<exists>k. (truthy sid \<longrightarrow> 1 \<le> k) \<and> k \<le> 15 \<and>
       polled vid sid 1000 k w (snd (awaitSuccessfulServiceInvocation vid sid w))"
proof (cases "truthy sid")
  case False
  then have "polled vid sid 1000 0 w (snd (awaitSuccessfulServiceInvocation vid sid w))"
    by (simp add: awaitSuccessfulServiceInvocation_def polled_def)
  then show ?thesis using False by (intro exI [of _ 0]) simp
next
  case True
  obtain k where k: "1 \<le> k" "k \<le> 15"
    "polled vid sid 1000 k w (snd (runFor (getServiceInvocationStatus vid sid) 1000 w))"
    using runFor_loop_bound_pos [of 0 vid sid 1000 w] by (auto simp: runFor_def)
  have "polled vid sid 1000 k w (snd (awaitSuccessfulServiceInvocation vid sid w))"
    using k(3) True
    by (cases "runFor (getServiceInvocationStatus vid sid) 1000 w")
       (auto simp: awaitSuccessfulServiceInvocation_def polled_def split: sum.splits)
  then show ?thesis using k(1,2) by blast
qed

lemma polled_effect:
  "polled vid sid n k w w1 \<Longrightarrow> polled vid sid n k w (effect (VocEmit ev x) w1)"
  by (simp add: polled_def effect_def)

lemma polled_apiError:
  "polled vid sid n k w w1 \<Longrightarrow> polled vid sid n k w (apiError e w1)"
  by (simp add: apiError_def polled_effect)

text \<open>
  Claim C7. When the answer to the delay-charging submission carries no service reference,
  \<open>VOC.prototype.delayCharging\<close> resolves with that answer at once: the PUT is the only
  request, and no poll and no timer follow. When the answer carries a reference, the polls
  go to the service whose id is the text of the reference after its last \<open>/\<close>.
\<close>

theorem delayCharging_terminal_or_polled:
  "(cloud w (nreq w) = Inr answer \<and> answer \<noteq> JUndefined \<and> answer \<noteq> JNull \<and>
    \<not> truthy (js_prop answer ''service'') \<longrightarrow>
      VOC_delayCharging vid loc payload w =
        (Inr answer,
         effect (actionStatus ''delayCharging'' answer)
           (issue (PUT (vehicle_chargeLocation vid loc) (if truthy payload then payload else JBool True)) w))) \<and>
   (cloud w (nreq w) = Inr answer \<and> js_prop answer ''service'' = JStr ref \<and> ref \<noteq> [] \<longrightarrow>
      lastSegment ref = rev (takeWhile (\<lambda>c. c \<noteq> CHR ''/'') (rev ref)) \<and>
      (\<exists>k. (lastSegment ref \<noteq> [] \<longrightarrow> 1 \<le> k) \<and> k \<le> 15 \<and>
           polled vid (JStr (lastSegment ref)) 1000 k
             (issue (PUT (vehicle_chargeLocation vid loc) (if truthy payload then payload else JBool True)) w)
             (snd (VOC_delayCharging vid loc payload w))))"
proof (intro conjI impI)
  assume "cloud w (nreq w) = Inr answer \<and> answer \<noteq> JUndefined \<and> answer \<noteq> JNull \<and>
          \<not> truthy (js_prop answer ''service'')"
  then show "VOC_delayCharging vid loc payload w =
        (Inr answer,
         effect (actionStatus ''delayCharging'' answer)
           (issue (PUT (vehicle_chargeLocation vid loc) (if truthy payload then payload else JBool True)) w))"
    by (simp add: VOC_delayCharging_def putVOCCommand_def http_def js_get_def)
next
  assume "cloud w (nreq w) = Inr answer \<and> js_prop answer ''service'' = JStr ref \<and> ref \<noteq> []"
  show "lastSegment ref = rev (takeWhile (\<lambda>c. c \<noteq> CHR ''/'') (rev ref))"
    by (rule lastSegment_eq)
next
  let ?w1 = "issue (PUT (vehicle_chargeLocation vid loc) (if truthy payload then payload else JBool True)) w"
  let ?sid = "JStr (lastSegment ref)"
  assume h: "cloud w (nreq w) = Inr answer \<and> js_prop answer ''service'' = JStr ref \<and> ref \<noteq> []"
  then have ns: "answer \<noteq> JUndefined" "answer \<noteq> JNull" by auto
  obtain k where k: "truthy ?sid \<longrightarrow> 1 \<le> k" "k \<le> 15"
    "polled vid ?sid 1000 k ?w1 (snd (awaitSuccessfulServiceInvocation vid ?sid ?w1))"
    using await_polled by blast
  have "polled vid ?sid 1000 k ?w1 (snd (VOC_delayCharging vid loc payload w))"
    using k(3) h ns
    by (cases "awaitSuccessfulServiceInvocation vid ?sid ?w1")
       (auto simp: VOC_delayCharging_def putVOCCommand_def http_def js_get_def js_lastSegment_def
          polled_apiError polled_effect actionStatus_def split: sum.splits)
  then show "\<exists>k. (lastSegment ref \<noteq> [] \<longrightarrow> 1 \<le> k) \<and> k \<le> 15 \<and>
           polled vid ?sid 1000 k ?w1 (snd (VOC_delayCharging vid loc payload w))"
    using k(1,2) by (intro exI [of _ k]) simp
qed

theorem delayCharging_terminal_or_polled_witness:
  "VOC_delayCharging ''YV1'' (JStr ''7'') (JObj [])
     (scripted [Inr (JObj [(''status'', JStr ''Accepted'')])] (statusAnswer ''Pending'') (\<lambda>s. None)) =
     (Inr (JObj [(''status'', JStr ''Accepted'')]),
      effect (actionStatus ''delayCharging'' (JObj [(''status'', JStr ''Accepted'')]))
        (issue (PUT (vehicle_chargeLocation ''YV1'' (JStr ''7'')) (JObj []))
           (scripted [Inr (JObj [(''status'', JStr ''Accepted'')])] (statusAnswer ''Pending'') (\<lambda>s. None)))) \<and>
   (\<exists>k. 1 \<le> k \<and> k \<le> 15 \<and>
      polled ''YV1'' (JStr ''42'') 1000 k
        (issue (PUT (vehicle_chargeLocation ''YV1'' (JStr ''7'')) (JObj []))
           (scripted [Inr (JObj [(''service'', JStr ''/a/services/42'')])] (statusAnswer ''Pending'') (\<lambda>s. None)))
        (snd (VOC_delayCharging ''YV1'' (JStr ''7'') (JObj [])
           (scripted [Inr (JObj [(''service'', JStr ''/a/services/42'')])] (statusAnswer ''Pending'') (\<lambda>s. None)))))"
proof -
  let ?a = "JObj [(''status'', JStr ''Accepted'')]"
  let ?b = "JObj [(''service'', JStr ''/a/services/42'')]"
  let ?wa = "scripted [Inr ?a] (statusAnswer ''Pending'') (\<lambda>s. None)"
  let ?wb = "scripted [Inr ?b] (statusAnswer ''Pending'') (\<lambda>s. None)"
  have ha: "cloud ?wa (nreq ?wa) = Inr ?a \<and> ?a \<noteq> JUndefined \<and> ?a \<noteq> JNull \<and>
            \<not> truthy (js_prop ?a ''service'')"
    by (simp add: scripted_def)
  have hb: "cloud ?wb (nreq ?wb) = Inr ?b \<and> js_prop ?b ''service'' = JStr ''/a/services/42'' \<and>
            ''/a/services/42'' \<noteq> []"
    by (simp add: scripted_def)
  have seg: "lastSegment ''/a/services/42'' = ''42''"
    by (simp add: lastSegment_def lastIndexOf_def substring_def)
  have t: "truthy (JObj [])" by simp
  show ?thesis
    using delayCharging_terminal_or_polled [where w = ?wa and answer = ?a and vid = "''YV1''"
          and loc = "JStr ''7''" and payload = "JObj []", THEN conjunct1, rule_format, OF ha]
      delayCharging_terminal_or_polled [where w = ?wb and answer = ?b and vid = "''YV1''"
          and loc = "JStr ''7''" and payload = "JObj []" and ref = "''/a/services/42''",
          THEN conjunct2, rule_format, OF hb, THEN conjunct2]
    by (simp add: seg)
qed

text \<open>
  Claim C8. A falsy service id (missing, \<open>undefined\<close>, \<open>null\<close>, empty) makes
  \<open>awaitSuccessfulServiceInvocation\<close> reject at once with the world untouched, so with no
  poll; an action whose submission is answered without \<open>customerServiceId\<close> is therefore
  rejected after the submission, with no further request and no timer.
\<close>

theorem missing_service_id_rejected:
  "(\<not> truthy serviceId \<longrightarrow>
      awaitSuccessfulServiceInvocation vid serviceId w = (Inl (Error ''ServiceId is null!''), w)) \<and>
   (submit w = (Inr answer, w1) \<and> answer \<noteq> JUndefined \<and> answer \<noteq> JNull \<and>
    \<not> truthy (js_prop answer ''customerServiceId'') \<longrightarrow>
      fst (invokeService submit vid completed w) = Inl (Error ''ServiceId is null!'') \<and>
      nreq (snd (invokeService submit vid completed w)) = nreq w1 \<and>
      requests_of (trace (snd (invokeService submit vid completed w))) = requests_of (trace w1) \<and>
      sleeps_of (trace (snd (invokeService submit vid completed w))) = sleeps_of (trace w1))"
  by (auto simp: awaitSuccessfulServiceInvocation_def invokeService_def js_get_def apiError_def
      effect_def)

theorem missing_service_id_rejected_witness:
  "awaitSuccessfulServiceInvocation ''YV1'' JUndefined (scripted [] (statusAnswer ''Successful'') (\<lambda>s. None)) =
     (Inl (Error ''ServiceId is null!''), scripted [] (statusAnswer ''Successful'') (\<lambda>s. None)) \<and>
   fst (VOC_startCharging ''YV1'' (scripted [Inr (JObj [])] (statusAnswer ''Successful'') (\<lambda>s. None))) =
     Inl (Error ''ServiceId is null!'') \<and>
   requests_of (trace (snd (VOC_startCharging ''YV1''
       (scripted [Inr (JObj [])] (statusAnswer ''Successful'') (\<lambda>s. None))))) =
     [POST (vehicle_overrideDelayCharging ''YV1'') (JBool True)]"
proof -
  let ?u = "scripted [] (statusAnswer ''Successful'') (\<lambda>s. None)"
  let ?v = "scripted [Inr (JObj [])] (statusAnswer ''Successful'') (\<lambda>s. None)"
  let ?submit = "postVOCCommand (vehicle_overrideDelayCharging ''YV1'') JNull"
  let ?v1 = "issue (POST (vehicle_overrideDelayCharging ''YV1'') (JBool True)) ?v"
  have f: "\<not> truthy JUndefined" by simp
  have h: "?submit ?v = (Inr (JObj []), ?v1) \<and> JObj [] \<noteq> JUndefined \<and> JObj [] \<noteq> JNull \<and>
           \<not> truthy (js_prop (JObj []) ''customerServiceId'')"
    by (simp add: postVOCCommand_def http_def scripted_def)
  have r: "requests_of (trace ?v1) = [POST (vehicle_overrideDelayCharging ''YV1'') (JBool True)]"
    by (simp add: issue_def effect_def scripted_def)
  show ?thesis
    using missing_service_id_rejected [where serviceId = JUndefined and vid = "''YV1''" and w = ?u,
        THEN conjunct1, rule_format, OF f]
      missing_service_id_rejected [where submit = ?submit and w = ?v and answer = "JObj []"
        and ?w1.0 = ?v1 and vid = "''YV1''" and completed = "actionStatus ''startCharging''",
        THEN conjunct2, rule_format, OF h]
      r
    by (simp add: VOC_startCharging_def)
qed

lemma await_flag_reset:
  "awaitSuccessfulServiceInvocation vid sid w = (Inr r, w') \<Longrightarrow> \<not> serviceInvocationSuccess w'"
  by (auto simp: awaitSuccessfulServiceInvocation_def split: if_splits prod.splits sum.splits)

lemma await_flag_own:
  assumes "\<not> serviceInvocationSuccess w"
  shows "\<not> serviceInvocationSuccess (snd (awaitSuccessfulServiceInvocation vid sid w))"
    and "fst (awaitSuccessfulServiceInvocation vid sid w) = Inr True \<Longrightarrow>
         \<exists>k<15. pollAnswer w k = Some (JStr ''Successful'')"
proof -
  obtain r w1 where eq: "runFor (getServiceInvocationStatus vid sid) 1000 w = (r, w1)"
    by fastforce
  have fl: "serviceInvocationSuccess w1 \<Longrightarrow> \<exists>k<15. pollAnswer w k = Some (JStr ''Successful'')"
    using runFor_loop_flag [of vid sid 1000 False 0 w] eq assms by (simp add: runFor_def)
  show "\<not> serviceInvocationSuccess (snd (awaitSuccessfulServiceInvocation vid sid w))"
  proof (cases r)
    case (Inl e)
    have "\<not> serviceInvocationSuccess w1"
    proof
      assume s: "serviceInvocationSuccess w1"
      then obtain k where k: "k < 15" "pollAnswer w k = Some (JStr ''Successful'')" using fl by blast
      define m where "m = (LEAST i. \<not> pending (pollAnswer w i))"
      have npk: "\<not> pending (pollAnswer w k)" using k(2) by (simp add: pending_def)
      then have nm: "\<not> pending (pollAnswer w m)" unfolding m_def by (rule LeastI)
      have mk: "m \<le> k" unfolding m_def using npk by (rule Least_le)
      have pre: "\<forall>j<m. pending (pollAnswer w j)"
        unfolding m_def using not_less_Least by blast
      have m15: "m < 15" using mk k(1) by simp
      consider (s) "pollAnswer w m = Some (JStr ''Successful'')"
        | (f) "pollAnswer w m = Some (JStr ''Failed'')"
        | (n) "pollAnswer w m = None"
        using nm by (auto simp: pending_def split: option.splits)
      then show False
      proof cases
        case s
        then show False using runFor_first_terminal(1) [OF pre m15, of vid sid 1000] eq Inl by auto
      next
        case f
        then show False using runFor_first_terminal(2) [OF pre m15, of vid sid 1000] eq Inl by auto
      next
        case n
        then show False using runFor_first_terminal(3) [OF pre m15, of vid sid 1000] eq assms \<open>serviceInvocationSuccess w1\<close> by auto
      qed
    qed
    then show ?thesis using eq Inl assms
      by (simp add: awaitSuccessfulServiceInvocation_def)
  next
    case (Inr u)
    then show ?thesis using eq assms
      by (simp add: awaitSuccessfulServiceInvocation_def)
  qed
  show "fst (awaitSuccessfulServiceInvocation vid sid w) = Inr True \<Longrightarrow>
         \<exists>k<15. pollAnswer w k = Some (JStr ''Successful'')"
    using fl eq by (cases r) (auto simp: awaitSuccessfulServiceInvocation_def split: if_splits)
qed

lemma await_successful:
  assumes "truthy sid" and "\<forall>j<k. pending (pollAnswer w j)" and "k < 15"
    and "pollAnswer w k = Some (JStr ''Successful'')"
  shows "\<exists>w'. awaitSuccessfulServiceInvocation vid sid w = (Inr True, w') \<and>
              polled vid sid 1000 (k + 1) w w' \<and> \<not> serviceInvocationSuccess w'"
proof -
  obtain w1 where
    r: "runFor (getServiceInvocationStatus vid sid) 1000 w = (Inr (), w1)"
    and p: "polled vid sid 1000 (k + 1) w w1" and f: "serviceInvocationSuccess w1"
    using runFor_first_terminal(1) [OF assms(2,3,4), of vid sid 1000] by blast
  show ?thesis
    using await_resolves [OF assms(1) r] f polled_flag_update [OF p] by auto
qed

lemma await_unsuccessful:
  assumes "truthy sid" and "\<not> serviceInvocationSuccess w"
  shows "\<forall>j<k. pending (pollAnswer w j) \<Longrightarrow> k < 15 \<Longrightarrow> pollAnswer w k = Some (JStr ''Failed'') \<Longrightarrow>
         \<exists>w'. awaitSuccessfulServiceInvocation vid sid w = (Inr False, w') \<and>
              polled vid sid 1000 (k + 1) w w' \<and> \<not> serviceInvocationSuccess w'"
    and "\<forall>j<15. pending (pollAnswer w j) \<Longrightarrow>
         \<exists>w'. awaitSuccessfulServiceInvocation vid sid w = (Inr False, w') \<and>
              polled vid sid 1000 15 w w' \<and> \<not> serviceInvocationSuccess w'"
proof -
  assume a: "\<forall>j<k. pending (pollAnswer w j)" "k < 15" "pollAnswer w k = Some (JStr ''Failed'')"
  obtain w1 where
    r: "runFor (getServiceInvocationStatus vid sid) 1000 w = (Inr (), w1)"
    and p: "polled vid sid 1000 (k + 1) w w1"
    and f: "serviceInvocationSuccess w1 = serviceInvocationSuccess w"
    using runFor_first_terminal(2) [OF a, of vid sid 1000] by blast
  show "\<exists>w'. awaitSuccessfulServiceInvocation vid sid w = (Inr False, w') \<and>
              polled vid sid 1000 (k + 1) w w' \<and> \<not> serviceInvocationSuccess w'"
    using await_resolves [OF assms(1) r] f assms(2) polled_flag_update [OF p] by auto
next
  assume a: "\<forall>j<15. pending (pollAnswer w j)"
  obtain w1 where
    r: "runFor (getServiceInvocationStatus vid sid) 1000 w = (Inr (), w1)"
    and p: "polled vid sid 1000 15 w w1"
    and f: "serviceInvocationSuccess w1 = serviceInvocationSuccess w"
    using runFor_all_pending [OF a, of vid sid 1000] by blast
  show "\<exists>w'. awaitSuccessfulServiceInvocation vid sid w = (Inr False, w') \<and>
              polled vid sid 1000 15 w w' \<and> \<not> serviceInvocationSuccess w'"
    using await_resolves [OF assms(1) r] f assms(2) polled_flag_update [OF p] by auto
qed

lemma invocations_Cons:
  "invocations ((vid, sid) # rest) w =
     (fst (awaitSuccessfulServiceInvocation vid sid w) #
        fst (invocations rest (snd (awaitSuccessfulServiceInvocation vid sid w))),
      snd (invocations rest (snd (awaitSuccessfulServiceInvocation vid sid w))))"
  by (simp add: case_prod_unfold Let_def)

lemma invocations_flag:
  "\<not> serviceInvocationSuccess w \<Longrightarrow> \<not> serviceInvocationSuccess (snd (invocations xs w))"
proof (induction xs arbitrary: w)
  case Nil
  then show ?case by simp
next
  case (Cons x xs)
  obtain vid sid where x: "x = (vid, sid)" by (cases x)
  have "\<not> serviceInvocationSuccess (snd (awaitSuccessfulServiceInvocation vid sid w))"
    using await_flag_own(1) [OF Cons.prems] .
  then have "\<not> serviceInvocationSuccess
               (snd (invocations xs (snd (awaitSuccessfulServiceInvocation vid sid w))))"
    by (rule Cons.IH)
  then show ?case by (simp add: x invocations_Cons del: invocations.simps)
qed

lemma invocations_nth:
  "i < length xs \<Longrightarrow>
   fst (invocations xs w) ! i =
     fst (awaitSuccessfulServiceInvocation (fst (xs ! i)) (snd (xs ! i)) (snd (invocations (take i xs) w)))"
proof (induction xs arbitrary: i w)
  case Nil
  then show ?case by simp
next
  case (Cons x xs)
  obtain vid sid where x: "x = (vid, sid)" by (cases x)
  show ?case
  proof (cases i)
    case 0
    then show ?thesis by (simp add: x invocations_Cons del: invocations.simps(2))
  next
    case (Suc j)
    then have "j < length xs" using Cons.prems by simp
    then show ?thesis using Cons.IH [of j "snd (awaitSuccessfulServiceInvocation vid sid w)"] Suc
      by (simp add: x invocations_Cons del: invocations.simps(2))
  qed
qed

text \<open>
  Claim C10. The flag \<open>_serviceInvocationSuccess\<close> is false whenever
  \<open>awaitSuccessfulServiceInvocation\<close> resolves. Starting from the flag as the constructor
  sets it, after any sequence of invocations that do not overlap the flag is false again,
  and an invocation of the sequence resolves with \<open>true\<close> only if one of its own polls was
  answered \<open>Successful\<close>.
\<close>

theorem success_flag_reset:
  "(\<forall>r w'. awaitSuccessfulServiceInvocation vid sid w = (Inr r, w') \<longrightarrow> \<not> serviceInvocationSuccess w') \<and>
   (\<not> serviceInvocationSuccess w \<longrightarrow>
      \<not> serviceInvocationSuccess (snd (invocations xs w)) \<and>
      (\<forall>i<length xs. fst (invocations xs w) ! i = Inr True \<longrightarrow>
          (\<exists>k<15. pollAnswer (snd (invocations (take i xs) w)) k = Some (JStr ''Successful''))))"
proof (intro conjI allI impI)
  fix r w'
  assume "awaitSuccessfulServiceInvocation vid sid w = (Inr r, w')"
  then show "\<not> serviceInvocationSuccess w'" by (rule await_flag_reset)
next
  assume "\<not> serviceInvocationSuccess w"
  then show "\<not> serviceInvocationSuccess (snd (invocations xs w))" by (rule invocations_flag)
next
  fix i
  assume f: "\<not> serviceInvocationSuccess w" and i: "i < length xs"
    and t: "fst (invocations xs w) ! i = Inr True"
  have "\<not> serviceInvocationSuccess (snd (invocations (take i xs) w))"
    using f by (rule invocations_flag)
  moreover have "fst (awaitSuccessfulServiceInvocation (fst (xs ! i)) (snd (xs ! i))
                   (snd (invocations (take i xs) w))) = Inr True"
    using invocations_nth [OF i, of w] t by simp
  ultimately show "\<exists>k<15. pollAnswer (snd (invocations (take i xs) w)) k = Some (JStr ''Successful'')"
    by (rule await_flag_own(2))
qed

theorem success_flag_reset_witness:
  "fst (invocations [(''YV1'', JStr ''s1''), (''YV1'', JStr ''s2'')]
          (scripted [statusAnswer ''Successful''] (statusAnswer ''Pending'') (\<lambda>s. None))) =
     [Inr True, Inr False] \<and>
   \<not> serviceInvocationSuccess
       (snd (invocations [(''YV1'', JStr ''s1''), (''YV1'', JStr ''s2'')]
          (scripted [statusAnswer ''Successful''] (statusAnswer ''Pending'') (\<lambda>s. None)))) \<and>
   (\<exists>k<15. pollAnswer (scripted [statusAnswer ''Successful''] (statusAnswer ''Pending'') (\<lambda>s. None)) k =
       Some (JStr ''Successful''))"
proof -
  let ?u = "scripted [statusAnswer ''Successful''] (statusAnswer ''Pending'') (\<lambda>s. None)"
  let ?xs = "[(''YV1'', JStr ''s1''), (''YV1'', JStr ''s2'')]"
  have f: "\<not> serviceInvocationSuccess ?u" by (simp add: scripted_def)
  have a0: "pollAnswer ?u 0 = Some (JStr ''Successful'')"
    by (simp add: scripted_pollAnswer statusAnswer_def)
  have arest: "\<And>j. pollAnswer ?u (1 + j) = Some (JStr ''Pending'')"
    by (simp add: scripted_pollAnswer statusAnswer_def)
  obtain u1 where u1: "awaitSuccessfulServiceInvocation ''YV1'' (JStr ''s1'') ?u = (Inr True, u1)"
    and p1: "polled ''YV1'' (JStr ''s1'') 1000 (0 + 1) ?u u1" and f1: "\<not> serviceInvocationSuccess u1"
    using await_successful [of "JStr ''s1''" 0 ?u "''YV1''"] a0 by auto
  have "\<forall>j<15. pending (pollAnswer u1 j)"
    using pollAnswer_shift [OF p1] arest by (simp add: pending_def)
  then obtain u2 where u2: "awaitSuccessfulServiceInvocation ''YV1'' (JStr ''s2'') u1 = (Inr False, u2)"
    using await_unsuccessful(2) [of "JStr ''s2''" u1 "''YV1''"] f1 by auto
  have run: "fst (invocations ?xs ?u) = [Inr True, Inr False]"
    by (simp add: invocations_Cons u1 u2 del: invocations.simps(2))
  have i0: "0 < length ?xs" by simp
  have r0: "fst (invocations ?xs ?u) ! 0 = Inr True" by (simp only: run nth_Cons_0)
  have t0: "snd (invocations (take 0 ?xs) ?u) = ?u" by simp
  note inst = success_flag_reset [where w = ?u and xs = ?xs and vid = "''YV1''" and sid = "JStr ''s1''",
      THEN conjunct2, rule_format, OF f]
  have "\<not> serviceInvocationSuccess (snd (invocations ?xs ?u))"
    using inst [THEN conjunct1] .
  moreover have "\<exists>k<15. pollAnswer (snd (invocations (take 0 ?xs) ?u)) k = Some (JStr ''Successful'')"
    using inst [THEN conjunct2, rule_format, OF i0 r0] .
  ultimately show ?thesis using run t0 by (simp only: simp_thms)
qed

lemma requests_effect [simp]:
  "requests_of (trace (effect (Log a b) w)) = requests_of (trace w)"
  "requests_of (trace (effect (VocEmit ev x) w)) = requests_of (trace w)"
  "requests_of (trace (effect (CarEmit n ev) w)) = requests_of (trace w)"
  "requests_of (trace (effect (Sleep n) w)) = requests_of (trace w)"
  "requests_of (trace (effect (Request r) w)) = requests_of (trace w) @ [r]"
  by (simp_all add: effect_def)

lemma requests_log [simp]:
  "requests_of (trace (debug m w)) = requests_of (trace w)"
  "requests_of (trace (error m w)) = requests_of (trace w)"
  "requests_of (trace (emit c ev w)) = requests_of (trace w)"
  "requests_of (trace (apiError e w)) = requests_of (trace w)"
  "requests_of (trace (issue r w)) = requests_of (trace w) @ [r]"
  by (simp_all add: debug_def error_def emit_def apiError_def issue_def effect_def)

lemma await_requests:
  "\<exists>rest. requests_of (trace (snd (awaitSuccessfulServiceInvocation vid sid w))) =
          requests_of (trace w) @ rest"
  using await_polled [of sid vid w] by (auto simp: polled_def)

lemma getVehicleStatusFromCloud_requests:
  "requests_of (trace (snd (getVehicleStatusFromCloud c w))) =
     requests_of (trace w) @ [GET (vehicle_status (vehicleId c))]"
  by (auto simp: getVehicleStatusFromCloud_def VOC_getVehicleStatusFromCloud_def getVOCCommand_def
      http_def Let_def split: sum.splits)

lemma refreshVehicleStatusFromCar_requests:
  "\<exists>rest. requests_of (trace (snd (refreshVehicleStatusFromCar c w))) =
          requests_of (trace w) @ POST (vehicle_updatestatus (vehicleId c)) (JBool True) # rest"
proof -
  let ?w1 = "issue (POST (vehicle_updatestatus (vehicleId c)) (JBool True)) w"
  show ?thesis
  proof (cases "cloud w (nreq w)")
    case (Inl reason)
    then show ?thesis
      by (simp add: refreshVehicleStatusFromCar_def VOC_refreshVehicleStatusFromCar_def
          invokeService_def postVOCCommand_def http_def)
  next
    case (Inr answer)
    show ?thesis
    proof (cases "js_get answer ''customerServiceId''")
      case (Inl e)
      then show ?thesis using Inr
        by (simp add: refreshVehicleStatusFromCar_def VOC_refreshVehicleStatusFromCar_def
            invokeService_def postVOCCommand_def http_def)
    next
      case sid: (Inr sid)
      obtain r w2 where aw: "awaitSuccessfulServiceInvocation (vehicleId c) sid ?w1 = (r, w2)"
        by fastforce
      obtain rest where rest: "requests_of (trace w2) = requests_of (trace ?w1) @ rest"
        using await_requests [of "vehicleId c" sid ?w1] aw by auto
      show ?thesis
      proof (cases r)
        case (Inl e)
        then show ?thesis using Inr sid aw rest
          by (simp add: refreshVehicleStatusFromCar_def VOC_refreshVehicleStatusFromCar_def
              invokeService_def postVOCCommand_def http_def)
      next
        case res: (Inr res)
        then show ?thesis using Inr sid aw rest
          by (cases res)
             (simp_all add: refreshVehicleStatusFromCar_def VOC_refreshVehicleStatusFromCar_def
              invokeService_def postVOCCommand_def http_def Let_def
              getVehicleStatusFromCloud_requests)
      qed
    qed
  qed
qed

lemma carAction_requests:
  assumes "call (vehicleId c) w = (Inr res, w1)"
  shows "\<exists>rest. requests_of (trace (snd (carAction call result completed failed c w))) =
          requests_of (trace w1) @ POST (vehicle_updatestatus (vehicleId c)) (JBool True) # rest"
  using assms
    refreshVehicleStatusFromCar_requests [of c "emit c completed (debug result w1)"]
  by (simp add: carAction_def)

lemma carAction_rejected:
  assumes "call (vehicleId c) w = (Inl e, w1)"
  shows "carAction call result completed failed c w = (c, error failed w1)"
  using assms by (simp add: carAction_def)

text \<open>
  Claim C3. When the promise of \<open>delayCharging\<close> resolves, which includes every success,
  the vehicle calls \<open>getVehicleStatusFromCloud()\<close>: the one request that follows is the GET
  of the cloud's status, and no \<open>updatestatus\<close> is posted. When the promise of any other action
  method resolves (\<open>startCharging\<close>, \<open>lock\<close>, \<open>unlock\<close>, the heater and the preclimatization
  methods), the vehicle calls \<open>refreshVehicleStatusFromCar()\<close>: the next request is the POST
  of \<open>updatestatus\<close>. (\<open>lib/car.js\<close> in its current revision; the two earlier revisions of
  \<open>delayCharging\<close> in the source tree still called \<open>refreshVehicleStatusFromCar()\<close>.)
\<close>

theorem refresh_after_action:
  "(VOC_delayCharging (vehicleId c) loc (delayChargingPayload d s t) (debug ''delay charging at'' w)
      = (Inr r, w1) \<longrightarrow>
      requests_of (trace (snd (delayCharging c loc d s t w))) =
        requests_of (trace w1) @ [GET (vehicle_status (vehicleId c))]) \<and>
   (VOC_startCharging (vehicleId c) w = (Inr res, w1) \<longrightarrow>
      (\<exists>rest. requests_of (trace (snd (startCharging c w))) =
         requests_of (trace w1) @ POST (vehicle_updatestatus (vehicleId c)) (JBool True) # rest)) \<and>
   (VOC_lock (vehicleId c) w = (Inr res, w1) \<longrightarrow>
      (\<exists>rest. requests_of (trace (snd (lock c w))) =
         requests_of (trace w1) @ POST (vehicle_updatestatus (vehicleId c)) (JBool True) # rest)) \<and>
   (VOC_unlock (vehicleId c) w = (Inr res, w1) \<longrightarrow>
      (\<exists>rest. requests_of (trace (snd (unlock c w))) =
         requests_of (trace w1) @ POST (vehicle_updatestatus (vehicleId c)) (JBool True) # rest)) \<and>
   (VOC_startHeater (vehicleId c) w = (Inr res, w1) \<longrightarrow>
      (\<exists>rest. requests_of (trace (snd (startHeater c w))) =
         requests_of (trace w1) @ POST (vehicle_updatestatus (vehicleId c)) (JBool True) # rest)) \<and>
   (VOC_stopHeater (vehicleId c) w = (Inr res, w1) \<longrightarrow>
      (\<exists>rest. requests_of (trace (snd (stopHeater c w))) =
         requests_of (trace w1) @ POST (vehicle_updatestatus (vehicleId c)) (JBool True) # rest)) \<and>
   (VOC_startPreClimatization (vehicleId c) w = (Inr res, w1) \<longrightarrow>
      (\<exists>rest. requests_of (trace (snd (startPreclimatization c w))) =
         requests_of (trace w1) @ POST (vehicle_updatestatus (vehicleId c)) (JBool True) # rest)) \<and>
   (VOC_stopPreClimatization (vehicleId c) w = (Inr res, w1) \<longrightarrow>
      (\<exists>rest. requests_of (trace (snd (stopPreclimatization c w))) =
         requests_of (trace w1) @ POST (vehicle_updatestatus (vehicleId c)) (JBool True) # rest))"
proof (intro conjI impI)
  assume "VOC_delayCharging (vehicleId c) loc (delayChargingPayload d s t) (debug ''delay charging at'' w)
      = (Inr r, w1)"
  then show "requests_of (trace (snd (delayCharging c loc d s t w))) =
        requests_of (trace w1) @ [GET (vehicle_status (vehicleId c))]"
    by (simp add: delayCharging_def getVehicleStatusFromCloud_requests)
qed (simp_all add: startCharging_def lock_def unlock_def startHeater_def stopHeater_def
      startPreclimatization_def stopPreclimatization_def carAction_requests)

lemma invokeService_successful:
  assumes "cloud w (nreq w) = Inr answer" and "answer \<noteq> JUndefined" and "answer \<noteq> JNull"
    and "truthy (js_prop answer ''customerServiceId'')"
    and "pollAnswer w 1 = Some (JStr ''Successful'')"
  shows "fst (invokeService (postVOCCommand p data) vid completed w) = Inr True"
proof -
  let ?w1 = "issue (POST p (if truthy data then data else JBool True)) w"
  let ?sid = "js_prop answer ''customerServiceId''"
  have "pollAnswer ?w1 0 = Some (JStr ''Successful'')"
    using assms(5) by (simp add: pollAnswer_def issue_def effect_def)
  then obtain w2 where "awaitSuccessfulServiceInvocation vid ?sid ?w1 = (Inr True, w2)"
    using await_successful [of ?sid 0 ?w1 vid] assms(4) by auto
  then show ?thesis using assms(1,2,3)
    by (simp add: invokeService_def postVOCCommand_def http_def js_get_def)
qed

lemma resolved_collapse: "fst x = Inr r \<Longrightarrow> x = (Inr r, snd x)"
  by (cases x) simp

theorem refresh_after_action_witness:
  "requests_of (trace (snd (delayCharging (someCar ''YV1'' (JObj [])) (JStr ''7'') (JBool True)
       (JStr ''22:00'') (JStr ''06:00'')
       (scripted [Inr (JObj [(''status'', JStr ''Accepted'')])] (statusAnswer ''Successful'') (\<lambda>s. None))))) =
     [PUT (vehicle_chargeLocation ''YV1'' (JStr ''7''))
        (delayChargingPayload (JBool True) (JStr ''22:00'') (JStr ''06:00'')),
      GET (vehicle_status ''YV1'')] \<and>
   (\<exists>first rest.
      requests_of (trace (snd (startCharging (someCar ''YV1'' (JObj []))
        (scripted [Inr (JObj [(''customerServiceId'', JStr ''5'')])] (statusAnswer ''Successful'')
           (\<lambda>s. None))))) =
      first @ POST (vehicle_updatestatus ''YV1'') (JBool True) # rest) \<and>
   (\<exists>first rest.
      requests_of (trace (snd (lock (someCar ''YV1'' (JObj []))
        (scripted [Inr (JObj [(''customerServiceId'', JStr ''5'')])] (statusAnswer ''Successful'')
           (\<lambda>s. None))))) =
      first @ POST (vehicle_updatestatus ''YV1'') (JBool True) # rest) \<and>
   (\<exists>first rest.
      requests_of (trace (snd (unlock (someCar ''YV1'' (JObj []))
        (scripted [Inr (JObj [(''customerServiceId'', JStr ''5'')])] (statusAnswer ''Successful'')
           (\<lambda>s. None))))) =
      first @ POST (vehicle_updatestatus ''YV1'') (JBool True) # rest) \<and>
   (\<exists>first rest.
      requests_of (trace (snd (startHeater (someCar ''YV1'' (JObj []))
        (scripted [Inr (JObj [(''customerServiceId'', JStr ''5'')])] (statusAnswer ''Successful'')
           (\<lambda>s. None))))) =
      first @ POST (vehicle_updatestatus ''YV1'') (JBool True) # rest) \<and>
   (\<exists>first rest.
      requests_of (trace (snd (stopHeater (someCar ''YV1'' (JObj []))
        (scripted [Inr (JObj [(''customerServiceId'', JStr ''5'')])] (statusAnswer ''Successful'')
           (\<lambda>s. None))))) =
      first @ POST (vehicle_updatestatus ''YV1'') (JBool True) # rest) \<and>
   (\<exists>first rest.
      requests_of (trace (snd (startPreclimatization (someCar ''YV1'' (JObj []))
        (scripted [Inr (JObj [(''customerServiceId'', JStr ''5'')])] (statusAnswer ''Successful'')
           (\<lambda>s. None))))) =
      first @ POST (vehicle_updatestatus ''YV1'') (JBool True) # rest) \<and>
   (\<exists>first rest.
      requests_of (trace (snd (stopPreclimatization (someCar ''YV1'' (JObj []))
        (scripted [Inr (JObj [(''customerServiceId'', JStr ''5'')])] (statusAnswer ''Successful'')
           (\<lambda>s. None))))) =
      first @ POST (vehicle_updatestatus ''YV1'') (JBool True) # rest)"
proof -
  let ?c = "someCar ''YV1'' (JObj [])"
  let ?a = "JObj [(''status'', JStr ''Accepted'')]"
  let ?ud = "scripted [Inr ?a] (statusAnswer ''Successful'') (\<lambda>s. None)"
  let ?u = "scripted [Inr (JObj [(''customerServiceId'', JStr ''5'')])] (statusAnswer ''Successful'') (\<lambda>s. None)"
  let ?pl = "delayChargingPayload (JBool True) (JStr ''22:00'') (JStr ''06:00'')"
  have v: "vehicleId ?c = ''YV1''" by (simp add: someCar_def)
  have d: "VOC_delayCharging ''YV1'' (JStr ''7'') ?pl (debug ''delay charging at'' ?ud) =
             (Inr ?a, snd (VOC_delayCharging ''YV1'' (JStr ''7'') ?pl (debug ''delay charging at'' ?ud)))"
    by (rule resolved_collapse)
       (simp add: VOC_delayCharging_def putVOCCommand_def http_def js_get_def scripted_def
          debug_def effect_def)
  have dr: "requests_of (trace (snd (VOC_delayCharging ''YV1'' (JStr ''7'') ?pl (debug ''delay charging at'' ?ud)))) =
              [PUT (vehicle_chargeLocation ''YV1'' (JStr ''7'')) ?pl]"
    by (simp add: VOC_delayCharging_def putVOCCommand_def http_def js_get_def scripted_def
          debug_def effect_def issue_def actionStatus_def delayChargingPayload_def)
  have u1: "cloud ?u (nreq ?u) = Inr (JObj [(''customerServiceId'', JStr ''5'')])"
    by (simp add: scripted_def)
  have u2: "pollAnswer ?u 1 = Some (JStr ''Successful'')"
    by (simp add: scripted_pollAnswer statusAnswer_def)
  have ok: "\<And>p data completed.
     invokeService (postVOCCommand p data) ''YV1'' completed ?u =
       (Inr True, snd (invokeService (postVOCCommand p data) ''YV1'' completed ?u))"
    by (rule resolved_collapse) (rule invokeService_successful [OF u1 _ _ _ u2], simp_all)
  have h2: "VOC_startCharging ''YV1'' ?u = (Inr True, snd (VOC_startCharging ''YV1'' ?u))"
    unfolding VOC_startCharging_def by (rule ok)
  have h3: "VOC_lock ''YV1'' ?u = (Inr True, snd (VOC_lock ''YV1'' ?u))"
    unfolding VOC_lock_def by (rule ok)
  have h4: "VOC_unlock ''YV1'' ?u = (Inr True, snd (VOC_unlock ''YV1'' ?u))"
    unfolding VOC_unlock_def by (rule ok)
  have h5: "VOC_startHeater ''YV1'' ?u = (Inr True, snd (VOC_startHeater ''YV1'' ?u))"
    unfolding VOC_startHeater_def by (rule ok)
  have h6: "VOC_stopHeater ''YV1'' ?u = (Inr True, snd (VOC_stopHeater ''YV1'' ?u))"
    unfolding VOC_stopHeater_def by (rule ok)
  have h7: "VOC_startPreClimatization ''YV1'' ?u = (Inr True, snd (VOC_startPreClimatization ''YV1'' ?u))"
    unfolding VOC_startPreClimatization_def by (rule ok)
  have h8: "VOC_stopPreClimatization ''YV1'' ?u = (Inr True, snd (VOC_stopPreClimatization ''YV1'' ?u))"
    unfolding VOC_stopPreClimatization_def by (rule ok)
  note t = refresh_after_action [where c = ?c and w = ?u and res = True, unfolded v]
  have c1: "requests_of (trace (snd (delayCharging ?c (JStr ''7'') (JBool True) (JStr ''22:00'') (JStr ''06:00'') ?ud))) =
        [PUT (vehicle_chargeLocation ''YV1'' (JStr ''7'')) ?pl, GET (vehicle_status ''YV1'')]"
    using refresh_after_action [where c = ?c and w = ?ud and loc = "JStr ''7''" and d = "JBool True"
        and s = "JStr ''22:00''" and t = "JStr ''06:00''", unfolded v, THEN conjunct1, rule_format, OF d]
    by (simp add: dr)
  have c2: "\<exists>first rest. requests_of (trace (snd (startCharging ?c ?u))) =
        first @ POST (vehicle_updatestatus ''YV1'') (JBool True) # rest"
    using t [THEN conjunct2, THEN conjunct1, rule_format, OF h2]
    by blast
  have c3: "\<exists>first rest. requests_of (trace (snd (lock ?c ?u))) =
        first @ POST (vehicle_updatestatus ''YV1'') (JBool True) # rest"
    using t [THEN conjunct2, THEN conjunct2, THEN conjunct1, rule_format, OF h3]
    by blast
  have c4: "\<exists>first rest. requests_of (trace (snd (unlock ?c ?u))) =
        first @ POST (vehicle_updatestatus ''YV1'') (JBool True) # rest"
    using t [THEN conjunct2, THEN conjunct2, THEN conjunct2, THEN conjunct1, rule_format,
        OF h4]
    by blast
  have c5: "\<exists>first rest. requests_of (trace (snd (startHeater ?c ?u))) =
        first @ POST (vehicle_updatestatus ''YV1'') (JBool True) # rest"
    using t [THEN conjunct2, THEN conjunct2, THEN conjunct2, THEN conjunct2, THEN conjunct1,
        rule_format, OF h5]
    by blast
  have c6: "\<exists>first rest. requests_of (trace (snd (stopHeater ?c ?u))) =
        first @ POST (vehicle_updatestatus ''YV1'') (JBool True) # rest"
    using t [THEN conjunct2, THEN conjunct2, THEN conjunct2, THEN conjunct2, THEN conjunct2,
        THEN conjunct1, rule_format, OF h6]
    by blast
  have c7: "\<exists>first rest. requests_of (trace (snd (startPreclimatization ?c ?u))) =
        first @ POST (vehicle_updatestatus ''YV1'') (JBool True) # rest"
    using t [THEN conjunct2, THEN conjunct2, THEN conjunct2, THEN conjunct2, THEN conjunct2,
        THEN conjunct2, THEN conjunct1, rule_format, OF h7]
    by blast
  have c8: "\<exists>first rest. requests_of (trace (snd (stopPreclimatization ?c ?u))) =
        first @ POST (vehicle_updatestatus ''YV1'') (JBool True) # rest"
    using t [THEN conjunct2, THEN conjunct2, THEN conjunct2, THEN conjunct2, THEN conjunct2,
        THEN conjunct2, THEN conjunct2, rule_format, OF h8]
    by blast
  show ?thesis using c1 c2 c3 c4 c5 c6 c7 c8 by (intro conjI)
qed

lemma split_from_last:
  "sep \<notin> set xs \<Longrightarrow> split_from sep xs cur = [rev cur @ xs]"
  by (induction xs arbitrary: cur) auto

lemma split_from_segment:
  "sep \<notin> set xs \<Longrightarrow> split_from sep (xs @ sep # ys) cur = (rev cur @ xs) # split_from sep ys []"
  by (induction xs arbitrary: cur) auto

lemma split_command_topic:
  assumes "CHR ''/'' \<notin> set vid" and "CHR ''/'' \<notin> set command"
  shows "split (''volvooncall/'' @ vid @ ''/'' @ command) (CHR ''/'') = [''volvooncall'', vid, command]"
proof -
  have "split_from (CHR ''/'') (''volvooncall'' @ CHR ''/'' # (vid @ CHR ''/'' # command)) [] =
        ''volvooncall'' # split_from (CHR ''/'') (vid @ CHR ''/'' # command) []"
    by (subst split_from_segment) simp_all
  also have "split_from (CHR ''/'') (vid @ CHR ''/'' # command) [] =
             vid # split_from (CHR ''/'') command []"
    using assms(1) by (subst split_from_segment) simp_all
  also have "split_from (CHR ''/'') command [] = [command]"
    using assms(2) by (simp add: split_from_last)
  finally show ?thesis by (simp add: split_def)
qed

lemma VOC_delayCharging_requests:
  "\<exists>rest. requests_of (trace (snd (VOC_delayCharging vid loc payload w))) =
     requests_of (trace w) @ PUT (vehicle_chargeLocation vid loc) (if truthy payload then payload else JBool True) # rest"
proof -
  let ?w1 = "issue (PUT (vehicle_chargeLocation vid loc) (if truthy payload then payload else JBool True)) w"
  have aw: "\<And>sid. \<exists>rest. requests_of (trace (snd (awaitSuccessfulServiceInvocation vid sid ?w1))) =
          requests_of (trace ?w1) @ rest"
    by (rule await_requests)
  show ?thesis
  proof (cases "cloud w (nreq w)")
    case (Inl reason)
    then show ?thesis by (simp add: VOC_delayCharging_def putVOCCommand_def http_def)
  next
    case (Inr answer)
    show ?thesis
    proof (cases "js_get answer ''service''")
      case (Inl e)
      then show ?thesis using Inr by (simp add: VOC_delayCharging_def putVOCCommand_def http_def)
    next
      case service: (Inr service)
      show ?thesis
      proof (cases "truthy service")
        case False
        then show ?thesis using Inr service
          by (simp add: VOC_delayCharging_def putVOCCommand_def http_def actionStatus_def)
      next
        case True
        show ?thesis
        proof (cases "js_lastSegment service")
          case (Inl e)
          then show ?thesis using Inr service True
            by (simp add: VOC_delayCharging_def putVOCCommand_def http_def)
        next
          case sid: (Inr sid)
          obtain r w2 where eq: "awaitSuccessfulServiceInvocation vid sid ?w1 = (r, w2)" by fastforce
          obtain rest where "requests_of (trace w2) = requests_of (trace ?w1) @ rest"
            using aw [of sid] eq by auto
          then show ?thesis using Inr service True sid eq
            by (cases r)
               (simp_all add: VOC_delayCharging_def putVOCCommand_def http_def actionStatus_def)
        qed
      qed
    qed
  qed
qed

lemma delayCharging_requests:
  "\<exists>rest. requests_of (trace (snd (delayCharging c loc d s t w))) =
     requests_of (trace w) @
       PUT (vehicle_chargeLocation (vehicleId c) loc) (delayChargingPayload d s t) # rest"
proof -
  let ?w0 = "debug ''delay charging at'' w"
  obtain r w1 where eq: "VOC_delayCharging (vehicleId c) loc (delayChargingPayload d s t) ?w0 = (r, w1)"
    by fastforce
  have t: "truthy (delayChargingPayload d s t)" by (simp add: delayChargingPayload_def)
  obtain rest where rest: "requests_of (trace w1) =
     requests_of (trace w) @ PUT (vehicle_chargeLocation (vehicleId c) loc) (delayChargingPayload d s t) # rest"
    using VOC_delayCharging_requests [of "vehicleId c" loc "delayChargingPayload d s t" ?w0] eq t
    by auto
  show ?thesis using eq rest
    by (cases r) (simp_all add: delayCharging_def getVehicleStatusFromCloud_requests)
qed

lemma logInfo_frame [simp]:
  "requests_of (trace (logInfo m w)) = requests_of (trace w)"
  "requests_of (trace (logError m w)) = requests_of (trace w)"
  "requests_of (trace (logDebug m w)) = requests_of (trace w)"
  "JSON_parse (logInfo m w) = JSON_parse w"
  by (simp_all add: logInfo_def logError_def logDebug_def effect_def)

text \<open>
  Claim C9. A \<open>delayCharging\<close> command for a known vehicle whose payload parses to
  \<open>params\<close> is submitted as a PUT to the charge location \<open>params.chargeLocation\<close> with the body
  \<open>{status: "Accepted", delayCharging: {enabled, startTime, stopTime}}\<close>, where \<open>startTime\<close>
  and \<open>stopTime\<close> are those of the command and \<open>enabled\<close> is \<open>params.delayedCharging || true\<close>,
  so \<open>true\<close> when \<open>delayedCharging\<close> is omitted. (\<open>app.js\<close> and \<open>lib/car.js\<close> in their current
  revisions; the earlier revisions of \<open>VocCar.delayCharging\<close> took three parameters.)
\<close>

theorem delayCharging_command_payload:
  assumes "CHR ''/'' \<notin> set vid"
    and "''volvooncall/'' @ vid @ ''/delayCharging'' \<noteq> hassTopic a"
    and "map_of (cars a) vid = Some c" and "vehicleId c = vid"
    and "JSON_parse w payload = Some params" and "params \<noteq> JNull" and "params \<noteq> JUndefined"
  shows "fst (handleMessage (''volvooncall/'' @ vid @ ''/delayCharging'') payload a w) = Inr () \<and>
         (\<exists>rest.
            requests_of (trace (snd (snd
              (handleMessage (''volvooncall/'' @ vid @ ''/delayCharging'') payload a w)))) =
            requests_of (trace w) @
              PUT (vehicle_chargeLocation vid (js_prop params ''chargeLocation''))
                (JObj [(''status'', JStr ''Accepted''),
                       (''delayCharging'',
                        JObj [(''enabled'',
                               if truthy (js_prop params ''delayedCharging'')
                               then js_prop params ''delayedCharging'' else JBool True),
                              (''startTime'', js_prop params ''startTime''),
                              (''stopTime'', js_prop params ''stopTime'')])]) # rest)"
proof -
  define topic where "topic = ''volvooncall/'' @ vid @ ''/delayCharging''"
  let ?w1 = "logInfo ''Delay charging'' w"
  let ?d = "js_or (js_prop params ''delayedCharging'') (JBool True)"
  have sp: "split topic (CHR ''/'') = [''volvooncall'', vid, ''delayCharging'']"
    unfolding topic_def using split_command_topic [OF assms(1), of "''delayCharging''"] by simp
  have nt: "topic \<noteq> hassTopic a" unfolding topic_def using assms(2) .
  have hm: "handleMessage topic payload a w = App_delayCharging vid payload a w"
    using nt by (simp add: handleMessage_def sp element_def key_of_def Let_def)
  obtain c1 w2 where run: "delayCharging c (js_prop params ''chargeLocation'') ?d
      (js_prop params ''startTime'') (js_prop params ''stopTime'') ?w1 = (c1, w2)"
    by fastforce
  have app: "App_delayCharging vid payload a w = (Inr (), a\<lparr>cars := obj_put vid c1 (cars a)\<rparr>, w2)"
    using assms(3,5,6,7) run
    by (simp add: App_delayCharging_def withCar_def js_get_def Let_def)
  obtain rest where "requests_of (trace w2) =
     requests_of (trace ?w1) @
       PUT (vehicle_chargeLocation (vehicleId c) (js_prop params ''chargeLocation''))
         (delayChargingPayload ?d (js_prop params ''startTime'') (js_prop params ''stopTime'')) # rest"
    using delayCharging_requests [of c "js_prop params ''chargeLocation''" ?d
        "js_prop params ''startTime''" "js_prop params ''stopTime''" ?w1] run by auto
  then show ?thesis
    unfolding topic_def [symmetric]
    using hm app assms(4) by (simp add: delayChargingPayload_def js_or_def)
qed

theorem delayCharging_command_payload_witness:
  "fst (handleMessage ''volvooncall/YV1/delayCharging'' ''{chargeLocation:7,startTime:22:00,stopTime:06:00}''
         (fleet [someCar ''YV1'' (JObj [])])
         (scripted [Inr (JObj [])] (statusAnswer ''Successful'')
            (\<lambda>s. if s = ''{chargeLocation:7,startTime:22:00,stopTime:06:00}''
                  then Some (JObj [(''chargeLocation'', JStr ''7''), (''startTime'', JStr ''22:00''),
                                   (''stopTime'', JStr ''06:00'')])
                  else None))) = Inr () \<and>
   (\<exists>rest.
      requests_of (trace (snd (snd
        (handleMessage ''volvooncall/YV1/delayCharging'' ''{chargeLocation:7,startTime:22:00,stopTime:06:00}''
           (fleet [someCar ''YV1'' (JObj [])])
           (scripted [Inr (JObj [])] (statusAnswer ''Successful'')
              (\<lambda>s. if s = ''{chargeLocation:7,startTime:22:00,stopTime:06:00}''
                    then Some (JObj [(''chargeLocation'', JStr ''7''), (''startTime'', JStr ''22:00''),
                                     (''stopTime'', JStr ''06:00'')])
                    else None)))))) =
      PUT (vehicle_chargeLocation ''YV1'' (JStr ''7''))
        (JObj [(''status'', JStr ''Accepted''),
               (''delayCharging'',
                JObj [(''enabled'', JBool True),
                      (''startTime'', JStr ''22:00''),
                      (''stopTime'', JStr ''06:00'')])]) # rest)"
proof -
  let ?params = "JObj [(''chargeLocation'', JStr ''7''), (''startTime'', JStr ''22:00''),
                       (''stopTime'', JStr ''06:00'')]"
  let ?parse = "\<lambda>s. if s = ''{chargeLocation:7,startTime:22:00,stopTime:06:00}'' then Some ?params else None"
  let ?u = "scripted [Inr (JObj [])] (statusAnswer ''Successful'') ?parse"
  let ?a = "fleet [someCar ''YV1'' (JObj [])]"
  have 1: "CHR ''/'' \<notin> set ''YV1''" by simp
  have 2: "''volvooncall/'' @ ''YV1'' @ ''/delayCharging'' \<noteq> hassTopic ?a" by (simp add: fleet_def)
  have 3: "map_of (cars ?a) ''YV1'' = Some (someCar ''YV1'' (JObj []))" by (simp add: fleet_def someCar_def)
  have 4: "vehicleId (someCar ''YV1'' (JObj [])) = ''YV1''" by (simp add: someCar_def)
  have 5: "JSON_parse ?u ''{chargeLocation:7,startTime:22:00,stopTime:06:00}'' = Some ?params"
    by (simp add: scripted_def)
  have 6: "?params \<noteq> JNull" "?params \<noteq> JUndefined" by simp_all
  have 7: "requests_of (trace ?u) = []" by (simp add: scripted_def)
  show ?thesis
    using delayCharging_command_payload [OF 1 2 3 4 5 6] 7 by simp
qed

lemma distanceTo_located:
  "located loc \<Longrightarrow> \<exists>d. distanceTo lat1 lon1 loc = Inr d \<and> chargeLocationId d = cl_id loc \<and>
      chargeLocationName d = cl_name loc"
  by (simp add: distanceTo_def located_def js_get_def)

lemma distancesTo_located:
  "\<forall>loc\<in>set locs. located loc \<Longrightarrow>
   \<exists>ds w1. distancesTo lat1 lon1 locs w = (Inr ds, w1) \<and>
     map chargeLocationId ds = map cl_id locs \<and>
     map chargeLocationName ds = map cl_name locs \<and>
     requests_of (trace w1) = requests_of (trace w) \<and>
     (\<exists>logs. trace w1 = trace w @ logs \<and> (\<forall>e\<in>set logs. \<exists>m. e = Log ''car:debug'' m))"
proof (induction locs arbitrary: w)
  case Nil
  then show ?case by simp
next
  case (Cons loc locs)
  let ?w1 = "debug ''Calculate distance from'' w"
  obtain d where d: "distanceTo lat1 lon1 loc = Inr d" "chargeLocationId d = cl_id loc"
    "chargeLocationName d = cl_name loc"
    using distanceTo_located [of loc lat1 lon1] Cons.prems by auto
  obtain ds w2 logs where r: "distancesTo lat1 lon1 locs ?w1 = (Inr ds, w2)"
    "map chargeLocationId ds = map cl_id locs" "map chargeLocationName ds = map cl_name locs"
    "requests_of (trace w2) = requests_of (trace ?w1)"
    "trace w2 = trace ?w1 @ logs" "\<forall>e\<in>set logs. \<exists>m. e = Log ''car:debug'' m"
    using Cons.IH [of ?w1] Cons.prems by auto
  have "trace w2 = trace w @ (Log ''car:debug'' ''Calculate distance from'' # logs)"
    using r(5) by (simp add: debug_def effect_def)
  moreover have "\<forall>e\<in>set (Log ''car:debug'' ''Calculate distance from'' # logs). \<exists>m. e = Log ''car:debug'' m"
    using r(6) by simp
  ultimately show ?case using d r(1-4) by (auto simp: Let_def)
qed

lemma distancesTo_length:
  "distancesTo lat1 lon1 locs w = (Inr ds, w1) \<Longrightarrow> length ds = length locs"
  by (induction locs arbitrary: w ds w1) (auto simp: Let_def split: sum.splits prod.splits)

lemma updateDistances_never_partial:
  "fst (snd (updateDistances c w)) = c \<or>
   (\<exists>ds. fst (snd (updateDistances c w)) = c\<lparr>distances := ds\<rparr> \<and>
         length ds = length (chargeLocations c))"
proof (cases "js_get (position c) ''latitude''")
  case (Inl e)
  then show ?thesis by (simp add: updateDistances_def)
next
  case (Inr lat1)
  let ?lon1 = "js_prop (position c) ''longitude''"
  show ?thesis
  proof (cases "\<not> truthy lat1 \<or> \<not> truthy ?lon1")
    case True
    then show ?thesis using Inr by (auto simp: updateDistances_def Let_def)
  next
    case False
    obtain r w1 where eq: "distancesTo lat1 ?lon1 (map snd (chargeLocations c)) w = (r, w1)"
      by fastforce
    show ?thesis
    proof (cases r)
      case (Inl e)
      then show ?thesis using Inr False eq by (simp add: updateDistances_def Let_def)
    next
      case ds: (Inr ds)
      then have "length ds = length (chargeLocations c)"
        using distancesTo_length eq by fastforce
      then have "\<exists>dsa. c\<lparr>distances := ds\<rparr> = c\<lparr>distances := dsa\<rparr> \<and>
                  length dsa = length (chargeLocations c)"
        by blast
      then show ?thesis using Inr False eq ds by (simp add: updateDistances_def Let_def)
    qed
  qed
qed

lemma validPosition_latitude:
  "validPosition c \<Longrightarrow> js_get (position c) ''latitude'' = Inr (js_prop (position c) ''latitude'')"
  by (cases "position c") (auto simp: validPosition_def js_get_def)

text \<open>
  Claim C4 as stated fails: with a valid position and no charge location cached,
  \<open>updateDistances\<close> is not a no-op. It replaces a non-empty list of distances by the empty
  list and emits \<open>distances_updated\<close>.
\<close>

theorem updateDistances_counterexample:
  "chargeLocations
     ((someCar ''YV1'' (JObj []))
        \<lparr>position := JObj [(''latitude'', JNum 60), (''longitude'', JNum 25)],
         distances := [\<lparr>chargeLocationId = ''7'', chargeLocationName = ''Home'',
                         distanceToChargeLocation = Some 0,
                         currentPosition_latitude = JNum 60,
                         currentPosition_longitude = JNum 25\<rparr>]\<rparr>) = [] \<and>
   distances (fst (snd (updateDistances
     ((someCar ''YV1'' (JObj []))
        \<lparr>position := JObj [(''latitude'', JNum 60), (''longitude'', JNum 25)],
         distances := [\<lparr>chargeLocationId = ''7'', chargeLocationName = ''Home'',
                         distanceToChargeLocation = Some 0,
                         currentPosition_latitude = JNum 60,
                         currentPosition_longitude = JNum 25\<rparr>]\<rparr>)
     (scripted [] (statusAnswer ''Pending'') (\<lambda>s. None))))) = [] \<and>
   trace (snd (snd (updateDistances
     ((someCar ''YV1'' (JObj []))
        \<lparr>position := JObj [(''latitude'', JNum 60), (''longitude'', JNum 25)],
         distances := [\<lparr>chargeLocationId = ''7'', chargeLocationName = ''Home'',
                         distanceToChargeLocation = Some 0,
                         currentPosition_latitude = JNum 60,
                         currentPosition_longitude = JNum 25\<rparr>]\<rparr>)
     (scripted [] (statusAnswer ''Pending'') (\<lambda>s. None))))) =
     [Log ''car:debug'' ''Distances updated'', CarEmit 0 ''distances_updated'']"
  by (simp add: updateDistances_def someCar_def js_get_def scripted_def debug_def emit_def
      effect_def Let_def)

text \<open>
  Claim C4, amended. \<open>updateDistances\<close> is a no-op (vehicle and world unchanged, no event)
  unless the cached position has a truthy latitude and longitude. With such a position it
  replaces the list of distances wholesale by one entry for every cached charge location, in
  their order (the empty list when none is cached), issues no request and emits
  \<open>distances_updated\<close>. In every case, a throwing run included, the list afterwards is the old
  one or a complete new one: never a partial update.
\<close>

theorem updateDistances_wholesale:
  "(position c \<noteq> JUndefined \<and> position c \<noteq> JNull \<and> \<not> validPosition c \<longrightarrow>
      updateDistances c w = (Inr (), c, w)) \<and>
   (validPosition c \<and> (\<forall>loc\<in>set (map snd (chargeLocations c)). located loc) \<longrightarrow>
      (\<exists>ds w1. updateDistances c w =
                 (Inr (), c\<lparr>distances := ds\<rparr>, effect (CarEmit (oid c) ''distances_updated'') w1) \<and>
               map chargeLocationId ds = map (\<lambda>(k, loc). cl_id loc) (chargeLocations c) \<and>
               requests_of (trace w1) = requests_of (trace w))) \<and>
   (fst (snd (updateDistances c w)) = c \<or>
    (\<exists>ds. fst (snd (updateDistances c w)) = c\<lparr>distances := ds\<rparr> \<and>
          length ds = length (chargeLocations c)))"
proof (intro conjI impI)
  assume "position c \<noteq> JUndefined \<and> position c \<noteq> JNull \<and> \<not> validPosition c"
  then show "updateDistances c w = (Inr (), c, w)"
    by (auto simp: updateDistances_def validPosition_def js_get_def Let_def)
next
  assume h: "validPosition c \<and> (\<forall>loc\<in>set (map snd (chargeLocations c)). located loc)"
  let ?lat = "js_prop (position c) ''latitude''"
  let ?lon = "js_prop (position c) ''longitude''"
  obtain ds w1 where r: "distancesTo ?lat ?lon (map snd (chargeLocations c)) w = (Inr ds, w1)"
    "map chargeLocationId ds = map cl_id (map snd (chargeLocations c))"
    "requests_of (trace w1) = requests_of (trace w)"
    using distancesTo_located [of "map snd (chargeLocations c)" ?lat ?lon w] h by blast
  have "updateDistances c w =
          (Inr (), c\<lparr>distances := ds\<rparr>,
           effect (CarEmit (oid c) ''distances_updated'') (debug ''Distances updated'' w1))"
    using h r(1) validPosition_latitude [of c]
    by (simp add: updateDistances_def validPosition_def Let_def emit_def)
  moreover have "map chargeLocationId ds = map (\<lambda>(k, loc). cl_id loc) (chargeLocations c)"
    using r(2) by (simp add: case_prod_unfold comp_def)
  moreover have "requests_of (trace (debug ''Distances updated'' w1)) = requests_of (trace w)"
    using r(3) by simp
  ultimately show "\<exists>ds w1. updateDistances c w =
                 (Inr (), c\<lparr>distances := ds\<rparr>, effect (CarEmit (oid c) ''distances_updated'') w1) \<and>
               map chargeLocationId ds = map (\<lambda>(k, loc). cl_id loc) (chargeLocations c) \<and>
               requests_of (trace w1) = requests_of (trace w)"
    by blast
next
  show "fst (snd (updateDistances c w)) = c \<or>
    (\<exists>ds. fst (snd (updateDistances c w)) = c\<lparr>distances := ds\<rparr> \<and>
          length ds = length (chargeLocations c))"
    by (rule updateDistances_never_partial)
qed

theorem updateDistances_wholesale_witness:
  "updateDistances (someCar ''YV1'' (JObj [])) (scripted [] (statusAnswer ''Pending'') (\<lambda>s. None)) =
     (Inr (), someCar ''YV1'' (JObj []), scripted [] (statusAnswer ''Pending'') (\<lambda>s. None)) \<and>
   map chargeLocationId (distances (fst (snd (updateDistances
     ((someCar ''YV1'' (JObj []))
        \<lparr>position := JObj [(''latitude'', JNum 60), (''longitude'', JNum 25)],
         chargeLocations :=
           [(''7'', \<lparr>cl_id = ''7'', cl_name = ''Home, Main St'',
                     cl_location = JObj [(''position'', JObj [(''latitude'', JNum 61),
                                                              (''longitude'', JNum 25)])]\<rparr>)]\<rparr>)
     (scripted [] (statusAnswer ''Pending'') (\<lambda>s. None)))))) = [''7'']"
proof -
  let ?u = "scripted [] (statusAnswer ''Pending'') (\<lambda>s. None)"
  let ?c1 = "someCar ''YV1'' (JObj [])"
  let ?c2 = "(someCar ''YV1'' (JObj []))
        \<lparr>position := JObj [(''latitude'', JNum 60), (''longitude'', JNum 25)],
         chargeLocations :=
           [(''7'', \<lparr>cl_id = ''7'', cl_name = ''Home, Main St'',
                     cl_location = JObj [(''position'', JObj [(''latitude'', JNum 61),
                                                              (''longitude'', JNum 25)])]\<rparr>)]\<rparr>"
  have h1: "position ?c1 \<noteq> JUndefined \<and> position ?c1 \<noteq> JNull \<and> \<not> validPosition ?c1"
    by (simp add: someCar_def validPosition_def)
  have h2: "validPosition ?c2 \<and> (\<forall>loc\<in>set (map snd (chargeLocations ?c2)). located loc)"
    by (simp add: someCar_def validPosition_def located_def)
  have a: "updateDistances ?c1 ?u = (Inr (), ?c1, ?u)"
    using updateDistances_wholesale [of ?c1 ?u, THEN conjunct1, rule_format, OF h1] .
  obtain ds w1 where b: "updateDistances ?c2 ?u =
      (Inr (), ?c2\<lparr>distances := ds\<rparr>, effect (CarEmit (oid ?c2) ''distances_updated'') w1)"
    "map chargeLocationId ds = map (\<lambda>(k, loc). cl_id loc) (chargeLocations ?c2)"
    using updateDistances_wholesale [of ?c2 ?u, THEN conjunct2, THEN conjunct1, rule_format, OF h2]
    by blast
  have "distances (fst (snd (updateDistances ?c2 ?u))) = ds"
    by (simp only: b fst_conv snd_conv) simp
  moreover have "map chargeLocationId ds = [''7'']"
    using b(2) by (simp add: someCar_def)
  ultimately have "map chargeLocationId (distances (fst (snd (updateDistances ?c2 ?u)))) = [''7'']"
    by (simp only:)
  then show ?thesis using a by (intro conjI)
qed

lemma locationEntry_located:
  "locationEntry nts location = Inr entry \<Longrightarrow> located entry"
  by (auto simp: locationEntry_def located_def js_get_def Let_def split: sum.splits if_splits)

lemma obj_put_set: "x \<in> set (obj_put k v m) \<Longrightarrow> x = (k, v) \<or> x \<in> set m"
  by (induction m) (auto split: if_splits)

lemma locationEntries_located:
  "locationEntries nts xs acc = Inr m \<Longrightarrow> \<forall>loc\<in>set (map snd acc). located loc \<Longrightarrow>
   \<forall>loc\<in>set (map snd m). located loc"
proof (induction xs arbitrary: acc)
  case Nil
  then show ?case by simp
next
  case (Cons x xs)
  obtain entry where e: "locationEntry nts x = Inr entry"
    and rest: "locationEntries nts xs (obj_put (cl_id entry) entry acc) = Inr m"
    using Cons.prems(1) by (auto split: sum.splits)
  have "\<forall>loc\<in>set (map snd (obj_put (cl_id entry) entry acc)). located loc"
    using obj_put_set [of _ "cl_id entry" entry acc] locationEntry_located [OF e] Cons.prems(2)
    by fastforce
  then show ?case using Cons.IH [OF rest] by blast
qed

lemma updateChargeLocations_located:
  assumes "updateChargeLocations c locations w = (Inr u, c1, w1)"
  shows "\<forall>loc\<in>set (map snd (chargeLocations c1)). located loc"
proof (cases "\<exists>xs. locations = JArr xs")
  case True
  then obtain xs where xs: "locations = JArr xs" by blast
  then obtain m where m: "locationEntries (numberToString w) xs [] = Inr m"
    and c1: "c1 = c\<lparr>chargeLocations := m\<rparr>"
    using assms by (auto simp: updateChargeLocations_def Let_def split: sum.splits)
  have "\<forall>loc\<in>set (map snd m). located loc"
    using locationEntries_located [OF m] by simp
  then show ?thesis using c1 by simp
next
  case False
  then have "chargeLocations c1 = []"
    using assms
    by (cases locations) (auto simp: updateChargeLocations_def Let_def split: json.splits sum.splits if_splits)
  then show ?thesis by simp
qed

lemma distancesTo_requests:
  "requests_of (trace (snd (distancesTo lat1 lon1 locs w))) = requests_of (trace w)"
proof (induction locs arbitrary: w)
  case Nil
  then show ?case by simp
next
  case (Cons loc locs)
  let ?w1 = "debug ''Calculate distance from'' w"
  obtain r w2 where eq: "distancesTo lat1 lon1 locs ?w1 = (r, w2)" by fastforce
  have "requests_of (trace w2) = requests_of (trace w)"
    using Cons.IH [of ?w1] eq by simp
  then show ?case using eq
    by (cases "distanceTo lat1 lon1 loc"; cases r) (simp_all add: Let_def)
qed

lemma updateDistances_requests:
  "requests_of (trace (snd (snd (updateDistances c w)))) = requests_of (trace w)"
proof (cases "js_get (position c) ''latitude''")
  case (Inl e)
  then show ?thesis by (simp add: updateDistances_def)
next
  case (Inr lat1)
  let ?lon1 = "js_prop (position c) ''longitude''"
  obtain r w1 where eq: "distancesTo lat1 ?lon1 (map snd (chargeLocations c)) w = (r, w1)"
    by fastforce
  have "requests_of (trace w1) = requests_of (trace w)"
    using distancesTo_requests [of lat1 ?lon1 "map snd (chargeLocations c)" w] eq by simp
  then show ?thesis using Inr eq
    by (cases r) (auto simp: updateDistances_def Let_def)
qed

lemma updateDistances_fields:
  "vehicleId (fst (snd (updateDistances c w))) = vehicleId c"
  "attributes (fst (snd (updateDistances c w))) = attributes c"
  "position (fst (snd (updateDistances c w))) = position c"
  "oid (fst (snd (updateDistances c w))) = oid c"
  "chargeLocations (fst (snd (updateDistances c w))) = chargeLocations c"
  using updateDistances_never_partial [of c w] by auto

lemma getVehiclePosition_requests:
  "requests_of (trace (snd (getVehiclePosition c w))) =
     requests_of (trace w) @ [GET (vehicle_position (vehicleId c))]"
proof (cases "cloud w (nreq w)")
  case (Inl reason)
  then show ?thesis
    by (simp add: getVehiclePosition_def VOC_getVehiclePosition_def getVOCCommand_def http_def)
next
  case (Inr data)
  show ?thesis
  proof (cases "js_get data ''position''")
    case (Inl e)
    then show ?thesis using Inr
      by (simp add: getVehiclePosition_def VOC_getVehiclePosition_def getVOCCommand_def http_def)
  next
    case p: (Inr p)
    let ?c1 = "c\<lparr>position := p\<rparr>"
    let ?w2 = "emit ?c1 ''position_updated'' (debug ''Vehicle position''
                 (effect (VocEmit ''car_position_update'' (Inr p)) (issue (GET (vehicle_position (vehicleId c))) w)))"
    obtain r c2 w3 where eq: "updateDistances ?c1 ?w2 = (r, c2, w3)"
      by (metis prod_cases3)
    have "requests_of (trace w3) = requests_of (trace ?w2)"
      using updateDistances_requests [of ?c1 ?w2] eq by simp
    then show ?thesis using Inr p eq
      by (cases r)
         (simp_all add: getVehiclePosition_def VOC_getVehiclePosition_def getVOCCommand_def http_def Let_def)
  qed
qed

lemma getVehiclePosition_fields:
  "vehicleId (fst (getVehiclePosition c w)) = vehicleId c"
  "attributes (fst (getVehiclePosition c w)) = attributes c"
proof -
  have "vehicleId (fst (getVehiclePosition c w)) = vehicleId c \<and>
        attributes (fst (getVehiclePosition c w)) = attributes c"
  proof (cases "VOC_getVehiclePosition (vehicleId c) w")
    case (Pair r w1)
    show ?thesis
    proof (cases r)
      case (Inl e)
      then show ?thesis using Pair by (simp add: getVehiclePosition_def)
    next
      case (Inr p)
      let ?c1 = "c\<lparr>position := p\<rparr>"
      let ?w2 = "emit ?c1 ''position_updated'' (debug ''Vehicle position'' w1)"
      obtain r2 c2 w3 where eq: "updateDistances ?c1 ?w2 = (r2, c2, w3)"
        by (metis prod_cases3)
      have "vehicleId c2 = vehicleId c" "attributes c2 = attributes c"
        using updateDistances_fields(1,2) [of ?c1 ?w2] eq by simp_all
      then show ?thesis using Pair Inr eq
        by (cases r2) (simp_all add: getVehiclePosition_def Let_def)
    qed
  qed
  then show "vehicleId (fst (getVehiclePosition c w)) = vehicleId c"
    and "attributes (fst (getVehiclePosition c w)) = attributes c" by simp_all
qed

lemma map_of_obj_put: "map_of (obj_put k v m) = (map_of m)(k \<mapsto> v)"
  by (induction m) (auto simp: fun_eq_iff)

lemma list_all_obj_put:
  "list_all P m \<Longrightarrow> P (k, v) \<Longrightarrow> list_all P (obj_put k v m)"
  by (induction m) auto

lemma keyed_lookup:
  "list_all (\<lambda>(k, c). vehicleId c = k) m \<Longrightarrow> map_of m k = Some c \<Longrightarrow> vehicleId c = k"
  by (induction m) (auto split: if_splits)

lemma count_list_append: "count_list (xs @ ys) x = count_list xs x + count_list ys x"
  by (induction xs) auto

lemma pollPositions_skips:
  assumes "keyedById a" and "map_of (cars a) k = Some c"
    and "isPositionSupported c = Inr (JBool False)"
  shows "map_of (cars (fst (snd (pollPositions ks a w)))) k = Some c \<and>
         count_list (requests_of (trace (snd (snd (pollPositions ks a w))))) (GET (vehicle_position k)) =
         count_list (requests_of (trace w)) (GET (vehicle_position k))"
  using assms(1,2)
proof (induction ks arbitrary: a w)
  case Nil
  then show ?case by simp
next
  case (Cons k' ks)
  show ?case
  proof (cases "map_of (cars a) k'")
    case None
    then show ?thesis using Cons.prems by simp
  next
    case (Some c')
    show ?thesis
    proof (cases "isPositionSupported c'")
      case (Inl e)
      then show ?thesis using Some Cons.prems by simp
    next
      case (Inr locator)
      show ?thesis
      proof (cases "truthy locator")
        case False
        then show ?thesis using Some Inr Cons.IH [OF Cons.prems] by simp
      next
        case True
        have ne: "k' \<noteq> k"
        proof
          assume "k' = k"
          then have "c' = c" using Some Cons.prems(2) by simp
          then show False using Inr True assms(3) by auto
        qed
        obtain c1 w1 where run: "getVehiclePosition c' w = (c1, w1)" by fastforce
        let ?a1 = "a\<lparr>cars := obj_put k' c1 (cars a)\<rparr>"
        have wc: "withCar k' getVehiclePosition a w = (Inr (), ?a1, w1)"
          using Some run by (simp add: withCar_def)
        have vid: "vehicleId c' = k'"
          using keyed_lookup Cons.prems(1) Some by (simp add: keyedById_def)
        have "vehicleId c1 = k'"
          using getVehiclePosition_fields(1) [of c' w] run vid by simp
        then have k1: "keyedById ?a1"
          using Cons.prems(1) by (simp add: keyedById_def list_all_obj_put)
        have m1: "map_of (cars ?a1) k = Some c"
          using Cons.prems(2) ne by (simp add: map_of_obj_put)
        have "requests_of (trace w1) = requests_of (trace w) @ [GET (vehicle_position k')]"
          using getVehiclePosition_requests [of c' w] run vid by simp
        then have r1: "count_list (requests_of (trace w1)) (GET (vehicle_position k)) =
                       count_list (requests_of (trace w)) (GET (vehicle_position k))"
          using ne by (simp add: count_list_append)
        show ?thesis
          using Some Inr True wc Cons.IH [OF k1 m1, of w1] r1 by simp
      qed
    qed
  qed
qed

lemma updateChargeLocations_fields:
  "vehicleId (fst (snd (updateChargeLocations c locations w))) = vehicleId c"
  "attributes (fst (snd (updateChargeLocations c locations w))) = attributes c"
  "position (fst (snd (updateChargeLocations c locations w))) = position c"
  "requests_of (trace (snd (snd (updateChargeLocations c locations w)))) = requests_of (trace w)"
  by (auto simp: updateChargeLocations_def Let_def split: sum.splits)

lemma getVehicleChargeLocations_frame:
  "attributes (fst (snd (getVehicleChargeLocations c w))) = attributes c \<and>
   position (fst (snd (getVehicleChargeLocations c w))) = position c \<and>
   vehicleId (fst (snd (getVehicleChargeLocations c w))) = vehicleId c \<and>
   (requests_of (trace (snd (snd (getVehicleChargeLocations c w)))) = requests_of (trace w) \<or>
    requests_of (trace (snd (snd (getVehicleChargeLocations c w)))) =
      requests_of (trace w) @ [GET (vehicle_chargeLocations (vehicleId c))])"
proof (cases "isChargingSupported c")
  case (Inl e)
  then show ?thesis by (simp add: getVehicleChargeLocations_def)
next
  case (Inr supported)
  show ?thesis
  proof (cases "truthy supported")
    case False
    then show ?thesis using Inr by (simp add: getVehicleChargeLocations_def)
  next
    case True
    let ?w0 = "debug ''Getting charge locations'' w"
    obtain r w1 where voc: "VOC_getVehicleChargeLocations (vehicleId c) ?w0 = (r, w1)" by fastforce
    have rq: "requests_of (trace w1) = requests_of (trace w) @ [GET (vehicle_chargeLocations (vehicleId c))]"
      using voc
      by (auto simp: VOC_getVehicleChargeLocations_def getVOCCommand_def http_def Let_def
          split: sum.splits)
    show ?thesis
    proof (cases r)
      case (Inl err)
      then show ?thesis using Inr True voc rq by (simp add: getVehicleChargeLocations_def)
    next
      case locs: (Inr locations)
      obtain r1 c1 w2 where up: "updateChargeLocations c locations w1 = (r1, c1, w2)"
        by (metis prod_cases3)
      have f1: "attributes c1 = attributes c" "position c1 = position c" "vehicleId c1 = vehicleId c"
        "requests_of (trace w2) = requests_of (trace w1)"
        using updateChargeLocations_fields [of c locations w1] up by simp_all
      show ?thesis
      proof (cases r1)
        case (Inl e)
        then show ?thesis using Inr True voc locs up f1 rq by (simp add: getVehicleChargeLocations_def)
      next
        case u: (Inr u)
        let ?w3 = "emit c1 ''charge_locations_updated'' w2"
        obtain r2 c2 w4 where ud: "updateDistances c1 ?w3 = (r2, c2, w4)"
          by (metis prod_cases3)
        have f2: "attributes c2 = attributes c1" "position c2 = position c1" "vehicleId c2 = vehicleId c1"
          using updateDistances_fields(1,2,3) [of c1 ?w3] ud by simp_all
        have "requests_of (trace w4) = requests_of (trace ?w3)"
          using updateDistances_requests [of c1 ?w3] ud by simp
        then show ?thesis using Inr True voc locs up u ud f1 f2 rq
          by (cases r2) (simp_all add: getVehicleChargeLocations_def)
      qed
    qed
  qed
qed

lemma count_position_chargeLocations [simp]:
  "count_list [GET (vehicle_chargeLocations v)] (GET (vehicle_position p)) = 0"
  by simp

lemma on_attributes_updated_skips:
  assumes "isPositionSupported c = Inr (JBool False)"
  shows "position (fst (snd (on_attributes_updated c w))) = position c \<and>
         count_list (requests_of (trace (snd (snd (on_attributes_updated c w))))) (GET (vehicle_position p)) =
         count_list (requests_of (trace w)) (GET (vehicle_position p))"
proof -
  have nn: "attributes c \<noteq> JUndefined" "attributes c \<noteq> JNull"
    using assms by (auto simp: isPositionSupported_def capability_def js_get_def split: if_splits)
  then obtain charging where ch: "isChargingSupported c = Inr charging"
    by (simp add: isChargingSupported_def capability_def js_get_def)
  show ?thesis
  proof (cases "truthy charging")
    case False
    then show ?thesis using ch assms by (simp add: on_attributes_updated_def)
  next
    case True
    obtain r c1 w1 where g: "getVehicleChargeLocations c w = (r, c1, w1)"
      by (metis prod_cases3)
    have fr: "attributes c1 = attributes c" "position c1 = position c"
      "requests_of (trace w1) = requests_of (trace w) \<or>
       requests_of (trace w1) = requests_of (trace w) @ [GET (vehicle_chargeLocations (vehicleId c))]"
      using getVehicleChargeLocations_frame [of c w] g by simp_all
    have ps: "isPositionSupported c1 = Inr (JBool False)"
      using assms fr(1) by (simp add: isPositionSupported_def capability_def)
    have cnt: "count_list (requests_of (trace w1)) (GET (vehicle_position p)) =
               count_list (requests_of (trace w)) (GET (vehicle_position p))"
      using fr(3) by (auto simp: count_list_append)
    show ?thesis using ch True g ps fr(2) cnt
      by (cases r) (simp_all add: on_attributes_updated_def)
  qed
qed

text \<open>
  Claim C5 as stated fails: for a vehicle whose \<open>isPositionSupported()\<close> is false,
  \<open>getVehiclePosition()\<close> still asks the cloud for the position and stores the answer.
\<close>

theorem getVehiclePosition_counterexample:
  "isPositionSupported (someCar ''YV1'' (JObj [])) = Inr (JBool False) \<and>
   requests_of (trace (snd (getVehiclePosition (someCar ''YV1'' (JObj []))
     (scripted [Inr (JObj [(''position'', JObj [(''latitude'', JNum 60), (''longitude'', JNum 25)])])]
        (statusAnswer ''Pending'') (\<lambda>s. None))))) = [GET (vehicle_position ''YV1'')] \<and>
   position (fst (getVehiclePosition (someCar ''YV1'' (JObj []))
     (scripted [Inr (JObj [(''position'', JObj [(''latitude'', JNum 60), (''longitude'', JNum 25)])])]
        (statusAnswer ''Pending'') (\<lambda>s. None)))) =
     JObj [(''latitude'', JNum 60), (''longitude'', JNum 25)]"
  by (simp add: isPositionSupported_def capability_def js_get_def js_or_def someCar_def
      getVehiclePosition_def VOC_getVehiclePosition_def getVOCCommand_def http_def issue_def
      effect_def scripted_def updateDistances_def debug_def emit_def Let_def)

text \<open>
  Claim C5, amended. \<open>getVehiclePosition()\<close> itself always issues the position request; the
  capability check is in its two callers. For a vehicle whose \<open>isPositionSupported()\<close> is
  false, a tick of the position poller leaves the vehicle as it is and issues no position
  request for its id, and the vehicle's listener of \<open>attributes_updated\<close> leaves the cached
  position as it is and issues no position request at all.
\<close>

theorem position_fetch_guarded_by_callers:
  "requests_of (trace (snd (getVehiclePosition c w))) =
     requests_of (trace w) @ [GET (vehicle_position (vehicleId c))] \<and>
   (keyedById a \<and> map_of (cars a) k = Some c \<and> isPositionSupported c = Inr (JBool False) \<longrightarrow>
      map_of (cars (fst (snd (positionPoller a w)))) k = Some c \<and>
      count_list (requests_of (trace (snd (snd (positionPoller a w))))) (GET (vehicle_position k)) =
        count_list (requests_of (trace w)) (GET (vehicle_position k))) \<and>
   (isPositionSupported c = Inr (JBool False) \<longrightarrow>
      position (fst (snd (on_attributes_updated c w))) = position c \<and>
      count_list (requests_of (trace (snd (snd (on_attributes_updated c w))))) (GET (vehicle_position p)) =
        count_list (requests_of (trace w)) (GET (vehicle_position p)))"
  using getVehiclePosition_requests [of c w] pollPositions_skips [of a k c "map fst (cars a)" w]
    on_attributes_updated_skips [of c w p]
  by (simp add: positionPoller_def)

theorem position_fetch_guarded_by_callers_witness:
  "map_of (cars (fst (snd (positionPoller
      (fleet [someCar ''YV1'' (JObj []), someCar ''YV2'' (JObj [(''carLocatorSupported'', JBool True)])])
      (scripted [] (statusAnswer ''Pending'') (\<lambda>s. None)))))) ''YV1'' = Some (someCar ''YV1'' (JObj [])) \<and>
   count_list (requests_of (trace (snd (snd (positionPoller
      (fleet [someCar ''YV1'' (JObj []), someCar ''YV2'' (JObj [(''carLocatorSupported'', JBool True)])])
      (scripted [] (statusAnswer ''Pending'') (\<lambda>s. None))))))) (GET (vehicle_position ''YV1'')) = 0 \<and>
   position (fst (snd (on_attributes_updated (someCar ''YV1'' (JObj []))
      (scripted [] (statusAnswer ''Pending'') (\<lambda>s. None))))) = JObj [] \<and>
   count_list (requests_of (trace (snd (snd (on_attributes_updated (someCar ''YV1'' (JObj []))
      (scripted [] (statusAnswer ''Pending'') (\<lambda>s. None))))))) (GET (vehicle_position ''YV1'')) = 0"
proof -
  let ?c = "someCar ''YV1'' (JObj [])"
  let ?a = "fleet [someCar ''YV1'' (JObj []), someCar ''YV2'' (JObj [(''carLocatorSupported'', JBool True)])]"
  let ?u = "scripted [] (statusAnswer ''Pending'') (\<lambda>s. None)"
  have lacks: "isPositionSupported ?c = Inr (JBool False)"
    by (simp add: isPositionSupported_def capability_def js_get_def js_or_def someCar_def)
  have h: "keyedById ?a \<and> map_of (cars ?a) ''YV1'' = Some ?c \<and> isPositionSupported ?c = Inr (JBool False)"
    using lacks by (simp add: keyedById_def fleet_def someCar_def)
  have z: "requests_of (trace ?u) = []" by (simp add: scripted_def)
  have p: "position ?c = JObj []" by (simp add: someCar_def)
  note inst = position_fetch_guarded_by_callers [where c = ?c and a = ?a and k = "''YV1''" and w = ?u
      and p = "''YV1''"]
  show ?thesis
    using inst [THEN conjunct2, THEN conjunct1, rule_format, OF h]
      inst [THEN conjunct2, THEN conjunct2, rule_format, OF lacks] z p
    by simp
qed

lemma handleMessage_command:
  assumes "CHR ''/'' \<notin> set vid" and "CHR ''/'' \<notin> set command"
    and "''volvooncall/'' @ vid @ ''/'' @ command \<noteq> hassTopic a"
  shows "handleMessage (''volvooncall/'' @ vid @ ''/'' @ command) payload a w =
     (if command = ''startCharging'' then App_startCharging vid payload a w
      else if command = ''delayCharging'' then App_delayCharging vid payload a w
      else if command = ''lock'' then setLockState vid payload a w
      else if command = ''heater'' then setHeaterState vid payload a w
      else (Inr (), a, logError ''Unrecognized command'' w))"
proof -
  define topic where "topic = ''volvooncall/'' @ vid @ ''/'' @ command"
  have sp: "split topic (CHR ''/'') = [''volvooncall'', vid, command]"
    unfolding topic_def using split_command_topic [OF assms(1,2)] .
  have nt: "topic \<noteq> hassTopic a" unfolding topic_def using assms(3) .
  have "handleMessage topic payload a w =
     (if command = ''startCharging'' then App_startCharging vid payload a w
      else if command = ''delayCharging'' then App_delayCharging vid payload a w
      else if command = ''lock'' then setLockState vid payload a w
      else if command = ''heater'' then setHeaterState vid payload a w
      else (Inr (), a, logError ''Unrecognized command'' w))"
    using nt by (simp add: handleMessage_def sp element_def key_of_def Let_def)
  then show ?thesis unfolding topic_def .
qed

text \<open>
  Claim C6 as stated fails: a \<open>startCharging\<close> command for a vehicle id that is not in the
  fleet map makes \<open>handleMessage\<close> throw a TypeError, and a \<open>delayCharging\<close> payload that
  \<open>JSON.parse\<close> rejects makes it throw a SyntaxError.
\<close>

theorem handleMessage_counterexample:
  "fst (handleMessage ''volvooncall/NOPE/startCharging'' []
         (fleet [someCar ''YV1'' (JObj [])])
         (scripted [] (statusAnswer ''Pending'') (\<lambda>s. None))) = Inl TypeError \<and>
   fst (handleMessage ''volvooncall/YV1/delayCharging'' ''{''
         (fleet [someCar ''YV1'' (JObj [])])
         (scripted [] (statusAnswer ''Pending'') (\<lambda>s. None))) = Inl SyntaxError"
  by (simp add: handleMessage_def split_def element_def key_of_def fleet_def someCar_def
      App_startCharging_def App_delayCharging_def withCar_def logInfo_def effect_def scripted_def
      Let_def)

text \<open>
  Claim C6, amended. An unknown action (a topic whose third segment is none of the four
  commands) is logged and dropped: \<open>handleMessage\<close> returns, the fleet unchanged. So is a
  \<open>lock\<close> or \<open>heater\<close> command with an unrecognised payload. A recognised command for a vehicle
  id that is not in the fleet map throws a TypeError out of \<open>handleMessage\<close>, and a
  \<open>delayCharging\<close> payload that \<open>JSON.parse\<close> rejects throws a SyntaxError; in both cases only
  the log line of the handler has been written.
\<close>

theorem handleMessage_malformed:
  "(topic \<noteq> hassTopic a \<and>
    element (split topic (CHR ''/'')) 2 \<noteq> Some ''startCharging'' \<and>
    element (split topic (CHR ''/'')) 2 \<noteq> Some ''delayCharging'' \<and>
    element (split topic (CHR ''/'')) 2 \<noteq> Some ''lock'' \<and>
    element (split topic (CHR ''/'')) 2 \<noteq> Some ''heater'' \<longrightarrow>
      handleMessage topic payload a w = (Inr (), a, logError ''Unrecognized command'' w)) \<and>
   (CHR ''/'' \<notin> set vid \<and> ''volvooncall/'' @ vid @ ''/lock'' \<noteq> hassTopic a \<and>
    payload \<noteq> ''LOCK'' \<and> payload \<noteq> ''UNLOCK'' \<longrightarrow>
      handleMessage (''volvooncall/'' @ vid @ ''/lock'') payload a w =
        (Inr (), a, logError ''Unrecognized lock state'' (logInfo ''Set lock state'' w))) \<and>
   (CHR ''/'' \<notin> set vid \<and> ''volvooncall/'' @ vid @ ''/heater'' \<noteq> hassTopic a \<and>
    payload \<noteq> ''ON'' \<and> payload \<noteq> ''OFF'' \<longrightarrow>
      handleMessage (''volvooncall/'' @ vid @ ''/heater'') payload a w =
        (Inr (), a, logError ''Unrecognized heater state'' (logInfo ''Set heater state'' w))) \<and>
   (CHR ''/'' \<notin> set vid \<and> ''volvooncall/'' @ vid @ ''/startCharging'' \<noteq> hassTopic a \<and>
    map_of (cars a) vid = None \<longrightarrow>
      handleMessage (''volvooncall/'' @ vid @ ''/startCharging'') payload a w =
        (Inl TypeError, a, logInfo ''Start charging'' w)) \<and>
   (CHR ''/'' \<notin> set vid \<and> ''volvooncall/'' @ vid @ ''/lock'' \<noteq> hassTopic a \<and>
    map_of (cars a) vid = None \<and> (payload = ''LOCK'' \<or> payload = ''UNLOCK'') \<longrightarrow>
      handleMessage (''volvooncall/'' @ vid @ ''/lock'') payload a w =
        (Inl TypeError, a, logInfo ''Set lock state'' w)) \<and>
   (CHR ''/'' \<notin> set vid \<and> ''volvooncall/'' @ vid @ ''/heater'' \<noteq> hassTopic a \<and>
    map_of (cars a) vid = None \<and> (payload = ''ON'' \<or> payload = ''OFF'') \<longrightarrow>
      handleMessage (''volvooncall/'' @ vid @ ''/heater'') payload a w =
        (Inl TypeError, a, logInfo ''Set heater state'' w)) \<and>
   (CHR ''/'' \<notin> set vid \<and> ''volvooncall/'' @ vid @ ''/delayCharging'' \<noteq> hassTopic a \<and>
    map_of (cars a) vid = None \<and> JSON_parse w payload = Some params \<longrightarrow>
      handleMessage (''volvooncall/'' @ vid @ ''/delayCharging'') payload a w =
        (Inl TypeError, a, logInfo ''Delay charging'' w)) \<and>
   (CHR ''/'' \<notin> set vid \<and> ''volvooncall/'' @ vid @ ''/delayCharging'' \<noteq> hassTopic a \<and>
    JSON_parse w payload = None \<longrightarrow>
      handleMessage (''volvooncall/'' @ vid @ ''/delayCharging'') payload a w =
        (Inl SyntaxError, a, logInfo ''Delay charging'' w))"
proof (intro conjI impI)
  assume "topic \<noteq> hassTopic a \<and>
    element (split topic (CHR ''/'')) 2 \<noteq> Some ''startCharging'' \<and>
    element (split topic (CHR ''/'')) 2 \<noteq> Some ''delayCharging'' \<and>
    element (split topic (CHR ''/'')) 2 \<noteq> Some ''lock'' \<and>
    element (split topic (CHR ''/'')) 2 \<noteq> Some ''heater''"
  then show "handleMessage topic payload a w = (Inr (), a, logError ''Unrecognized command'' w)"
    by (simp add: handleMessage_def Let_def)
next
  assume "CHR ''/'' \<notin> set vid \<and> ''volvooncall/'' @ vid @ ''/lock'' \<noteq> hassTopic a \<and>
    payload \<noteq> ''LOCK'' \<and> payload \<noteq> ''UNLOCK''"
  then show "handleMessage (''volvooncall/'' @ vid @ ''/lock'') payload a w =
        (Inr (), a, logError ''Unrecognized lock state'' (logInfo ''Set lock state'' w))"
    using handleMessage_command [of vid "''lock''" a payload w]
    by (simp add: setLockState_def Let_def)
next
  assume "CHR ''/'' \<notin> set vid \<and> ''volvooncall/'' @ vid @ ''/heater'' \<noteq> hassTopic a \<and>
    payload \<noteq> ''ON'' \<and> payload \<noteq> ''OFF''"
  then show "handleMessage (''volvooncall/'' @ vid @ ''/heater'') payload a w =
        (Inr (), a, logError ''Unrecognized heater state'' (logInfo ''Set heater state'' w))"
    using handleMessage_command [of vid "''heater''" a payload w]
    by (simp add: setHeaterState_def Let_def)
next
  assume "CHR ''/'' \<notin> set vid \<and> ''volvooncall/'' @ vid @ ''/startCharging'' \<noteq> hassTopic a \<and>
    map_of (cars a) vid = None"
  then show "handleMessage (''volvooncall/'' @ vid @ ''/startCharging'') payload a w =
        (Inl TypeError, a, logInfo ''Start charging'' w)"
    using handleMessage_command [of vid "''startCharging''" a payload w]
    by (simp add: App_startCharging_def withCar_def)
next
  assume "CHR ''/'' \<notin> set vid \<and> ''volvooncall/'' @ vid @ ''/lock'' \<noteq> hassTopic a \<and>
    map_of (cars a) vid = None \<and> (payload = ''LOCK'' \<or> payload = ''UNLOCK'')"
  then show "handleMessage (''volvooncall/'' @ vid @ ''/lock'') payload a w =
        (Inl TypeError, a, logInfo ''Set lock state'' w)"
    using handleMessage_command [of vid "''lock''" a payload w]
    by (auto simp: setLockState_def withCar_def Let_def)
next
  assume "CHR ''/'' \<notin> set vid \<and> ''volvooncall/'' @ vid @ ''/heater'' \<noteq> hassTopic a \<and>
    map_of (cars a) vid = None \<and> (payload = ''ON'' \<or> payload = ''OFF'')"
  then show "handleMessage (''volvooncall/'' @ vid @ ''/heater'') payload a w =
        (Inl TypeError, a, logInfo ''Set heater state'' w)"
    using handleMessage_command [of vid "''heater''" a payload w]
    by (auto simp: setHeaterState_def heaterCommand_def Let_def)
next
  assume "CHR ''/'' \<notin> set vid \<and> ''volvooncall/'' @ vid @ ''/delayCharging'' \<noteq> hassTopic a \<and>
    map_of (cars a) vid = None \<and> JSON_parse w payload = Some params"
  then show "handleMessage (''volvooncall/'' @ vid @ ''/delayCharging'') payload a w =
        (Inl TypeError, a, logInfo ''Delay charging'' w)"
    using handleMessage_command [of vid "''delayCharging''" a payload w]
    by (simp add: App_delayCharging_def Let_def)
next
  assume "CHR ''/'' \<notin> set vid \<and> ''volvooncall/'' @ vid @ ''/delayCharging'' \<noteq> hassTopic a \<and>
    JSON_parse w payload = None"
  then show "handleMessage (''volvooncall/'' @ vid @ ''/delayCharging'') payload a w =
        (Inl SyntaxError, a, logInfo ''Delay charging'' w)"
    using handleMessage_command [of vid "''delayCharging''" a payload w]
    by (simp add: App_delayCharging_def Let_def)
qed

theorem handleMessage_malformed_witness:
  "handleMessage ''volvooncall/YV1/honk'' [] (fleet [someCar ''YV1'' (JObj [])])
     (scripted [] (statusAnswer ''Pending'') (\<lambda>s. if s = ''{}'' then Some (JObj []) else None)) =
     (Inr (), fleet [someCar ''YV1'' (JObj [])],
      logError ''Unrecognized command''
        (scripted [] (statusAnswer ''Pending'') (\<lambda>s. if s = ''{}'' then Some (JObj []) else None))) \<and>
   handleMessage (''volvooncall/'' @ ''YV1'' @ ''/lock'') ''OPEN'' (fleet [someCar ''YV1'' (JObj [])])
     (scripted [] (statusAnswer ''Pending'') (\<lambda>s. if s = ''{}'' then Some (JObj []) else None)) =
     (Inr (), fleet [someCar ''YV1'' (JObj [])],
      logError ''Unrecognized lock state'' (logInfo ''Set lock state''
        (scripted [] (statusAnswer ''Pending'') (\<lambda>s. if s = ''{}'' then Some (JObj []) else None)))) \<and>
   handleMessage (''volvooncall/'' @ ''YV1'' @ ''/heater'') ''WARM'' (fleet [someCar ''YV1'' (JObj [])])
     (scripted [] (statusAnswer ''Pending'') (\<lambda>s. if s = ''{}'' then Some (JObj []) else None)) =
     (Inr (), fleet [someCar ''YV1'' (JObj [])],
      logError ''Unrecognized heater state'' (logInfo ''Set heater state''
        (scripted [] (statusAnswer ''Pending'') (\<lambda>s. if s = ''{}'' then Some (JObj []) else None)))) \<and>
   handleMessage (''volvooncall/'' @ ''NOPE'' @ ''/startCharging'') [] (fleet [someCar ''YV1'' (JObj [])])
     (scripted [] (statusAnswer ''Pending'') (\<lambda>s. if s = ''{}'' then Some (JObj []) else None)) =
     (Inl TypeError, fleet [someCar ''YV1'' (JObj [])],
      logInfo ''Start charging''
        (scripted [] (statusAnswer ''Pending'') (\<lambda>s. if s = ''{}'' then Some (JObj []) else None))) \<and>
   handleMessage (''volvooncall/'' @ ''NOPE'' @ ''/lock'') ''LOCK'' (fleet [someCar ''YV1'' (JObj [])])
     (scripted [] (statusAnswer ''Pending'') (\<lambda>s. if s = ''{}'' then Some (JObj []) else None)) =
     (Inl TypeError, fleet [someCar ''YV1'' (JObj [])],
      logInfo ''Set lock state''
        (scripted [] (statusAnswer ''Pending'') (\<lambda>s. if s = ''{}'' then Some (JObj []) else None))) \<and>
   handleMessage (''volvooncall/'' @ ''NOPE'' @ ''/heater'') ''ON'' (fleet [someCar ''YV1'' (JObj [])])
     (scripted [] (statusAnswer ''Pending'') (\<lambda>s. if s = ''{}'' then Some (JObj []) else None)) =
     (Inl TypeError, fleet [someCar ''YV1'' (JObj [])],
      logInfo ''Set heater state''
        (scripted [] (statusAnswer ''Pending'') (\<lambda>s. if s = ''{}'' then Some (JObj []) else None))) \<and>
   handleMessage (''volvooncall/'' @ ''NOPE'' @ ''/delayCharging'') ''{}'' (fleet [someCar ''YV1'' (JObj [])])
     (scripted [] (statusAnswer ''Pending'') (\<lambda>s. if s = ''{}'' then Some (JObj []) else None)) =
     (Inl TypeError, fleet [someCar ''YV1'' (JObj [])],
      logInfo ''Delay charging''
        (scripted [] (statusAnswer ''Pending'') (\<lambda>s. if s = ''{}'' then Some (JObj []) else None))) \<and>
   handleMessage (''volvooncall/'' @ ''YV1'' @ ''/delayCharging'') ''{'' (fleet [someCar ''YV1'' (JObj [])])
     (scripted [] (statusAnswer ''Pending'') (\<lambda>s. if s = ''{}'' then Some (JObj []) else None)) =
     (Inl SyntaxError, fleet [someCar ''YV1'' (JObj [])],
      logInfo ''Delay charging''
        (scripted [] (statusAnswer ''Pending'') (\<lambda>s. if s = ''{}'' then Some (JObj []) else None)))"
proof -
  let ?a = "fleet [someCar ''YV1'' (JObj [])]"
  let ?u = "scripted [] (statusAnswer ''Pending'') (\<lambda>s. if s = ''{}'' then Some (JObj []) else None)"
  have ht: "hassTopic ?a = ''homeassistant/status''" by (simp add: fleet_def)
  have none: "map_of (cars ?a) ''NOPE'' = None" by (simp add: fleet_def someCar_def)
  have p1: "JSON_parse ?u ''{}'' = Some (JObj [])" by (simp add: scripted_def)
  have p2: "JSON_parse ?u ''{'' = None" by (simp add: scripted_def)
  have h1: "''volvooncall/YV1/honk'' \<noteq> hassTopic ?a \<and>
    element (split ''volvooncall/YV1/honk'' (CHR ''/'')) 2 \<noteq> Some ''startCharging'' \<and>
    element (split ''volvooncall/YV1/honk'' (CHR ''/'')) 2 \<noteq> Some ''delayCharging'' \<and>
    element (split ''volvooncall/YV1/honk'' (CHR ''/'')) 2 \<noteq> Some ''lock'' \<and>
    element (split ''volvooncall/YV1/honk'' (CHR ''/'')) 2 \<noteq> Some ''heater''"
    by (simp add: ht split_def element_def)
  have h2: "CHR ''/'' \<notin> set ''YV1'' \<and> ''volvooncall/'' @ ''YV1'' @ ''/lock'' \<noteq> hassTopic ?a \<and>
    ''OPEN'' \<noteq> ''LOCK'' \<and> ''OPEN'' \<noteq> ''UNLOCK''"
    by (simp add: ht)
  have h3: "CHR ''/'' \<notin> set ''YV1'' \<and> ''volvooncall/'' @ ''YV1'' @ ''/heater'' \<noteq> hassTopic ?a \<and>
    ''WARM'' \<noteq> ''ON'' \<and> ''WARM'' \<noteq> ''OFF''"
    by (simp add: ht)
  have h4: "CHR ''/'' \<notin> set ''NOPE'' \<and> ''volvooncall/'' @ ''NOPE'' @ ''/startCharging'' \<noteq> hassTopic ?a \<and>
    map_of (cars ?a) ''NOPE'' = None"
    by (simp add: ht none)
  have h5: "CHR ''/'' \<notin> set ''NOPE'' \<and> ''volvooncall/'' @ ''NOPE'' @ ''/lock'' \<noteq> hassTopic ?a \<and>
    map_of (cars ?a) ''NOPE'' = None \<and> (''LOCK'' = ''LOCK'' \<or> ''LOCK'' = ''UNLOCK'')"
    by (simp add: ht none)
  have h6: "CHR ''/'' \<notin> set ''NOPE'' \<and> ''volvooncall/'' @ ''NOPE'' @ ''/heater'' \<noteq> hassTopic ?a \<and>
    map_of (cars ?a) ''NOPE'' = None \<and> (''ON'' = ''ON'' \<or> ''ON'' = ''OFF'')"
    by (simp add: ht none)
  have h7: "CHR ''/'' \<notin> set ''NOPE'' \<and> ''volvooncall/'' @ ''NOPE'' @ ''/delayCharging'' \<noteq> hassTopic ?a \<and>
    map_of (cars ?a) ''NOPE'' = None \<and> JSON_parse ?u ''{}'' = Some (JObj [])"
    by (simp add: ht none p1)
  have h8: "CHR ''/'' \<notin> set ''YV1'' \<and> ''volvooncall/'' @ ''YV1'' @ ''/delayCharging'' \<noteq> hassTopic ?a \<and>
    JSON_parse ?u ''{'' = None"
    by (simp add: ht p2)
  note c1 = handleMessage_malformed [where topic = "''volvooncall/YV1/honk''" and a = ?a and w = ?u
      and payload = "[]", THEN conjunct1, rule_format, OF h1]
  note c2 = handleMessage_malformed [where vid = "''YV1''" and a = ?a and w = ?u and payload = "''OPEN''",
      THEN conjunct2, THEN conjunct1, rule_format, OF h2]
  note c3 = handleMessage_malformed [where vid = "''YV1''" and a = ?a and w = ?u and payload = "''WARM''",
      THEN conjunct2, THEN conjunct2, THEN conjunct1, rule_format, OF h3]
  note c4 = handleMessage_malformed [where vid = "''NOPE''" and a = ?a and w = ?u and payload = "[]",
      THEN conjunct2, THEN conjunct2, THEN conjunct2, THEN conjunct1, rule_format, OF h4]
  note c5 = handleMessage_malformed [where vid = "''NOPE''" and a = ?a and w = ?u and payload = "''LOCK''",
      THEN conjunct2, THEN conjunct2, THEN conjunct2, THEN conjunct2, THEN conjunct1, rule_format,
      OF h5]
  note c6 = handleMessage_malformed [where vid = "''NOPE''" and a = ?a and w = ?u and payload = "''ON''",
      THEN conjunct2, THEN conjunct2, THEN conjunct2, THEN conjunct2, THEN conjunct2,
      THEN conjunct1, rule_format, OF h6]
  note c7 = handleMessage_malformed [where vid = "''NOPE''" and a = ?a and w = ?u and payload = "''{}''"
      and params = "JObj []",
      THEN conjunct2, THEN conjunct2, THEN conjunct2, THEN conjunct2, THEN conjunct2,
      THEN conjunct2, THEN conjunct1, rule_format, OF h7]
  note c8 = handleMessage_malformed [where vid = "''YV1''" and a = ?a and w = ?u and payload = "''{''",
      THEN conjunct2, THEN conjunct2, THEN conjunct2, THEN conjunct2, THEN conjunct2,
      THEN conjunct2, THEN conjunct2, rule_format, OF h8]
  show ?thesis
    using c1 c2 c3 c4 c5 c6 c7 c8 by (intro conjI)
qed

lemma obj_put_keys:
  "set (map fst (obj_put k v m)) = insert k (set (map fst m))"
  by (induction m) auto

lemma obj_put_distinct:
  "distinct (map fst m) \<Longrightarrow> distinct (map fst (obj_put k v m))"
proof (induction m)
  case Nil
  then show ?case by simp
next
  case (Cons p ps)
  have "set (map fst (obj_put k v ps)) = insert k (set (map fst ps))" by (rule obj_put_keys)
  then show ?case using Cons by auto
qed

lemma obj_put_values:
  "set (map snd (obj_put k v m)) \<subseteq> insert v (set (map snd m))"
  using obj_put_set [of _ k v m] by force

lemma obj_put_distinct_values:
  "distinct (map f (map snd m)) \<Longrightarrow> f v \<notin> set (map f (map snd m)) \<Longrightarrow>
   distinct (map f (map snd (obj_put k v m)))"
proof (induction m)
  case Nil
  then show ?case by simp
next
  case (Cons p ps)
  show ?case
  proof (cases "fst p = k")
    case True
    then show ?thesis using Cons.prems by simp
  next
    case False
    have "f (snd p) \<notin> set (map f (map snd (obj_put k v ps)))"
    proof
      assume "f (snd p) \<in> set (map f (map snd (obj_put k v ps)))"
      then obtain x where x: "x \<in> set (map snd (obj_put k v ps))" "f (snd p) = f x" by auto
      then have "x = v \<or> x \<in> set (map snd ps)" using obj_put_values [of k v ps] by auto
      then show False using x(2) Cons.prems by auto
    qed
    then show ?thesis using False Cons by simp
  qed
qed

lemma freshVehicle_mono:
  "freshVehicle lo hi kc \<Longrightarrow> hi \<le> hi' \<Longrightarrow> freshVehicle lo hi' kc"
  by (auto simp: freshVehicle_def split: prod.splits)

lemma list_all_freshVehicle_mono:
  "list_all (freshVehicle lo hi) m \<Longrightarrow> hi \<le> hi' \<Longrightarrow> list_all (freshVehicle lo hi') m"
  by (induction m) (auto intro: freshVehicle_mono)

lemma VocCar_fresh:
  "VocCar v fresh w = (c, w1) \<Longrightarrow>
   freshVehicle fresh (fresh + 1) (v_id v, c) \<and> oid c = fresh \<and>
   requests_of (trace w1) = requests_of (trace w) @ initialFetches v \<and>
   subscriptions w1 = subscriptions w"
  by (auto simp: VocCar_def freshVehicle_def initialFetches_def issue_def effect_def)

lemma construct_spec:
  assumes "construct vs built fresh w = (built', fresh', w')"
    and "distinct (map fst built)" and "list_all (freshVehicle lo fresh) built"
    and "distinct (map oid (map snd built))" and "lo \<le> fresh"
  shows "fresh' = fresh + length vs \<and>
         set (map fst built') = set (map fst built) \<union> set (map v_id vs) \<and>
         distinct (map fst built') \<and>
         list_all (freshVehicle lo fresh') built' \<and>
         distinct (map oid (map snd built')) \<and>
         requests_of (trace w') = requests_of (trace w) @ concat (map initialFetches vs) \<and>
         subscriptions w' = subscriptions w"
  using assms
proof (induction vs arbitrary: built fresh w)
  case Nil
  then show ?case by simp
next
  case (Cons v vs)
  let ?w0 = "logDebug ''Found vehicle'' w"
  obtain c w1 where new: "VocCar v fresh ?w0 = (c, w1)" by fastforce
  let ?b1 = "obj_put (v_id v) c built"
  have run: "construct vs ?b1 (fresh + 1) w1 = (built', fresh', w')"
    using Cons.prems(1) new by simp
  have fr: "freshVehicle fresh (fresh + 1) (v_id v, c)" "oid c = fresh"
    "requests_of (trace w1) = requests_of (trace w) @ initialFetches v"
    "subscriptions w1 = subscriptions w"
    using VocCar_fresh [OF new] by (simp_all add: logDebug_def effect_def)
  have d1: "distinct (map fst ?b1)" using Cons.prems(2) by (rule obj_put_distinct)
  have "freshVehicle lo (fresh + 1) (v_id v, c)"
    using fr(1) Cons.prems(5) by (auto simp: freshVehicle_def)
  then have f1: "list_all (freshVehicle lo (fresh + 1)) ?b1"
    using list_all_freshVehicle_mono [OF Cons.prems(3), of "fresh + 1"]
    by (simp add: list_all_obj_put)
  have "oid c \<notin> set (map oid (map snd built))"
  proof
    assume "oid c \<in> set (map oid (map snd built))"
    then obtain k x where "(k, x) \<in> set built" "oid x = fresh" using fr(2) by auto
    then have "freshVehicle lo fresh (k, x)" using Cons.prems(3) by (auto simp: list_all_iff)
    then show False using \<open>oid x = fresh\<close> by (simp add: freshVehicle_def)
  qed
  then have o1: "distinct (map oid (map snd ?b1))"
    using obj_put_distinct_values [of oid built c "v_id v"] Cons.prems(4) by simp
  have l1: "lo \<le> fresh + 1" using Cons.prems(5) by simp
  have IH: "fresh' = fresh + 1 + length vs \<and>
         set (map fst built') = set (map fst ?b1) \<union> set (map v_id vs) \<and>
         distinct (map fst built') \<and>
         list_all (freshVehicle lo fresh') built' \<and>
         distinct (map oid (map snd built')) \<and>
         requests_of (trace w') = requests_of (trace w1) @ concat (map initialFetches vs) \<and>
         subscriptions w' = subscriptions w1"
    using Cons.IH [OF run d1 f1 o1 l1] .
  then show ?case using fr(3,4) obj_put_keys [of "v_id v" c built] by auto
qed

lemma subscribe_all:
  "subscriptions (foldl (\<lambda>w' topic. mqtt_subscribe topic w') w ts) = subscriptions w \<union> set ts \<and>
   requests_of (trace (foldl (\<lambda>w' topic. mqtt_subscribe topic w') w ts)) = requests_of (trace w)"
  by (induction ts arbitrary: w) (auto simp: mqtt_subscribe_def effect_def)

lemma unsubscribe_none [simp]: "unsubscribeForActions [] w = w"
  by (simp add: unsubscribeForActions_def)

lemma subscribeForActions_spec:
  "subscriptions (subscribeForActions a w) =
     subscriptions w \<union> (\<Union>k\<in>set (map fst (cars a)). set (actionTopics k)) \<and>
   requests_of (trace (subscribeForActions a w)) = requests_of (trace w)"
  using subscribe_all [of w "concat (map actionTopics (map fst (cars a)))"]
  by (auto simp: subscribeForActions_def)

lemma publishChargeLocations_frame:
  "subscriptions (foldl (\<lambda>w' (k, loc).
       mqtt_publish (t k) (chargeLocation_json loc) (logInfo ''publish charge location'' w')) w m)
     = subscriptions w \<and>
   requests_of (trace (foldl (\<lambda>w' (k, loc).
       mqtt_publish (t k) (chargeLocation_json loc) (logInfo ''publish charge location'' w')) w m))
     = requests_of (trace w)"
  by (induction m arbitrary: w) (auto simp: mqtt_publish_def logInfo_def effect_def)

lemma publishAll_frame:
  "subscriptions (publishAll c w) = subscriptions w \<and>
   requests_of (trace (publishAll c w)) = requests_of (trace w)"
  using publishChargeLocations_frame
    [of "\<lambda>k. ''volvooncall/'' @ vehicleId c @ ''/charge_locations/'' @ k"
        "logInfo ''publish charge locations'' (publishStatus c (publishAttributes c w))"
        "chargeLocations c"]
  by (simp add: publishAll_def publishPosition_def publishChargeLocations_def publishStatus_def
      publishAttributes_def mqtt_publish_def logInfo_def effect_def)

lemma publish_fleet_frame:
  "subscriptions (foldl (\<lambda>w' (k, c). publishAll (f c) w') w m) = subscriptions w \<and>
   requests_of (trace (foldl (\<lambda>w' (k, c). publishAll (f c) w') w m)) = requests_of (trace w)"
  by (induction m arbitrary: w) (auto simp: publishAll_frame)

lemma listenForChanges_spec:
  "cars (fst (listenForChanges a w)) =
     map (\<lambda>(k, c). (k, c\<lparr>appListeners := appListeners c + 1\<rparr>)) (cars a) \<and>
   nextOid (fst (listenForChanges a w)) = nextOid a \<and>
   subscriptions (snd (listenForChanges a w)) = subscriptions w \<and>
   requests_of (trace (snd (listenForChanges a w))) = requests_of (trace w)"
  using publish_fleet_frame [of "\<lambda>c. c\<lparr>appListeners := appListeners c + 1\<rparr>" w "cars a"]
  by (simp add: listenForChanges_def)

lemma on_vehicles_updated_none:
  "\<exists>w'. on_vehicles_updated [] a w =
          (Inr (), a\<lparr>cars := map (\<lambda>(k, c). (k, c\<lparr>appListeners := appListeners c + 1\<rparr>)) (cars a)\<rparr>, w') \<and>
        subscriptions w' = subscriptions w \<union> (\<Union>k\<in>set (map fst (cars a)). set (actionTopics k)) \<and>
        requests_of (trace w') = requests_of (trace w)"
proof -
  let ?w2 = "subscribeForActions a w"
  obtain a1 w3 where l: "listenForChanges a ?w2 = (a1, w3)" by fastforce
  have a1: "a1 = a\<lparr>cars := map (\<lambda>(k, c). (k, c\<lparr>appListeners := appListeners c + 1\<rparr>)) (cars a)\<rparr>"
    using l by (simp add: listenForChanges_def)
  have "subscriptions w3 = subscriptions ?w2" "requests_of (trace w3) = requests_of (trace ?w2)"
    using listenForChanges_spec [of a ?w2] l by simp_all
  then show ?thesis using l a1 subscribeForActions_spec [of a w]
    by (simp add: on_vehicles_updated_def)
qed

lemma listened_keys:
  "map fst (map (\<lambda>(k, c). (k, c\<lparr>appListeners := appListeners c + 1\<rparr>)) m) = map fst m"
  "map oid (map snd (map (\<lambda>(k, c). (k, c\<lparr>appListeners := appListeners c + 1\<rparr>)) m)) = map oid (map snd m)"
  by (induction m) auto

lemma listened_fresh:
  "list_all (freshVehicle lo hi) m \<Longrightarrow>
   list_all (freshVehicle lo hi) (map (\<lambda>(k, c). (k, c\<lparr>appListeners := appListeners c + 1\<rparr>)) m)"
  by (induction m) (auto simp: freshVehicle_def)

lemma map_filter_nil: "List.map_filter f [] = []"
  by (simp add: List.map_filter_def)

lemma updateVehicles_cases:
  assumes "construct vehicles [] (nextOid a) w = (built, fresh, w1)"
  shows "updateVehicles vehicles a w = (Inl TypeError, a\<lparr>cars := built, nextOid := fresh\<rparr>, w1) \<or>
         updateVehicles vehicles a w = on_vehicles_updated [] (a\<lparr>cars := built, nextOid := fresh\<rparr>) w1"
  using assms by (simp add: updateVehicles_def on_vehicles_updated_def Let_def)

lemma updateVehicles_nothing_removed:
  assumes "construct vehicles [] (nextOid a) w = (built, fresh, w1)"
    and "set (map fst (cars a)) \<subseteq> set (map fst built)"
  shows "updateVehicles vehicles a w = on_vehicles_updated [] (a\<lparr>cars := built, nextOid := fresh\<rparr>) w1"
proof -
  have "filter (\<lambda>x. x \<notin> set (map fst built)) (map fst (cars a)) = []"
    using assms(2) by (auto simp: filter_empty_conv)
  then show ?thesis using assms(1) by (simp add: updateVehicles_def Let_def map_filter_nil)
qed

text \<open>
  Claim C2, amended. A fleet refresh constructs a new vehicle object for every vehicle of the
  listing, for an id that was already known as for a new one: afterwards the fleet map holds
  exactly the listed ids, each with an object of a fresh identity and empty caches, whose two
  initial fetches have been issued. When no known vehicle is missing from the listing, the
  refresh completes and the subscription set is the previous one plus the four command topics
  of every listed vehicle. (What the refresh does for a vehicle that is missing from the
  listing is not part of this statement.)
\<close>

theorem updateVehicles_rebuilds_fleet:
  "set (map fst (cars (fst (snd (updateVehicles vehicles a w))))) = set (map v_id vehicles) \<and>
   distinct (map fst (cars (fst (snd (updateVehicles vehicles a w))))) \<and>
   list_all (freshVehicle (nextOid a) (nextOid a + length vehicles))
     (cars (fst (snd (updateVehicles vehicles a w)))) \<and>
   distinct (map oid (map snd (cars (fst (snd (updateVehicles vehicles a w)))))) \<and>
   requests_of (trace (snd (snd (updateVehicles vehicles a w)))) =
     requests_of (trace w) @ concat (map initialFetches vehicles) \<and>
   (set (map fst (cars a)) \<subseteq> set (map v_id vehicles) \<longrightarrow>
      fst (updateVehicles vehicles a w) = Inr () \<and>
      subscriptions (snd (snd (updateVehicles vehicles a w))) =
        subscriptions w \<union> (\<Union>v\<in>set vehicles. set (actionTopics (v_id v))))"
proof -
  obtain built fresh w1 where con: "construct vehicles [] (nextOid a) w = (built, fresh, w1)"
    by (metis prod_cases3)
  have spec: "fresh = nextOid a + length vehicles"
    "set (map fst built) = set (map v_id vehicles)"
    "distinct (map fst built)"
    "list_all (freshVehicle (nextOid a) fresh) built"
    "distinct (map oid (map snd built))"
    "requests_of (trace w1) = requests_of (trace w) @ concat (map initialFetches vehicles)"
    "subscriptions w1 = subscriptions w"
    using construct_spec [OF con, of "nextOid a"] by auto
  let ?a1 = "a\<lparr>cars := built, nextOid := fresh\<rparr>"
  define listened where
    "listened = map (\<lambda>(k, c). (k, c\<lparr>appListeners := appListeners c + 1\<rparr>)) built"
  have lk: "map fst listened = map fst built"
    and lo: "map oid (map snd listened) = map oid (map snd built)"
    unfolding listened_def by (rule listened_keys)+
  obtain w2 where ok: "on_vehicles_updated [] ?a1 w1 = (Inr (), ?a1\<lparr>cars := listened\<rparr>, w2)"
    and sub: "subscriptions w2 = subscriptions w1 \<union> (\<Union>k\<in>set (map fst built). set (actionTopics k))"
    and req: "requests_of (trace w2) = requests_of (trace w1)"
    using on_vehicles_updated_none [of ?a1 w1] unfolding listened_def by auto
  have lf: "list_all (freshVehicle (nextOid a) fresh) listened"
    unfolding listened_def using spec(4) by (rule listened_fresh)
  have topics: "(\<Union>k\<in>set (map fst built). set (actionTopics k)) =
                (\<Union>v\<in>set vehicles. set (actionTopics (v_id v)))"
    using spec(2) by auto
  from updateVehicles_cases [OF con]
  have general: "set (map fst (cars (fst (snd (updateVehicles vehicles a w))))) = set (map v_id vehicles) \<and>
     distinct (map fst (cars (fst (snd (updateVehicles vehicles a w))))) \<and>
     list_all (freshVehicle (nextOid a) (nextOid a + length vehicles))
       (cars (fst (snd (updateVehicles vehicles a w)))) \<and>
     distinct (map oid (map snd (cars (fst (snd (updateVehicles vehicles a w)))))) \<and>
     requests_of (trace (snd (snd (updateVehicles vehicles a w)))) =
       requests_of (trace w) @ concat (map initialFetches vehicles)"
  proof
    assume "updateVehicles vehicles a w = (Inl TypeError, ?a1, w1)"
    then show ?thesis using spec by simp
  next
    assume "updateVehicles vehicles a w = on_vehicles_updated [] ?a1 w1"
    then have "updateVehicles vehicles a w = (Inr (), ?a1\<lparr>cars := listened\<rparr>, w2)"
      using ok by simp
    then have c: "cars (fst (snd (updateVehicles vehicles a w))) = listened"
      and t: "snd (snd (updateVehicles vehicles a w)) = w2" by simp_all
    show ?thesis unfolding c t lk lo using spec req lf by simp
  qed
  have special: "set (map fst (cars a)) \<subseteq> set (map v_id vehicles) \<longrightarrow>
      fst (updateVehicles vehicles a w) = Inr () \<and>
      subscriptions (snd (snd (updateVehicles vehicles a w))) =
        subscriptions w \<union> (\<Union>v\<in>set vehicles. set (actionTopics (v_id v)))"
  proof
    assume "set (map fst (cars a)) \<subseteq> set (map v_id vehicles)"
    then have "set (map fst (cars a)) \<subseteq> set (map fst built)" using spec(2) by simp
    then have "updateVehicles vehicles a w = (Inr (), ?a1\<lparr>cars := listened\<rparr>, w2)"
      using updateVehicles_nothing_removed [OF con] ok by simp
    then show "fst (updateVehicles vehicles a w) = Inr () \<and>
      subscriptions (snd (snd (updateVehicles vehicles a w))) =
        subscriptions w \<union> (\<Union>v\<in>set vehicles. set (actionTopics (v_id v)))"
      using sub spec(7) topics by simp
  qed
  show ?thesis using general special by blast
qed

text \<open>
  Claim C2 as stated fails. With the vehicles A and B known and the listing B, C, the fleet
  map afterwards holds B and C, but the object under B is a new one (identity 2, not 1): the
  vehicle was constructed again. In this run the listener of \<open>vehicles_updated\<close> also throws at
  \<open>car.removeEventListeners()\<close>, so the subscriptions stay those of A and B.
\<close>

theorem updateVehicles_counterexample:
  "map fst (cars (fleet [someCar ''A'' (JObj []), (someCar ''B'' (JObj []))\<lparr>oid := 1\<rparr>])) = [''A'', ''B''] \<and>
   map oid (map snd (cars (fleet [someCar ''A'' (JObj []), (someCar ''B'' (JObj []))\<lparr>oid := 1\<rparr>]))) = [0, 1] \<and>
   map fst (cars (fst (snd (updateVehicles
       [\<lparr>v_name = ''XC40'', v_id = ''B''\<rparr>, \<lparr>v_name = ''XC60'', v_id = ''C''\<rparr>]
       (fleet [someCar ''A'' (JObj []), (someCar ''B'' (JObj []))\<lparr>oid := 1\<rparr>])
       (subscribeForActions (fleet [someCar ''A'' (JObj []), (someCar ''B'' (JObj []))\<lparr>oid := 1\<rparr>])
          (scripted [] (statusAnswer ''Pending'') (\<lambda>s. None))))))) = [''B'', ''C''] \<and>
   map oid (map snd (cars (fst (snd (updateVehicles
       [\<lparr>v_name = ''XC40'', v_id = ''B''\<rparr>, \<lparr>v_name = ''XC60'', v_id = ''C''\<rparr>]
       (fleet [someCar ''A'' (JObj []), (someCar ''B'' (JObj []))\<lparr>oid := 1\<rparr>])
       (subscribeForActions (fleet [someCar ''A'' (JObj []), (someCar ''B'' (JObj []))\<lparr>oid := 1\<rparr>])
          (scripted [] (statusAnswer ''Pending'') (\<lambda>s. None)))))))) = [2, 3] \<and>
   fst (updateVehicles
       [\<lparr>v_name = ''XC40'', v_id = ''B''\<rparr>, \<lparr>v_name = ''XC60'', v_id = ''C''\<rparr>]
       (fleet [someCar ''A'' (JObj []), (someCar ''B'' (JObj []))\<lparr>oid := 1\<rparr>])
       (subscribeForActions (fleet [someCar ''A'' (JObj []), (someCar ''B'' (JObj []))\<lparr>oid := 1\<rparr>])
          (scripted [] (statusAnswer ''Pending'') (\<lambda>s. None)))) = Inl TypeError \<and>
   subscriptions (snd (snd (updateVehicles
       [\<lparr>v_name = ''XC40'', v_id = ''B''\<rparr>, \<lparr>v_name = ''XC60'', v_id = ''C''\<rparr>]
       (fleet [someCar ''A'' (JObj []), (someCar ''B'' (JObj []))\<lparr>oid := 1\<rparr>])
       (subscribeForActions (fleet [someCar ''A'' (JObj []), (someCar ''B'' (JObj []))\<lparr>oid := 1\<rparr>])
          (scripted [] (statusAnswer ''Pending'') (\<lambda>s. None)))))) =
     set (actionTopics ''A'') \<union> set (actionTopics ''B'')"
proof -
  let ?a = "fleet [someCar ''A'' (JObj []), (someCar ''B'' (JObj []))\<lparr>oid := 1\<rparr>]"
  let ?u = "subscribeForActions ?a (scripted [] (statusAnswer ''Pending'') (\<lambda>s. None))"
  let ?l = "[\<lparr>v_name = ''XC40'', v_id = ''B''\<rparr>, \<lparr>v_name = ''XC60'', v_id = ''C''\<rparr>]"
  have k: "map fst (cars ?a) = [''A'', ''B'']" "map oid (map snd (cars ?a)) = [0, 1]"
    "nextOid ?a = 2"
    by (simp_all add: fleet_def someCar_def)
  have t0: "(\<Union>k\<in>set (map fst (cars ?a)). set (actionTopics k)) =
            set (actionTopics ''A'') \<union> set (actionTopics ''B'')"
    unfolding k(1) by simp
  have e0: "subscriptions (scripted [] (statusAnswer ''Pending'') (\<lambda>s. None)) = {}"
    by (simp add: scripted_def)
  have s0: "subscriptions ?u = set (actionTopics ''A'') \<union> set (actionTopics ''B'')"
    using subscribeForActions_spec [of ?a "scripted [] (statusAnswer ''Pending'') (\<lambda>s. None)",
        THEN conjunct1]
    unfolding t0 e0 by simp
  obtain built fresh w1 where con: "construct ?l [] (nextOid ?a) ?u = (built, fresh, w1)"
    by (metis prod_cases3)
  have con2: "construct ?l [] 2 ?u = (built, fresh, w1)"
    using con unfolding k(3) .
  have b: "map fst built = [''B'', ''C'']" "map oid (map snd built) = [2, 3]"
    "subscriptions w1 = subscriptions ?u"
    using con2 by (auto simp: VocCar_def Let_def issue_def effect_def logDebug_def)
  have ids: "filter (\<lambda>x. x \<notin> set (map fst built)) (map fst (cars ?a)) = [''A'']"
    unfolding b(1) k(1) by simp
  have rem: "List.map_filter (map_of (cars ?a)) [''A''] = [someCar ''A'' (JObj [])]"
    by (simp add: List.map_filter_def fleet_def someCar_def)
  have "updateVehicles ?l ?a ?u =
          on_vehicles_updated [someCar ''A'' (JObj [])] (?a\<lparr>cars := built, nextOid := fresh\<rparr>) w1"
    by (simp only: updateVehicles_def Let_def con prod.case ids rem)
  then have r: "updateVehicles ?l ?a ?u = (Inl TypeError, ?a\<lparr>cars := built, nextOid := fresh\<rparr>, w1)"
    by (simp add: on_vehicles_updated_def)
  have c: "cars (fst (snd (updateVehicles ?l ?a ?u))) = built"
    and t: "snd (snd (updateVehicles ?l ?a ?u)) = w1"
    and f: "fst (updateVehicles ?l ?a ?u) = Inl TypeError"
    unfolding r by simp_all
  show ?thesis unfolding c t f b k(1,2) s0 by simp
qed

theorem updateVehicles_rebuilds_fleet_witness:
  "set (map fst (cars (fst (snd (updateVehicles
       [\<lparr>v_name = ''XC40'', v_id = ''B''\<rparr>, \<lparr>v_name = ''XC60'', v_id = ''C''\<rparr>]
       (fleet [someCar ''B'' (JObj [])])
       (scripted [] (statusAnswer ''Pending'') (\<lambda>s. None))))))) = {''B'', ''C''} \<and>
   fst (updateVehicles
       [\<lparr>v_name = ''XC40'', v_id = ''B''\<rparr>, \<lparr>v_name = ''XC60'', v_id = ''C''\<rparr>]
       (fleet [someCar ''B'' (JObj [])])
       (scripted [] (statusAnswer ''Pending'') (\<lambda>s. None))) = Inr () \<and>
   subscriptions (snd (snd (updateVehicles
       [\<lparr>v_name = ''XC40'', v_id = ''B''\<rparr>, \<lparr>v_name = ''XC60'', v_id = ''C''\<rparr>]
       (fleet [someCar ''B'' (JObj [])])
       (scripted [] (statusAnswer ''Pending'') (\<lambda>s. None))))) =
     set (actionTopics ''B'') \<union> set (actionTopics ''C'')"
proof -
  let ?a = "fleet [someCar ''B'' (JObj [])]"
  let ?u = "scripted [] (statusAnswer ''Pending'') (\<lambda>s. None)"
  let ?l = "[\<lparr>v_name = ''XC40'', v_id = ''B''\<rparr>, \<lparr>v_name = ''XC60'', v_id = ''C''\<rparr>]"
  have h: "set (map fst (cars ?a)) \<subseteq> set (map v_id ?l)"
    by (simp add: fleet_def someCar_def)
  have s0: "subscriptions ?u = {}" by (simp add: scripted_def)
  note inst = updateVehicles_rebuilds_fleet [of ?l ?a ?u]
  have 1: "set (map fst (cars (fst (snd (updateVehicles ?l ?a ?u))))) = set (map v_id ?l)"
    using inst [THEN conjunct1] .
  have 2: "fst (updateVehicles ?l ?a ?u) = Inr () \<and>
      subscriptions (snd (snd (updateVehicles ?l ?a ?u))) =
        subscriptions ?u \<union> (\<Union>v\<in>set ?l. set (actionTopics (v_id v)))"
    using inst [THEN conjunct2, THEN conjunct2, THEN conjunct2, THEN conjunct2, THEN conjunct2,
        rule_format, OF h] .
  have 3: "set (map v_id ?l) = {''B'', ''C''}" by simp
  have 4: "subscriptions ?u \<union> (\<Union>v\<in>set ?l. set (actionTopics (v_id v))) =
           set (actionTopics ''B'') \<union> set (actionTopics ''C'')"
    by (simp add: s0)
  show ?thesis using 1 2 3 4 by (simp only:) 
qed

end
